(* ===== verification/Js_Prelude.thy ===== *)
theory Js_Prelude
  imports Complex_Main "HOL-Library.Sublist" "HOL-Library.Multiset"
begin

text \<open>
  What the front end uses of JavaScript itself.  A string is the list of the bytes of its UTF-8
  encoding, so that every character the sources mention (the full-width comma, the bullet of a
  masked label, the non-breaking space that \<open>trim\<close> removes) has a representation; the operations
  below (\<open>trim\<close>, \<open>split\<close> and \<open>includes\<close> at ASCII separators, replacement of a whole character,
  concatenation) commute with the encoding because UTF-8 is self-synchronising.

  A finite number is a rational: exact arithmetic, without the rounding of a double.  Where the
  sources distinguish \<open>NaN\<close> and the infinities the type \<open>jsnum\<close> has them.  A value of type
  \<open>unknown\<close> is a \<open>jsval\<close>.
\<close>

named_theorems js_defs "definitions that a proof about one call may unfold"

section \<open>Dynamic values\<close>

datatype jsnum = Fin rat | PosInf | NegInf | NaN

datatype jsval =
    JUndef
  | JNull
  | JBool bool
  | JNum jsnum
  | JStr string
  | JArr "jsval list"
  | JObj "(string \<times> jsval) list"

fun num_truthy :: "jsnum \<Rightarrow> bool" where
  "num_truthy (Fin r) = (r \<noteq> 0)"
| "num_truthy PosInf = True"
| "num_truthy NegInf = True"
| "num_truthy NaN = False"

fun truthy :: "jsval \<Rightarrow> bool" where
  "truthy JUndef = False"
| "truthy JNull = False"
| "truthy (JBool b) = b"
| "truthy (JNum n) = num_truthy n"
| "truthy (JStr s) = (s \<noteq> [])"
| "truthy (JArr xs) = True"
| "truthy (JObj fs) = True"

text \<open>\<open>typeof v === 'string'\<close> and its siblings; \<open>null\<close> and arrays are of type \<open>object\<close>.\<close>

fun is_string :: "jsval \<Rightarrow> bool" where
  "is_string (JStr s) = True"
| "is_string _ = False"

fun is_number :: "jsval \<Rightarrow> bool" where
  "is_number (JNum n) = True"
| "is_number _ = False"

fun is_boolean :: "jsval \<Rightarrow> bool" where
  "is_boolean (JBool b) = True"
| "is_boolean _ = False"

fun is_object :: "jsval \<Rightarrow> bool" where
  "is_object JNull = True"
| "is_object (JArr xs) = True"
| "is_object (JObj fs) = True"
| "is_object _ = False"

text \<open>Reading a named property of an object.  No property that the sources read is an array
  index or the length of an array, so an array has none of them.\<close>

fun jprop :: "jsval \<Rightarrow> string \<Rightarrow> jsval" where
  "jprop (JObj fs) k = (case map_of fs k of Some v \<Rightarrow> v | None \<Rightarrow> JUndef)"
| "jprop _ k = JUndef"

fun num_is_finite :: "jsnum \<Rightarrow> bool" where
  "num_is_finite (Fin r) = True"
| "num_is_finite _ = False"

fun num_is_integer :: "jsnum \<Rightarrow> bool" where
  "num_is_integer (Fin r) = (of_int \<lfloor>r\<rfloor> = r)"
| "num_is_integer _ = False"

fun num_positive :: "jsnum \<Rightarrow> bool" where
  "num_positive (Fin r) = (0 < r)"
| "num_positive PosInf = True"
| "num_positive _ = False"

section \<open>Searching\<close>

lemma find_SomeD: "find P xs = Some x \<Longrightarrow> P x \<and> x \<in> set xs"
  by (auto simp: find_Some_iff)

lemma find_rev_SomeD: "find P (rev xs) = Some x \<Longrightarrow> P x \<and> x \<in> set xs"
  by (drule find_SomeD) simp

lemma find_rev_distinct:
  "distinct (map f xs) \<Longrightarrow> x \<in> set xs \<Longrightarrow> find (\<lambda>y. f y = f x) (rev xs) = Some x"
  by (cases "find (\<lambda>y. f y = f x) (rev xs)")
    (auto simp: find_None_iff distinct_map dest!: find_rev_SomeD inj_onD)

section \<open>Characters and white space\<close>

text \<open>The white space of \<open>String.prototype.trim\<close> and of the regular expression \<open>\s\<close>, as UTF-8.\<close>

definition js_ws :: "string list" where
  "js_ws =
    [[CHR 0x09], [CHR 0x0A], [CHR 0x0B], [CHR 0x0C], [CHR 0x0D], [CHR 0x20],
     [CHR 0xC2, CHR 0xA0], [CHR 0xE1, CHR 0x9A, CHR 0x80],
     [CHR 0xE2, CHR 0x80, CHR 0x80], [CHR 0xE2, CHR 0x80, CHR 0x81],
     [CHR 0xE2, CHR 0x80, CHR 0x82], [CHR 0xE2, CHR 0x80, CHR 0x83],
     [CHR 0xE2, CHR 0x80, CHR 0x84], [CHR 0xE2, CHR 0x80, CHR 0x85],
     [CHR 0xE2, CHR 0x80, CHR 0x86], [CHR 0xE2, CHR 0x80, CHR 0x87],
     [CHR 0xE2, CHR 0x80, CHR 0x88], [CHR 0xE2, CHR 0x80, CHR 0x89],
     [CHR 0xE2, CHR 0x80, CHR 0x8A], [CHR 0xE2, CHR 0x80, CHR 0xA8],
     [CHR 0xE2, CHR 0x80, CHR 0xA9], [CHR 0xE2, CHR 0x80, CHR 0xAF],
     [CHR 0xE2, CHR 0x81, CHR 0x9F], [CHR 0xE3, CHR 0x80, CHR 0x80],
     [CHR 0xEF, CHR 0xBB, CHR 0xBF]]"

definition ws_prefix :: "string \<Rightarrow> string option" where
  "ws_prefix s = find (\<lambda>w. prefix w s) js_ws"

definition ws_suffix :: "string \<Rightarrow> string option" where
  "ws_suffix s = find (\<lambda>w. suffix w s) js_ws"

text \<open>A byte that neither begins nor ends a white-space character.\<close>

definition solid :: "char \<Rightarrow> bool" where
  "solid c \<longleftrightarrow> c \<notin> set (map hd js_ws) \<and> c \<notin> set (map last js_ws)"

lemma js_ws_nonempty: "w \<in> set js_ws \<Longrightarrow> w \<noteq> []"
  by (auto simp: js_ws_def)

lemma ws_prefix_SomeD:
  assumes "ws_prefix s = Some w"
  shows "w \<in> set js_ws" "prefix w s" "w \<noteq> []" "length w \<le> length s"
  using assms by (auto simp: ws_prefix_def find_Some_iff js_ws_nonempty prefix_length_le)

lemma ws_suffix_SomeD:
  assumes "ws_suffix s = Some w"
  shows "w \<in> set js_ws" "suffix w s" "w \<noteq> []" "length w \<le> length s"
  using assms by (auto simp: ws_suffix_def find_Some_iff js_ws_nonempty suffix_length_le)

function trim_start :: "string \<Rightarrow> string" where
  "trim_start s =
     (case ws_prefix s of Some w \<Rightarrow> trim_start (drop (length w) s) | None \<Rightarrow> s)"
  by pat_completeness auto
termination
proof (relation "measure length", goal_cases)
  case (2 s w)
  from 2 have "w \<noteq> []" "length w \<le> length s"
    using ws_prefix_SomeD by auto
  then show ?case by (cases w) auto
qed simp

function trim_end :: "string \<Rightarrow> string" where
  "trim_end s =
     (case ws_suffix s of Some w \<Rightarrow> trim_end (take (length s - length w) s) | None \<Rightarrow> s)"
  by pat_completeness auto
termination
proof (relation "measure length", goal_cases)
  case (2 s w)
  from 2 have "w \<noteq> []" "length w \<le> length s"
    using ws_suffix_SomeD by auto
  then show ?case by (cases w) auto
qed simp

text \<open>\<open>s.replace(/\s/g, '')\<close>.\<close>

function strip_ws :: "string \<Rightarrow> string" where
  "strip_ws [] = []"
| "strip_ws (c # cs) =
     (case ws_prefix (c # cs) of
        Some w \<Rightarrow> strip_ws (drop (length w) (c # cs))
      | None \<Rightarrow> c # strip_ws cs)"
  by pat_completeness auto
termination
proof (relation "measure length", goal_cases)
  case (3 c cs w)
  from 3 have "w \<noteq> []" "length w \<le> length (c # cs)"
    by (auto dest: ws_prefix_SomeD(3) ws_prefix_SomeD(4))
  then show ?case by (cases w) auto
qed simp_all

declare trim_start.simps [simp del] trim_end.simps [simp del] strip_ws.simps [simp del]

definition js_trim :: "string \<Rightarrow> string" where
  "js_trim s = trim_end (trim_start s)"

lemma ws_prefix_solid: "solid (hd s) \<Longrightarrow> ws_prefix s = None"
proof (rule ccontr)
  assume "solid (hd s)" and "ws_prefix s \<noteq> None"
  then obtain w where w: "ws_prefix s = Some w" by auto
  note D = ws_prefix_SomeD [OF w]
  from D(2,3) have "hd w = hd s" by (auto simp: prefix_def)
  with D(1) \<open>solid (hd s)\<close> show False by (metis image_eqI list.set_map solid_def)
qed

lemma ws_suffix_solid: "solid (last s) \<Longrightarrow> ws_suffix s = None"
proof (rule ccontr)
  assume "solid (last s)" and "ws_suffix s \<noteq> None"
  then obtain w where w: "ws_suffix s = Some w" by auto
  note D = ws_suffix_SomeD [OF w]
  from D(2,3) have "last w = last s" by (auto simp: suffix_def)
  with D(1) \<open>solid (last s)\<close> show False by (metis image_eqI list.set_map solid_def)
qed

lemma ws_prefix_Nil [simp]: "ws_prefix [] = None"
  by (auto simp: ws_prefix_def find_None_iff dest: js_ws_nonempty)

lemma ws_suffix_Nil [simp]: "ws_suffix [] = None"
  by (auto simp: ws_suffix_def find_None_iff dest: js_ws_nonempty)

lemma trim_start_solid: "s = [] \<or> solid (hd s) \<Longrightarrow> trim_start s = s"
  by (subst trim_start.simps) (auto simp: ws_prefix_solid)

lemma trim_end_solid: "s = [] \<or> solid (last s) \<Longrightarrow> trim_end s = s"
  by (subst trim_end.simps) (auto simp: ws_suffix_solid)

lemma js_trim_solid: "s = [] \<or> solid (hd s) \<and> solid (last s) \<Longrightarrow> js_trim s = s"
  by (auto simp: js_trim_def trim_start_solid trim_end_solid)

lemma js_trim_Nil [simp]: "js_trim [] = []"
  by (simp add: js_trim_solid)

lemma strip_ws_solid: "\<forall>c \<in> set s. solid c \<Longrightarrow> strip_ws s = s"
  by (induction s) (auto simp: strip_ws.simps ws_prefix_solid)

text \<open>Trimming is idempotent: its result neither begins nor ends with white space.\<close>

lemma ws_prefix_trim_start: "ws_prefix (trim_start s) = None"
proof (induction s rule: trim_start.induct)
  case (1 s)
  then show ?case
    by (cases "ws_prefix s") (auto simp: trim_start.simps [of s])
qed

lemma ws_suffix_trim_end: "ws_suffix (trim_end s) = None"
proof (induction s rule: trim_end.induct)
  case (1 s)
  then show ?case
    by (cases "ws_suffix s") (auto simp: trim_end.simps [of s])
qed

lemma prefix_trim_end: "prefix (trim_end s) s"
proof (induction s rule: trim_end.induct)
  case (1 s)
  show ?case
  proof (cases "ws_suffix s")
    case None
    then show ?thesis by (simp add: trim_end.simps [of s])
  next
    case (Some w)
    then have "prefix (trim_end s) (take (length s - length w) s)"
      using 1 by (simp add: trim_end.simps [of s])
    then show ?thesis
      using take_is_prefix prefix_order.trans by blast
  qed
qed

lemma ws_prefix_prefix: "prefix t s \<Longrightarrow> ws_prefix s = None \<Longrightarrow> ws_prefix t = None"
  by (auto simp: ws_prefix_def find_None_iff dest: prefix_order.trans)

lemma js_trim_trim [simp]: "js_trim (js_trim s) = js_trim s"
proof -
  have "ws_prefix (js_trim s) = None"
    unfolding js_trim_def
    by (rule ws_prefix_prefix [OF prefix_trim_end ws_prefix_trim_start])
  then have "trim_start (js_trim s) = js_trim s"
    by (simp add: trim_start.simps)
  moreover have "trim_end (js_trim s) = js_trim s"
    using ws_suffix_trim_end [of "trim_start s"] by (simp add: js_trim_def trim_end.simps)
  ultimately show ?thesis by (simp add: js_trim_def)
qed

section \<open>Splitting, joining, replacing\<close>

text \<open>\<open>s.split(c)\<close> for a one-character separator: never empty, \<open>[""]\<close> for the empty string.\<close>

fun split_on :: "char \<Rightarrow> string \<Rightarrow> string list" where
  "split_on d [] = [[]]"
| "split_on d (c # cs) =
     (if c = d then [] # split_on d cs
      else (case split_on d cs of [] \<Rightarrow> [[c]] | x # xs \<Rightarrow> (c # x) # xs))"

text \<open>\<open>xs.join(sep)\<close>.\<close>

fun join_with :: "string \<Rightarrow> string list \<Rightarrow> string" where
  "join_with d [] = []"
| "join_with d [x] = x"
| "join_with d (x # y # ys) = x @ d @ join_with d (y # ys)"

text \<open>\<open>s.replace(/p/g, r)\<close> for a fixed non-empty pattern \<open>p\<close>; with the empty pattern, which no
  source uses, the string is returned as it is.\<close>

function replace_all :: "string \<Rightarrow> string \<Rightarrow> string \<Rightarrow> string" where
  "replace_all p r [] = []"
| "replace_all p r (c # cs) =
     (if p \<noteq> [] \<and> prefix p (c # cs) then r @ replace_all p r (drop (length p) (c # cs))
      else c # replace_all p r cs)"
  by pat_completeness auto
termination
  by (relation "measure (\<lambda>(p, r, s). length s)") (auto simp: neq_Nil_conv)

declare replace_all.simps [simp del]

lemma join_with_Cons: "join_with d (x # xs) = (if xs = [] then x else x @ d @ join_with d xs)"
  by (cases xs) auto

lemma split_on_nonempty [simp]: "split_on d s \<noteq> []"
  by (induction s) (auto split: list.splits)

lemma split_on_none: "d \<notin> set s \<Longrightarrow> split_on d s = [s]"
  by (induction s) auto

lemma split_on_append:
  "d \<notin> set x \<Longrightarrow> split_on d (x @ d # s) = x # split_on d s"
  by (induction x) (auto split: list.splits)

lemma split_on_join:
  "xs \<noteq> [] \<Longrightarrow> \<forall>x \<in> set xs. d \<notin> set x \<Longrightarrow> split_on d (join_with [d] xs) = xs"
  by (induction "[d]" xs rule: join_with.induct) (auto simp: split_on_append split_on_none)

lemma split_on_pieces: "x \<in> set (split_on d s) \<Longrightarrow> d \<notin> set x \<and> set x \<subseteq> set s"
proof (induction s arbitrary: x)
  case (Cons c cs)
  then show ?case
    by (cases "split_on d cs"; cases "c = d"; cases "x = c # hd (split_on d cs)")
       (fastforce split: if_splits)+
qed simp

lemma join_split_on: "join_with [d] (split_on d s) = s"
proof (induction s)
  case (Cons c cs)
  then show ?case
    by (cases "split_on d cs") (simp, auto simp: join_with_Cons split: if_splits)
qed simp

lemma replace_all_none: "p \<noteq> [] \<Longrightarrow> hd p \<notin> set s \<Longrightarrow> replace_all p r s = s"
proof (induction s)
  case (Cons c cs)
  then have "\<not> prefix p (c # cs)"
    by (cases p) auto
  with Cons show ?case by (simp add: replace_all.simps)
qed (simp add: replace_all.simps)

lemma join_with_append:
  "xs \<noteq> [] \<Longrightarrow> ys \<noteq> [] \<Longrightarrow> join_with d (xs @ ys) = join_with d xs @ d @ join_with d ys"
  by (induction d xs rule: join_with.induct) (auto simp: join_with_Cons)

lemma set_join_with: "set (join_with d xs) \<subseteq> set d \<union> (\<Union>x \<in> set xs. set x)"
  by (induction d xs rule: join_with.induct) auto

lemma hd_join_with: "xs \<noteq> [] \<Longrightarrow> hd xs \<noteq> [] \<Longrightarrow> hd (join_with d xs) = hd (hd xs)"
  by (cases xs) (auto simp: join_with_Cons)

lemma join_with_nonempty: "xs \<noteq> [] \<Longrightarrow> last xs \<noteq> [] \<Longrightarrow> join_with d xs \<noteq> []"
  by (induction d xs rule: join_with.induct) auto

lemma last_join_with: "xs \<noteq> [] \<Longrightarrow> last xs \<noteq> [] \<Longrightarrow> last (join_with d xs) = last (last xs)"
proof (induction d xs rule: join_with.induct)
  case (3 d x y ys)
  then have "join_with d (y # ys) \<noteq> []"
    by (intro join_with_nonempty) simp_all
  with 3 show ?case by simp
qed simp_all

lemma join_with_eq_Nil: "\<forall>x \<in> set xs. x \<noteq> [] \<Longrightarrow> join_with d xs = [] \<longleftrightarrow> xs = []"
  by (cases xs) (auto simp: join_with_Cons)

text \<open>A loop that pushes onto an array.\<close>

lemma foldl_collect:
  "(\<And>acc x. step acc x = acc @ f x) \<Longrightarrow> foldl step acc xs = acc @ concat (map f xs)"
  by (induction xs arbitrary: acc) simp_all

section \<open>Decimal numerals\<close>

definition digit_val :: "char \<Rightarrow> nat" where
  "digit_val c = of_char c - 48"

definition is_digit :: "char \<Rightarrow> bool" where
  "is_digit c \<longleftrightarrow> 48 \<le> (of_char c :: nat) \<and> (of_char c :: nat) \<le> 57"

definition digit_char :: "nat \<Rightarrow> char" where
  "digit_char n = char_of (48 + n)"

text \<open>\<open>Number.parseInt(s, 10)\<close> of a string of digits.\<close>

definition digits_val :: "string \<Rightarrow> nat" where
  "digits_val s = foldl (\<lambda>n c. 10 * n + digit_val c) 0 s"

text \<open>\<open>String(n)\<close> of a natural number.\<close>

fun nat_str :: "nat \<Rightarrow> string" where
  "nat_str n = (if n < 10 then [digit_char n] else nat_str (n div 10) @ [digit_char (n mod 10)])"

declare nat_str.simps [simp del]

definition int_str :: "int \<Rightarrow> string" where
  "int_str i = (if i < 0 then CHR ''-'' # nat_str (nat (- i)) else nat_str (nat i))"

lemma of_char_digit_char: "n < 10 \<Longrightarrow> of_char (digit_char n) = (48 + n :: nat)"
  by (simp add: digit_char_def)

lemma is_digit_digit_char [simp]: "n < 10 \<Longrightarrow> is_digit (digit_char n)"
  by (simp add: is_digit_def of_char_digit_char)

lemma digit_val_digit_char [simp]: "n < 10 \<Longrightarrow> digit_val (digit_char n) = n"
  by (simp add: digit_val_def of_char_digit_char)

lemma nat_str_nonempty [simp]: "nat_str n \<noteq> []"
  by (subst nat_str.simps) simp

lemma nat_str_digits: "c \<in> set (nat_str n) \<Longrightarrow> is_digit c"
proof (induction n rule: nat_str.induct)
  case (1 n)
  then show ?case by (cases "n < 10") (auto simp: nat_str.simps [of n])
qed

lemma digits_val_snoc: "digits_val (s @ [c]) = 10 * digits_val s + digit_val c"
  by (simp add: digits_val_def)

lemma digits_val_nat_str [simp]: "digits_val (nat_str n) = n"
proof (induction n rule: nat_str.induct)
  case (1 n)
  show ?case
  proof (cases "n < 10")
    case True
    then show ?thesis by (simp add: nat_str.simps [of n] digits_val_def)
  next
    case False
    with 1 have "digits_val (nat_str (n div 10)) = n div 10" by simp
    with False show ?thesis by (simp add: nat_str.simps [of n] digits_val_snoc)
  qed
qed

lemma nat_str_inject [simp]: "nat_str m = nat_str n \<longleftrightarrow> m = n"
  by (metis digits_val_nat_str)

lemma is_digit_solid: "is_digit c \<Longrightarrow> solid c"
  by (auto simp: is_digit_def solid_def js_ws_def)

lemma not_digits: "\<not> is_digit CHR ''-''" "\<not> is_digit CHR '',''" "\<not> is_digit CHR 0xEF"
  by (simp_all add: is_digit_def)

section \<open>Comparators and Array.prototype.sort\<close>

text \<open>
  A comparator returns a number of which only the sign matters.  \<open>a - b\<close> of two numbers is
  \<open>num_cmp a b\<close>; \<open>c1 || c2\<close> takes the second comparator where the first returns zero.
\<close>

definition num_cmp :: "'n::linorder \<Rightarrow> 'n \<Rightarrow> int" where
  "num_cmp a b = (if a < b then -1 else if b < a then 1 else 0)"

definition cmp_or :: "int \<Rightarrow> int \<Rightarrow> int" where
  "cmp_or x y = (if x \<noteq> 0 then x else y)"

text \<open>\<open>sort\<close> is stable; for a consistent comparator its result is determined, and stable
  insertion computes it.\<close>

fun cmp_insert :: "('a \<Rightarrow> 'a \<Rightarrow> int) \<Rightarrow> 'a \<Rightarrow> 'a list \<Rightarrow> 'a list" where
  "cmp_insert cmp x [] = [x]"
| "cmp_insert cmp x (y # ys) = (if cmp x y \<le> 0 then x # y # ys else y # cmp_insert cmp x ys)"

fun js_sort :: "('a \<Rightarrow> 'a \<Rightarrow> int) \<Rightarrow> 'a list \<Rightarrow> 'a list" where
  "js_sort cmp [] = []"
| "js_sort cmp (x # xs) = cmp_insert cmp x (js_sort cmp xs)"

lemma mset_cmp_insert [simp]: "mset (cmp_insert cmp x xs) = add_mset x (mset xs)"
  by (induction xs) auto

lemma mset_js_sort [simp]: "mset (js_sort cmp xs) = mset xs"
  by (induction xs) auto

lemma set_js_sort [simp]: "set (js_sort cmp xs) = set xs"
  by (metis mset_js_sort set_mset_mset)

lemma length_js_sort [simp]: "length (js_sort cmp xs) = length xs"
  by (metis mset_js_sort size_mset)

lemma set_cmp_insert [simp]: "set (cmp_insert cmp x xs) = insert x (set xs)"
  by (metis mset_cmp_insert set_mset_add_mset_insert set_mset_mset)

lemma distinct_map_js_sort [simp]: "distinct (map f (js_sort cmp xs)) = distinct (map f xs)"
  by (metis mset_eq_imp_distinct_iff mset_js_sort mset_map)

lemma js_sort_eq_Nil [simp]: "js_sort cmp xs = [] \<longleftrightarrow> xs = []"
  by (metis length_0_conv length_js_sort)

text \<open>The contract a comparator has to keep: it is a total preorder.\<close>

locale comparator =
  fixes cmp :: "'a \<Rightarrow> 'a \<Rightarrow> int"
  assumes cmp_total: "cmp x y \<le> 0 \<or> cmp y x \<le> 0"
    and cmp_trans: "cmp x y \<le> 0 \<Longrightarrow> cmp y z \<le> 0 \<Longrightarrow> cmp x z \<le> 0"
begin

lemma sorted_cmp_insert:
  "sorted_wrt (\<lambda>x y. cmp x y \<le> 0) xs \<Longrightarrow> sorted_wrt (\<lambda>x y. cmp x y \<le> 0) (cmp_insert cmp x xs)"
proof (induction xs)
  case (Cons y ys)
  then show ?case
    using cmp_total [of x y] by (auto intro: cmp_trans)
qed simp

lemma sorted_js_sort: "sorted_wrt (\<lambda>x y. cmp x y \<le> 0) (js_sort cmp xs)"
  by (induction xs) (auto intro: sorted_cmp_insert)

lemma cmp_insert_sorted_Cons:
  "\<forall>y \<in> set ys. cmp x y \<le> 0 \<Longrightarrow> cmp_insert cmp x ys = x # ys"
  by (cases ys) auto

lemma js_sort_sorted: "sorted_wrt (\<lambda>x y. cmp x y \<le> 0) xs \<Longrightarrow> js_sort cmp xs = xs"
  by (induction xs) (auto simp: cmp_insert_sorted_Cons)

lemma js_sort_idem: "js_sort cmp (js_sort cmp xs) = js_sort cmp xs"
  by (rule js_sort_sorted [OF sorted_js_sort])

text \<open>Taking the first \<open>n\<close> of a sorted array keeps elements that come no later than those cut.\<close>

lemma take_js_sort_best:
  assumes "x \<in> set (take n (js_sort cmp xs))" and "y \<in> set (drop n (js_sort cmp xs))"
  shows "cmp x y \<le> 0"
proof -
  have "sorted_wrt (\<lambda>x y. cmp x y \<le> 0) (take n (js_sort cmp xs) @ drop n (js_sort cmp xs))"
    by (simp add: sorted_js_sort)
  with assms show ?thesis by (auto simp only: sorted_wrt_append)
qed

end

text \<open>Comparators by a numeric key, in either direction, and their lexicographic combination.\<close>

definition by_key :: "('a \<Rightarrow> 'n::linorder) \<Rightarrow> 'a \<Rightarrow> 'a \<Rightarrow> int" where
  "by_key f a b = num_cmp (f a) (f b)"

definition by_key_desc :: "('a \<Rightarrow> 'n::linorder) \<Rightarrow> 'a \<Rightarrow> 'a \<Rightarrow> int" where
  "by_key_desc f a b = num_cmp (f b) (f a)"

lemma num_cmp_le [simp]: "num_cmp a b \<le> 0 \<longleftrightarrow> a \<le> b"
  by (auto simp: num_cmp_def)

lemma num_cmp_eq [simp]: "num_cmp a b = 0 \<longleftrightarrow> a = b"
  by (auto simp: num_cmp_def)

text \<open>A signed comparator also knows when two values swap places.\<close>

locale signed_comparator = comparator +
  assumes cmp_zero: "cmp x y = 0 \<longleftrightarrow> cmp x y \<le> 0 \<and> cmp y x \<le> 0"
begin

lemma cmp_refl [simp]: "cmp x x = 0"
  using cmp_zero cmp_total by blast

lemma cmp_pos: "0 < cmp x y \<longleftrightarrow> cmp y x < 0"
  using cmp_zero cmp_total by (metis linorder_not_less order_less_le)

end

lemma signed_comparator_by_key: "signed_comparator (by_key f)"
  by unfold_locales (auto simp: by_key_def)

lemma signed_comparator_by_key_desc: "signed_comparator (by_key_desc f)"
  by unfold_locales (auto simp: by_key_desc_def)

lemma signed_comparator_or:
  assumes "signed_comparator c" and "signed_comparator d"
  shows "signed_comparator (\<lambda>x y. cmp_or (c x y) (d x y))"
proof -
  note c = signed_comparator.axioms(1) [OF assms(1)] and d = signed_comparator.axioms(1) [OF assms(2)]
  note ct = comparator.cmp_total [OF c] and dt = comparator.cmp_total [OF d]
  note cr = comparator.cmp_trans [OF c] and dr = comparator.cmp_trans [OF d]
  note cz = signed_comparator.cmp_zero [OF assms(1)] and dz = signed_comparator.cmp_zero [OF assms(2)]
  show ?thesis
    unfolding cmp_or_def
  proof (unfold_locales, goal_cases)
    case (1 x y)
    show ?case using ct [of x y] dt [of x y] cz [of x y] cz [of y x] by auto
  next
    case (2 x y z)
    then show ?case
      using cr [of x y z] dr [of x y z] cr [of z x y] cr [of y z x]
        cz [of x y] cz [of y z] cz [of x z] ct [of z x] ct [of y x] ct [of z y]
      by (auto split: if_splits)
  next
    case (3 x y)
    show ?case using cz [of x y] cz [of y x] dz [of x y] by (auto split: if_splits)
  qed
qed

end
