(* ===== verification/Status_Code_Rules.thy ===== *)
theory Status_Code_Rules
  imports Js_Prelude
begin

text \<open>
  \<open>web/src/lib/http-status-code-rules.ts\<close>: the rules that say on which HTTP status codes a
  channel is disabled or a request retried, typed by the administrator as a comma-separated list
  of codes and ranges.  The parser rejects every malformed token, sorts and merges the ranges and
  prints them back in a normal form.
\<close>

record StatusCodeRange =
  rstart :: nat
  rend :: nat

record ParsedHttpStatusCodeRules =
  psr_ok :: bool
  psr_ranges :: "StatusCodeRange list"
  psr_tokens :: "string list"
  psr_normalized :: string
  psr_invalidTokens :: "string list"

section \<open>Definitions\<close>

text \<open>U+FF0C, the full-width comma.\<close>

definition fullwidth_comma :: string where
  "fullwidth_comma = [CHR 0xEF, CHR 0xBC, CHR 0x8C]"

definition isNumber :: "string \<Rightarrow> bool" where
  "isNumber s \<longleftrightarrow> s \<noteq> [] \<and> list_all is_digit s"

definition isValidCode :: "nat \<Rightarrow> bool" where
  "isValidCode code \<longleftrightarrow> 100 \<le> code \<and> code \<le> 599"

text \<open>The destructuring \<open>const [a, b] = cleaned.split('-')\<close> drops every further piece.\<close>

definition parseToken :: "string \<Rightarrow> StatusCodeRange option" where
  "parseToken token =
    (let cleaned = strip_ws (js_trim token) in
     if cleaned = [] then None
     else if CHR ''-'' \<in> set cleaned then
       (case split_on CHR ''-'' cleaned of
          a # b # _ \<Rightarrow>
            if \<not> isNumber a \<or> \<not> isNumber b then None
            else
              let s = digits_val a; e = digits_val b in
              if \<not> isValidCode s \<or> \<not> isValidCode e \<or> e < s then None
              else Some \<lparr>rstart = s, rend = e\<rparr>
        | _ \<Rightarrow> None)
     else if \<not> isNumber cleaned then None
     else
       let code = digits_val cleaned in
       if \<not> isValidCode code then None else Some \<lparr>rstart = code, rend = code\<rparr>)"

definition rangeCompare :: "StatusCodeRange \<Rightarrow> StatusCodeRange \<Rightarrow> int" where
  "rangeCompare a b =
    (if rstart a \<noteq> rstart b then num_cmp (rstart a) (rstart b) else num_cmp (rend a) (rend b))"

definition mergeStep :: "StatusCodeRange list \<Rightarrow> StatusCodeRange \<Rightarrow> StatusCodeRange list" where
  "mergeStep merged current =
    (if merged = [] \<or> rend (last merged) + 1 < rstart current then merged @ [current]
     else butlast merged @ [(last merged)\<lparr>rend := max (rend (last merged)) (rend current)\<rparr>])"

definition mergeRanges :: "StatusCodeRange list \<Rightarrow> StatusCodeRange list" where
  "mergeRanges rs = (if rs = [] then [] else foldl mergeStep [] (js_sort rangeCompare rs))"

definition rangeToken :: "StatusCodeRange \<Rightarrow> string" where
  "rangeToken r =
    (if rstart r = rend r then nat_str (rstart r)
     else nat_str (rstart r) @ ''-'' @ nat_str (rend r))"

definition ruleSegments :: "string \<Rightarrow> string list" where
  "ruleSegments raw =
    filter (\<lambda>s. s \<noteq> []) (map js_trim (split_on CHR '','' (replace_all fullwidth_comma '','' raw)))"

text \<open>The input is a form value or \<open>undefined\<close>/\<open>null\<close>.\<close>

definition parseHttpStatusCodeRules :: "string option \<Rightarrow> ParsedHttpStatusCodeRules" where
  "parseHttpStatusCodeRules input =
    (let raw = js_trim (case input of None \<Rightarrow> [] | Some s \<Rightarrow> s) in
     if raw = [] then
       \<lparr>psr_ok = True, psr_ranges = [], psr_tokens = [], psr_normalized = [], psr_invalidTokens = []\<rparr>
     else
       let segments = ruleSegments raw;
           invalid = filter (\<lambda>s. parseToken s = None) segments;
           ranges = List.map_filter parseToken segments in
       if invalid \<noteq> [] then
         \<lparr>psr_ok = False, psr_ranges = [], psr_tokens = [], psr_normalized = raw,
          psr_invalidTokens = invalid\<rparr>
       else
         let merged = mergeRanges ranges;
             tokens = map rangeToken merged in
         \<lparr>psr_ok = True, psr_ranges = merged, psr_tokens = tokens,
          psr_normalized = join_with '','' tokens, psr_invalidTokens = []\<rparr>)"

section \<open>The abstract contract\<close>

definition inRange :: "StatusCodeRange \<Rightarrow> nat \<Rightarrow> bool" where
  "inRange r code \<longleftrightarrow> rstart r \<le> code \<and> code \<le> rend r"

definition covers :: "StatusCodeRange list \<Rightarrow> nat \<Rightarrow> bool" where
  "covers rs code \<longleftrightarrow> (\<exists>r \<in> set rs. inRange r code)"

definition wellformedRange :: "StatusCodeRange \<Rightarrow> bool" where
  "wellformedRange r \<longleftrightarrow> isValidCode (rstart r) \<and> isValidCode (rend r) \<and> rstart r \<le> rend r"

text \<open>Canonical lists of ranges: well-formed, ascending, and with a gap between neighbours.\<close>

definition canonicalRanges :: "StatusCodeRange list \<Rightarrow> bool" where
  "canonicalRanges rs \<longleftrightarrow>
     list_all wellformedRange rs \<and> sorted_wrt (\<lambda>a b. rend a + 1 < rstart b) rs"

section \<open>Tokens\<close>

lemma parseToken_wellformed: "parseToken t = Some r \<Longrightarrow> wellformedRange r"
  by (auto simp: parseToken_def Let_def wellformedRange_def split: if_splits list.splits)

lemma isNumber_nat_str [simp]: "isNumber (nat_str n)"
  by (auto simp: isNumber_def list_all_iff nat_str_digits)

lemma dash_nat_str [simp]: "CHR ''-'' \<notin> set (nat_str n)"
  using nat_str_digits not_digits(1) by blast

lemma solid_dash: "solid CHR ''-''"
  by (simp add: solid_def js_ws_def)

lemma rangeToken_chars: "c \<in> set (rangeToken r) \<Longrightarrow> is_digit c \<or> c = CHR ''-''"
  by (auto simp: rangeToken_def nat_str_digits split: if_splits)

lemma rangeToken_solid: "c \<in> set (rangeToken r) \<Longrightarrow> solid c"
  using rangeToken_chars is_digit_solid solid_dash by blast

lemma rangeToken_nonempty [simp]: "rangeToken r \<noteq> []"
  by (simp add: rangeToken_def)

lemma rangeToken_no_comma: "CHR '','' \<notin> set (rangeToken r)" "CHR 0xEF \<notin> set (rangeToken r)"
  using rangeToken_chars not_digits by force+

lemma rangeToken_ends [simp]: "solid (hd (rangeToken r))" "solid (last (rangeToken r))"
  using rangeToken_solid rangeToken_nonempty hd_in_set last_in_set by blast+

lemma trim_rangeToken [simp]: "js_trim (rangeToken r) = rangeToken r"
  by (rule js_trim_solid) simp

lemma strip_rangeToken [simp]: "strip_ws (rangeToken r) = rangeToken r"
  by (rule strip_ws_solid) (simp add: rangeToken_solid)

lemma parseToken_rangeToken:
  assumes "wellformedRange r"
  shows "parseToken (rangeToken r) = Some r"
proof (cases "rstart r = rend r")
  case True
  then have "rangeToken r = nat_str (rstart r)" by (simp add: rangeToken_def)
  with assms True show ?thesis
    using trim_rangeToken [of r] strip_rangeToken [of r]
    by (simp add: parseToken_def wellformedRange_def Let_def)
next
  case False
  then have t: "rangeToken r = nat_str (rstart r) @ CHR ''-'' # nat_str (rend r)"
    by (simp add: rangeToken_def)
  have "split_on CHR ''-'' (rangeToken r) = [nat_str (rstart r), nat_str (rend r)]"
    by (simp add: t split_on_append split_on_none)
  with assms show ?thesis
    by (simp add: parseToken_def wellformedRange_def Let_def t [symmetric]) (simp add: t)
qed

section \<open>Merging\<close>

lemma rangeCompare_eq:
  "rangeCompare = (\<lambda>a b. cmp_or (by_key rstart a b) (by_key rend a b))"
  by (rule ext)+ (auto simp: rangeCompare_def cmp_or_def by_key_def)

interpretation rc: signed_comparator rangeCompare
  unfolding rangeCompare_eq
  by (rule signed_comparator_or [OF signed_comparator_by_key signed_comparator_by_key])

lemma rangeCompare_start: "rangeCompare a b \<le> 0 \<Longrightarrow> rstart a \<le> rstart b"
  by (auto simp: rangeCompare_def split: if_splits)

text \<open>What one step of the reduction keeps: the list so far is canonical, and no later range
  starts before its last one.\<close>

lemma mergeStep_canonical:
  assumes "canonicalRanges ms" and "wellformedRange r" and "ms \<noteq> [] \<longrightarrow> rstart (last ms) \<le> rstart r"
  shows "canonicalRanges (mergeStep ms r)"
    and "rstart (last (mergeStep ms r)) \<le> rstart r"
    and "covers (mergeStep ms r) code \<longleftrightarrow> covers ms code \<or> inRange r code"
proof -
  show "canonicalRanges (mergeStep ms r)"
  proof (cases ms rule: rev_cases)
    case (snoc xs l)
    with assms show ?thesis
      by (fastforce simp: canonicalRanges_def mergeStep_def sorted_wrt_append wellformedRange_def max_def)
  qed (use assms in \<open>simp add: canonicalRanges_def mergeStep_def\<close>)
  show "rstart (last (mergeStep ms r)) \<le> rstart r"
    using assms(3) by (auto simp: mergeStep_def)
  show "covers (mergeStep ms r) code \<longleftrightarrow> covers ms code \<or> inRange r code"
  proof (cases ms rule: rev_cases)
    case (snoc xs l)
    with assms show ?thesis
      by (auto simp: covers_def inRange_def mergeStep_def canonicalRanges_def wellformedRange_def)
  qed (simp add: covers_def mergeStep_def)
qed

lemma foldl_mergeStep:
  assumes "canonicalRanges ms" and "list_all wellformedRange rs"
    and "sorted_wrt (\<lambda>a b. rstart a \<le> rstart b) rs"
    and "\<forall>r \<in> set rs. ms \<noteq> [] \<longrightarrow> rstart (last ms) \<le> rstart r"
  shows "canonicalRanges (foldl mergeStep ms rs) \<and>
    (covers (foldl mergeStep ms rs) code \<longleftrightarrow> covers ms code \<or> covers rs code)"
  using assms
proof (induction rs arbitrary: ms)
  case Nil
  then show ?case by (simp add: covers_def)
next
  case (Cons r rs)
  note step = mergeStep_canonical [of ms r]
  have "canonicalRanges (foldl mergeStep (mergeStep ms r) rs) \<and>
    (covers (foldl mergeStep (mergeStep ms r) rs) code \<longleftrightarrow> covers (mergeStep ms r) code \<or> covers rs code)"
    using Cons.prems step(1,2) by (intro Cons.IH) (auto intro: order_trans)
  with Cons.prems step(3) show ?case by (auto simp: covers_def)
qed

lemma mergeRanges_correct:
  assumes "list_all wellformedRange rs"
  shows "canonicalRanges (mergeRanges rs)" and "covers (mergeRanges rs) code \<longleftrightarrow> covers rs code"
proof -
  have "sorted_wrt (\<lambda>a b. rstart a \<le> rstart b) (js_sort rangeCompare rs)"
    using rc.sorted_js_sort by (rule sorted_wrt_mono_rel [rotated]) (simp add: rangeCompare_start)
  then have *: "canonicalRanges (foldl mergeStep [] (js_sort rangeCompare rs)) \<and>
      (covers (foldl mergeStep [] (js_sort rangeCompare rs)) code \<longleftrightarrow> covers [] code \<or> covers (js_sort rangeCompare rs) code)"
    using assms by (intro foldl_mergeStep) (auto simp: list_all_iff canonicalRanges_def)
  then show "canonicalRanges (mergeRanges rs)"
    by (simp add: mergeRanges_def canonicalRanges_def)
  from * show "covers (mergeRanges rs) code \<longleftrightarrow> covers rs code"
    by (simp add: mergeRanges_def covers_def)
qed

lemma foldl_mergeStep_canonical: "canonicalRanges (ms @ rs) \<Longrightarrow> foldl mergeStep ms rs = ms @ rs"
proof (induction rs arbitrary: ms)
  case (Cons r rs)
  then have "mergeStep ms r = ms @ [r]"
    by (cases ms rule: rev_cases) (auto simp: mergeStep_def canonicalRanges_def sorted_wrt_append)
  with Cons show ?case by simp
qed simp

lemma canonical_sorted:
  assumes "canonicalRanges rs"
  shows "sorted_wrt (\<lambda>a b. rangeCompare a b \<le> 0) rs"
proof -
  from assms have s: "sorted_wrt (\<lambda>a b. rend a + 1 < rstart b) rs" and w: "\<forall>r \<in> set rs. rstart r \<le> rend r"
    by (auto simp: canonicalRanges_def list_all_iff wellformedRange_def)
  show ?thesis
    by (rule sorted_wrt_mono_rel [OF _ s]) (use w in \<open>force simp: rangeCompare_def\<close>)
qed

lemma mergeRanges_canonical: "canonicalRanges rs \<Longrightarrow> mergeRanges rs = rs"
  by (simp add: mergeRanges_def rc.js_sort_sorted canonical_sorted foldl_mergeStep_canonical)

section \<open>The parser\<close>

lemma map_filter_parse_wellformed: "list_all wellformedRange (List.map_filter parseToken ss)"
  by (auto simp: list_all_iff List.map_filter_def parseToken_wellformed)

lemma psr_ok_ranges:
  assumes "psr_ok (parseHttpStatusCodeRules input)"
  shows "psr_ranges (parseHttpStatusCodeRules input) =
      mergeRanges (List.map_filter parseToken (ruleSegments (js_trim (case input of None \<Rightarrow> [] | Some s \<Rightarrow> s))))"
proof (cases "js_trim (case input of None \<Rightarrow> [] | Some s \<Rightarrow> s) = []")
  case True
  have "replace_all fullwidth_comma '','' [] = []" by (simp add: replace_all.simps)
  with True show ?thesis
    by (simp add: parseHttpStatusCodeRules_def ruleSegments_def mergeRanges_def List.map_filter_def)
qed (use assms in \<open>auto simp: parseHttpStatusCodeRules_def Let_def split: if_splits\<close>)

lemma psr_shape:
  assumes "psr_ok (parseHttpStatusCodeRules input)"
  defines "p \<equiv> parseHttpStatusCodeRules input"
  shows "psr_tokens p = map rangeToken (psr_ranges p)"
    and "psr_normalized p = join_with '','' (psr_tokens p)"
    and "psr_invalidTokens p = []"
  using assms by (auto simp: parseHttpStatusCodeRules_def Let_def split: if_splits)

lemma ruleSegments_tokens:
  "ruleSegments (join_with '','' (map rangeToken rs)) = map rangeToken rs"
proof (cases "rs = []")
  case True
  then show ?thesis by (simp add: ruleSegments_def replace_all.simps)
next
  case False
  have "CHR 0xEF \<notin> set (join_with '','' (map rangeToken rs))"
    using set_join_with [of "'',''" "map rangeToken rs"] rangeToken_no_comma(2) by auto
  then have "replace_all fullwidth_comma '','' (join_with '','' (map rangeToken rs)) =
      join_with '','' (map rangeToken rs)"
    by (intro replace_all_none) (simp_all add: fullwidth_comma_def)
  moreover have "split_on CHR '','' (join_with '','' (map rangeToken rs)) = map rangeToken rs"
    using False rangeToken_no_comma(1) by (intro split_on_join) auto
  ultimately show ?thesis
    by (simp add: ruleSegments_def comp_def filter_id_conv)
qed

lemma trim_tokens: "js_trim (join_with '','' (map rangeToken rs)) = join_with '','' (map rangeToken rs)"
  by (rule js_trim_solid)
    (cases "rs = []"; simp add: hd_join_with last_join_with hd_map last_map)

lemma parse_canonical:
  assumes "canonicalRanges rs"
  shows "parseHttpStatusCodeRules (Some (join_with '','' (map rangeToken rs))) =
    \<lparr>psr_ok = True, psr_ranges = rs, psr_tokens = map rangeToken rs,
     psr_normalized = join_with '','' (map rangeToken rs), psr_invalidTokens = []\<rparr>"
proof (cases "rs = []")
  case True
  then show ?thesis by (simp add: parseHttpStatusCodeRules_def)
next
  case False
  from assms have w: "\<forall>r \<in> set rs. parseToken (rangeToken r) = Some r"
    by (auto simp: canonicalRanges_def list_all_iff parseToken_rangeToken)
  then have "List.map_filter parseToken (map rangeToken rs) = rs"
    by (induction rs) (auto simp: List.map_filter_def)
  moreover from w have "filter (\<lambda>s. parseToken s = None) (map rangeToken rs) = []"
    by (auto simp: filter_empty_conv)
  moreover have "join_with '','' (map rangeToken rs) \<noteq> []"
    using False by (subst join_with_eq_Nil) auto
  ultimately show ?thesis
    using mergeRanges_canonical [OF assms]
    by (simp add: parseHttpStatusCodeRules_def trim_tokens ruleSegments_tokens Let_def)
qed

section \<open>Properties\<close>

text \<open>
  C4.  When the rules are accepted, the resulting ranges are canonical (inside 100 to 599,
  ascending, with a gap between neighbours), and a code is covered exactly when one of the
  segments the administrator typed covers it: merging neither adds nor loses a status code.
\<close>

theorem status_rules_sound:
  assumes "psr_ok (parseHttpStatusCodeRules (Some s))"
  shows "canonicalRanges (psr_ranges (parseHttpStatusCodeRules (Some s))) \<and>
    (\<forall>code. covers (psr_ranges (parseHttpStatusCodeRules (Some s))) code \<longleftrightarrow>
       (\<exists>seg \<in> set (ruleSegments (js_trim s)). \<exists>r. parseToken seg = Some r \<and> inRange r code))"
proof -
  let ?rs = "List.map_filter parseToken (ruleSegments (js_trim s))"
  have r: "psr_ranges (parseHttpStatusCodeRules (Some s)) = mergeRanges ?rs"
    using psr_ok_ranges [OF assms] by simp
  have "covers ?rs code \<longleftrightarrow> (\<exists>seg \<in> set (ruleSegments (js_trim s)). \<exists>r. parseToken seg = Some r \<and> inRange r code)"
    for code by (force simp: covers_def List.map_filter_def)
  then show ?thesis
    using mergeRanges_correct [OF map_filter_parse_wellformed] by (simp add: r)
qed

theorem status_rules_sound_witness:
  "psr_ok (parseHttpStatusCodeRules (Some ''500-503, 429,502-599'')) \<and>
   canonicalRanges (psr_ranges (parseHttpStatusCodeRules (Some ''500-503, 429,502-599'')))"
proof -
  have h: "psr_ok (parseHttpStatusCodeRules (Some ''500-503, 429,502-599''))"
    by code_simp
  show ?thesis using h status_rules_sound [OF h] by blast
qed

text \<open>
  C11.  Normalising is idempotent: parsing the normalised text of accepted rules accepts it and
  gives back the same ranges, tokens and text.
\<close>

theorem status_rules_roundtrip:
  assumes "psr_ok (parseHttpStatusCodeRules input)"
  shows "parseHttpStatusCodeRules (Some (psr_normalized (parseHttpStatusCodeRules input))) =
    parseHttpStatusCodeRules input"
proof -
  let ?p = "parseHttpStatusCodeRules input"
  have "canonicalRanges (psr_ranges ?p)"
    using mergeRanges_correct(1) [OF map_filter_parse_wellformed] psr_ok_ranges [OF assms] by simp
  from parse_canonical [OF this] show ?thesis
    using psr_shape [OF assms] assms
    by (intro ParsedHttpStatusCodeRules.equality) simp_all
qed

theorem status_rules_roundtrip_witness:
  "psr_ok (parseHttpStatusCodeRules (Some ''503,500-502'')) \<and>
   parseHttpStatusCodeRules (Some (psr_normalized (parseHttpStatusCodeRules (Some ''503,500-502'')))) =
     parseHttpStatusCodeRules (Some ''503,500-502'')"
proof -
  have h: "psr_ok (parseHttpStatusCodeRules (Some ''503,500-502''))"
    by code_simp
  show ?thesis using h status_rules_roundtrip [OF h] by blast
qed


text \<open>
  A token with more than one dash is accepted and its third piece is ignored, however it
  reads: \<open>400-404-junk\<close> is the range 400 to 404.
\<close>

theorem status_token_extra_piece:
  assumes "wellformedRange r" and "rstart r \<noteq> rend r" and "\<forall>c \<in> set junk. solid c"
  shows "parseToken (rangeToken r @ ''-'' @ junk) = Some r"
proof -
  let ?t = "nat_str (rstart r) @ CHR ''-'' # nat_str (rend r) @ CHR ''-'' # junk"
  have t: "rangeToken r @ ''-'' @ junk = ?t"
    using assms(2) by (simp add: rangeToken_def)
  have solid: "\<forall>c \<in> set ?t. solid c"
    using assms(3) by (auto simp: solid_dash dest!: nat_str_digits is_digit_solid)
  then have "js_trim ?t = ?t"
    by (intro js_trim_solid disjI2 conjI) (metis hd_in_set last_in_set append_is_Nil_conv list.distinct(1))+
  moreover from solid have "strip_ws ?t = ?t"
    by (rule strip_ws_solid)
  moreover have "split_on CHR ''-'' ?t = nat_str (rstart r) # nat_str (rend r) # split_on CHR ''-'' junk"
    by (simp add: split_on_append)
  ultimately show ?thesis
    using assms(1) unfolding t by (simp add: parseToken_def Let_def wellformedRange_def)
qed

theorem status_token_extra_piece_witness:
  "parseToken ''400-404-junk'' = Some \<lparr>rstart = 400, rend = 404\<rparr>"
proof -
  let ?r = "\<lparr>rstart = 400, rend = 404\<rparr> :: StatusCodeRange"
  have w: "wellformedRange ?r" by (simp add: wellformedRange_def isValidCode_def)
  have n: "rstart ?r \<noteq> rend ?r" by simp
  have j: "\<forall>c \<in> set ''junk''. solid c" by (simp add: solid_def js_ws_def)
  have "rangeToken ?r @ ''-'' @ ''junk'' = ''400-404-junk''" by code_simp
  then show ?thesis using status_token_extra_piece [OF w n j] by simp
qed

end
