(* ===== verification/Js_Collections.thy ===== *)
theory Js_Collections
  imports Js_Prelude
begin

text \<open>
  \<open>Map\<close> and \<open>Set\<close> of JavaScript, which iterate in insertion order: a map is the list of its
  entries, a set the list of its members, both without repetition.  The locale \<open>ordered_map\<close>
  is the interface the components use: what \<open>get\<close> returns after \<open>set\<close>, which keys there are
  and in which order.  Its lemma on folds is the shape of every aggregation loop of the sources:
  read the entry of a key, update it or create it, store it back.
\<close>

type_synonym ('k, 'v) omap = "('k \<times> 'v) list"

definition om_get :: "('k, 'v) omap \<Rightarrow> 'k \<Rightarrow> 'v option" where
  "om_get m k = map_of m k"

fun om_set :: "'k \<Rightarrow> 'v \<Rightarrow> ('k, 'v) omap \<Rightarrow> ('k, 'v) omap" where
  "om_set k v [] = [(k, v)]"
| "om_set k v ((k', v') # m) = (if k' = k then (k, v) # m else (k', v') # om_set k v m)"

definition om_delete :: "'k \<Rightarrow> ('k, 'v) omap \<Rightarrow> ('k, 'v) omap" where
  "om_delete k m = filter (\<lambda>(k', _). k' \<noteq> k) m"

definition om_keys :: "('k, 'v) omap \<Rightarrow> 'k list" where
  "om_keys m = map fst m"

definition om_values :: "('k, 'v) omap \<Rightarrow> 'v list" where
  "om_values m = map snd m"

definition os_add :: "'a list \<Rightarrow> 'a \<Rightarrow> 'a list" where
  "os_add xs x = (if x \<in> set xs then xs else xs @ [x])"

text \<open>\<open>new Set(xs)\<close>, spread back to an array: the first occurrences.\<close>

definition os_of :: "'a list \<Rightarrow> 'a list" where
  "os_of xs = foldl os_add [] xs"

section \<open>Sets\<close>

lemma set_os_add [simp]: "set (os_add xs x) = insert x (set xs)"
  by (auto simp: os_add_def)

lemma distinct_os_add [simp]: "distinct xs \<Longrightarrow> distinct (os_add xs x)"
  by (auto simp: os_add_def)

lemma set_foldl_os_add [simp]: "set (foldl os_add ys xs) = set ys \<union> set xs"
  by (induction xs arbitrary: ys) auto

lemma distinct_foldl_os_add: "distinct ys \<Longrightarrow> distinct (foldl os_add ys xs)"
  by (induction xs arbitrary: ys) auto

lemma set_os_of [simp]: "set (os_of xs) = set xs"
  by (simp add: os_of_def)

lemma distinct_os_of [simp]: "distinct (os_of xs)"
  by (simp add: os_of_def distinct_foldl_os_add)

lemma foldl_os_add_distinct:
  "distinct xs \<Longrightarrow> set xs \<inter> set ys = {} \<Longrightarrow> foldl os_add ys xs = ys @ xs"
  by (induction xs arbitrary: ys) (auto simp: os_add_def)

lemma os_of_distinct [simp]: "distinct xs \<Longrightarrow> os_of xs = xs"
  by (simp add: os_of_def foldl_os_add_distinct)

lemma os_of_Nil [simp]: "os_of [] = []"
  by (simp add: os_of_def)

lemma os_of_eq_Nil [simp]: "os_of xs = [] \<longleftrightarrow> xs = []"
  by (metis set_empty2 set_os_of)

lemma os_of_snoc: "os_of (xs @ [x]) = os_add (os_of xs) x"
  by (simp add: os_of_def)

section \<open>The interface of an ordered map\<close>

lemma sum_groups:
  fixes c :: "'d \<Rightarrow> 'n::comm_monoid_add"
  assumes "distinct ks"
  shows "(\<Sum>k\<leftarrow>ks. (\<Sum>(_, d)\<leftarrow>filter (\<lambda>(k', _). k' = k) xs. c d)) =
    (\<Sum>(k, d)\<leftarrow>filter (\<lambda>(k, _). k \<in> set ks) xs. c d)"
proof (induction xs)
  case (Cons x xs)
  obtain k d where x: "x = (k, d)" by (cases x)
  have "(\<Sum>k'\<leftarrow>ks. (if k = k' then c d else 0) + g k') = (if k \<in> set ks then c d else 0) + (\<Sum>k'\<leftarrow>ks. g k')"
    for g :: "_ \<Rightarrow> 'n"
    using assms by (induction ks) (auto simp: ac_simps)
  moreover have "(\<Sum>(_, d)\<leftarrow>filter (\<lambda>(k'', _). k'' = k') (x # xs). c d) =
      (if k = k' then c d else 0) + (\<Sum>(_, d)\<leftarrow>filter (\<lambda>(k'', _). k'' = k') xs. c d)" for k'
    by (simp add: x)
  ultimately show ?case
    using Cons by (simp only:) (simp add: x)
qed simp

locale ordered_map =
  fixes empty :: 'm
    and get :: "'m \<Rightarrow> 'k \<Rightarrow> 'v option"
    and put :: "'k \<Rightarrow> 'v \<Rightarrow> 'm \<Rightarrow> 'm"
    and keys :: "'m \<Rightarrow> 'k list"
  assumes get_empty: "get empty k = None"
    and get_put: "get (put k v m) k' = (if k' = k then Some v else get m k')"
    and keys_empty: "keys empty = []"
    and keys_put: "keys (put k v m) = os_add (keys m) k"
    and keys_get: "k \<in> set (keys m) \<longleftrightarrow> get m k \<noteq> None"
begin

text \<open>One pass of an aggregation loop over the pairs of a key and a contribution.\<close>

lemma keys_fold:
  "keys (fold (\<lambda>(k, d) m. put k (f k d (get m k)) m) xs m) = foldl os_add (keys m) (map fst xs)"
  by (induction xs arbitrary: m) (auto simp: keys_put)

lemma get_fold:
  "get (fold (\<lambda>(k, d) m. put k (f k d (get m k)) m) xs m) k =
   fold (\<lambda>(_, d) acc. Some (f k d acc)) (filter (\<lambda>(k', _). k' = k) xs) (get m k)"
  by (induction xs arbitrary: m) (auto simp: get_put)

lemma keys_fold_empty:
  "keys (fold (\<lambda>(k, d) m. put k (f k d (get m k)) m) xs empty) = os_of (map fst xs)"
  by (simp add: keys_fold keys_empty os_of_def)

lemma distinct_keys_fold: "distinct (keys (fold (\<lambda>(k, d) m. put k (f k d (get m k)) m) xs empty))"
  by (simp add: keys_fold_empty)

text \<open>The measure of an entry is the sum of the contributions to its key, when an update adds
  the contribution and a new entry starts with it.\<close>

lemma fold_measure:
  fixes w :: "'v \<Rightarrow> 'n::comm_monoid_add"
  assumes "\<And>k d. w (f k d None) = c d" and "\<And>k d v. w (f k d (Some v)) = w v + c d"
  shows "(case fold (\<lambda>(_, d) acc. Some (f k d acc)) xs acc of None \<Rightarrow> 0 | Some v \<Rightarrow> w v) =
    (case acc of None \<Rightarrow> 0 | Some v \<Rightarrow> w v) + sum_list (map (\<lambda>(_, d). c d) xs)"
proof (induction xs arbitrary: acc)
  case (Cons x xs)
  show ?case
    by (cases x; cases acc) (auto simp: Cons assms add.assoc)
qed simp

lemma get_fold_measure:
  fixes w :: "'v \<Rightarrow> 'n::comm_monoid_add"
  assumes "\<And>k d. w (f k d None) = c d" and "\<And>k d v. w (f k d (Some v)) = w v + c d"
    and "get (fold (\<lambda>(k, d) m. put k (f k d (get m k)) m) xs empty) k = Some v"
  shows "w v = sum_list (map (\<lambda>(_, d). c d) (filter (\<lambda>(k', _). k' = k) xs))"
  using fold_measure [where f = f and c = c and w = w and k = k and acc = None
      and xs = "filter (\<lambda>(k', _). k' = k) xs", OF assms(1,2)] assms(3)
  by (simp add: get_fold get_empty)

text \<open>A property that every new entry has and every update keeps holds of all entries.\<close>

lemma fold_invariant_step:
  assumes "\<And>d. (k, d) \<in> set xs \<Longrightarrow> P (f k d None)"
    and "\<And>d v. (k, d) \<in> set xs \<Longrightarrow> P v \<Longrightarrow> P (f k d (Some v))"
    and "\<And>v. acc = Some v \<Longrightarrow> P v"
    and "fold (\<lambda>(_, d) acc. Some (f k d acc)) (filter (\<lambda>(k', _). k' = k) xs) acc = Some v"
  shows "P v"
  using assms
proof (induction xs arbitrary: acc)
  case (Cons x xs)
  obtain k' d where x: "x = (k', d)" by (cases x)
  show ?case
  proof (cases "k' = k")
    case True
    show ?thesis
    proof (rule Cons.IH)
      show "fold (\<lambda>(_, d) acc. Some (f k d acc)) (filter (\<lambda>(k', _). k' = k) xs) (Some (f k d acc)) = Some v"
        using Cons.prems(4) x True by simp
      show "P u" if "Some (f k d acc) = Some u" for u
        using that Cons.prems(1,2) [of d] Cons.prems(3) x True by (cases acc) auto
    qed (use Cons.prems(1,2) in auto)
  next
    case False
    show ?thesis
      by (rule Cons.IH [of acc]) (use Cons.prems False x in auto)
  qed
qed simp

lemma get_fold_invariant:
  assumes "\<And>d. (k, d) \<in> set xs \<Longrightarrow> P (f k d None)"
    and "\<And>d v. (k, d) \<in> set xs \<Longrightarrow> P v \<Longrightarrow> P (f k d (Some v))"
    and "get (fold (\<lambda>(k, d) m. put k (f k d (get m k)) m) xs empty) k = Some v"
  shows "P v"
  using assms(3) fold_invariant_step [where P = P and acc = None and f = f and k = k and v = v
      and xs = xs] assms(1,2)
  by (simp add: get_fold get_empty)

text \<open>Over a set of keys the measures of the entries add up to the contributions to those keys.\<close>

lemma sum_fold:
  fixes w :: "'v \<Rightarrow> 'n::comm_monoid_add"
  assumes "\<And>k d. w (f k d None) = c d" and "\<And>k d v. w (f k d (Some v)) = w v + c d"
    and M_def: "M = fold (\<lambda>(k, d) m. put k (f k d (get m k)) m) xs empty"
  shows "(\<Sum>k\<leftarrow>filter Q (keys M). w (the (get M k))) = (\<Sum>(k, d)\<leftarrow>filter (\<lambda>(k, _). Q k) xs. c d)"
proof -
  have "w (the (get M k)) = (\<Sum>(_, d)\<leftarrow>filter (\<lambda>(k', _). k' = k) xs. c d)" if "k \<in> set (keys M)" for k
  proof -
    from that obtain v where v: "get M k = Some v" using keys_get by auto
    from get_fold_measure [OF assms(1,2), where xs = xs and k = k and v = v] v show ?thesis
      by (simp add: M_def)
  qed
  then have "(\<Sum>k\<leftarrow>filter Q (keys M). w (the (get M k))) =
      (\<Sum>k\<leftarrow>filter Q (keys M). (\<Sum>(_, d)\<leftarrow>filter (\<lambda>(k', _). k' = k) xs. c d))"
    by (intro arg_cong [where f = sum_list] map_cong) auto
  also have "\<dots> = (\<Sum>(k, d)\<leftarrow>filter (\<lambda>(k, _). k \<in> set (filter Q (keys M))) xs. c d)"
    by (rule sum_groups) (simp add: M_def keys_fold_empty)
  also have "filter (\<lambda>(k, _). k \<in> set (filter Q (keys M))) xs = filter (\<lambda>(k, _). Q k) xs"
    by (rule filter_cong) (auto simp: M_def keys_fold_empty intro: rev_image_eqI)
  finally show ?thesis .
qed

end

section \<open>The list of entries keeps the interface\<close>

lemma om_get_set: "om_get (om_set k v m) k' = (if k' = k then Some v else om_get m k')"
  by (induction k v m rule: om_set.induct) (auto simp: om_get_def)

lemma om_keys_set: "om_keys (om_set k v m) = os_add (om_keys m) k"
  by (induction k v m rule: om_set.induct) (auto simp: om_keys_def os_add_def)

interpretation om: ordered_map "[]" om_get om_set om_keys
proof (unfold_locales, goal_cases)
  case (5 k m)
  show ?case by (simp add: om_keys_def om_get_def map_of_eq_None_iff)
qed (simp_all add: om_get_set om_keys_set, simp_all add: om_get_def om_keys_def)

lemma om_get_iff: "distinct (om_keys m) \<Longrightarrow> om_get m k = Some v \<longleftrightarrow> (k, v) \<in> set m"
  by (simp add: om_get_def om_keys_def)

lemma distinct_om_set: "distinct (om_keys m) \<Longrightarrow> distinct (om_keys (om_set k v m))"
  by (simp add: om_keys_set)

text \<open>The sum over the entries of an aggregation.\<close>

lemma om_sum_entries:
  "distinct (om_keys m) \<Longrightarrow>
   (\<Sum>(k, v)\<leftarrow>filter (\<lambda>(k, _). Q k) m. w v) = (\<Sum>k\<leftarrow>filter Q (om_keys m). w (the (om_get m k)))"
proof (induction m)
  case (Cons e m)
  obtain k v where e: "e = (k, v)" by (cases e)
  have "w (the (om_get (e # m) k')) = w (the (om_get m k'))" if "k' \<in> set (om_keys m)" for k'
    using that Cons.prems by (auto simp: e om_get_def om_keys_def)
  then have "(\<Sum>k\<leftarrow>filter Q (om_keys m). w (the (om_get (e # m) k))) = (\<Sum>k\<leftarrow>filter Q (om_keys m). w (the (om_get m k)))"
    by (intro arg_cong [where f = sum_list] map_cong) auto
  with Cons show ?case
    by (auto simp: e om_keys_def om_get_def)
qed (simp add: om_keys_def)

lemma om_sum_fold:
  fixes w :: "'v \<Rightarrow> 'n::comm_monoid_add"
  assumes "\<And>k d. w (f k d None) = c d" and "\<And>k d v. w (f k d (Some v)) = w v + c d"
  shows "(\<Sum>(k, v)\<leftarrow>filter (\<lambda>(k, _). Q k) (fold (\<lambda>(k, d) m. om_set k (f k d (om_get m k)) m) xs []). w v) =
    (\<Sum>(k, d)\<leftarrow>filter (\<lambda>(k, _). Q k) xs. c d)"
  using om.sum_fold [OF assms refl] by (simp add: om_sum_entries [OF om.distinct_keys_fold])

lemma om_set_invariant:
  "(\<forall>(k, v) \<in> set m. P k v) \<Longrightarrow> P k v \<Longrightarrow> \<forall>(k, v) \<in> set (om_set k v m). P k v"
  by (induction k v m rule: om_set.induct) auto

end
