(* ===== verification/Auth_Store.thy ===== *)
theory Auth_Store
  imports Js_Collections
begin

text \<open>
  The state of the signed-in user: \<open>web/src/stores/auth-store.ts\<close> (the zustand store and its
  setters), the type guards of \<open>web/src/lib/auth-session.ts\<close> that decide whether a server answer
  is a session, and the administrator permissions of \<open>web/src/lib/admin-permissions.ts\<close>.

  A user object keeps all its properties in \<open>user_value\<close>; the fields that the code reads are
  copied out by the cast that follows a successful guard.
\<close>

section \<open>Data\<close>

record LoginSession =
  sid :: string
  current :: bool
  login_method :: string
  ip :: string
  user_agent :: string
  created_at :: jsnum
  last_active_at :: jsnum
  expires_at :: jsnum

record AuthUser =
  uid :: rat
  username :: string
  role :: jsnum
  user_value :: jsval

record AuthBundle =
  access_token :: string
  token_type :: string
  access_expires_at :: rat
  bundle_user :: AuthUser
  bundle_session :: LoginSession

record AuthTokenRotation =
  rot_access_token :: string
  rot_token_type :: string
  rot_access_expires_at :: rat
  rot_session :: LoginSession

datatype AuthBootstrapState = Idle | Checking | Complete

record auth =
  auth_user :: "AuthUser option"
  accessToken :: "string option"
  accessExpiresAt :: "rat option"
  auth_session :: "LoginSession option"
  pending2FAFlowToken :: "string option"
  bootstrapState :: AuthBootstrapState

section \<open>Type guards\<close>

definition isRecord :: "jsval \<Rightarrow> bool" where
  "isRecord v \<longleftrightarrow> truthy v \<and> is_object v"

fun is_nonempty_string :: "jsval \<Rightarrow> bool" where
  "is_nonempty_string (JStr s) = (s \<noteq> [])"
| "is_nonempty_string _ = False"

definition isAuthUser :: "jsval \<Rightarrow> bool" where
  "isAuthUser v \<longleftrightarrow>
     isRecord v \<and>
     (case jprop v ''id'' of JNum n \<Rightarrow> num_is_integer n \<and> num_positive n | _ \<Rightarrow> False) \<and>
     is_string (jprop v ''username'') \<and>
     is_number (jprop v ''role'')"

definition isLoginSession :: "jsval \<Rightarrow> bool" where
  "isLoginSession v \<longleftrightarrow>
     isRecord v \<and>
     is_nonempty_string (jprop v ''sid'') \<and>
     is_boolean (jprop v ''current'') \<and>
     is_string (jprop v ''login_method'') \<and>
     is_string (jprop v ''ip'') \<and>
     is_string (jprop v ''user_agent'') \<and>
     is_number (jprop v ''created_at'') \<and>
     is_number (jprop v ''last_active_at'') \<and>
     is_number (jprop v ''expires_at'')"

definition hasValidTokenFields :: "jsval \<Rightarrow> bool" where
  "hasValidTokenFields v \<longleftrightarrow>
     is_nonempty_string (jprop v ''access_token'') \<and>
     is_nonempty_string (jprop v ''token_type'') \<and>
     (case jprop v ''access_expires_at'' of
        JNum n \<Rightarrow> num_is_finite n \<and> num_positive n
      | _ \<Rightarrow> False)"

definition isAuthBundle :: "jsval \<Rightarrow> bool" where
  "isAuthBundle v \<longleftrightarrow>
     isRecord v \<and> hasValidTokenFields v \<and> isAuthUser (jprop v ''user'') \<and>
     isLoginSession (jprop v ''session'')"

definition isAuthTokenRotation :: "jsval \<Rightarrow> bool" where
  "isAuthTokenRotation v \<longleftrightarrow>
     isRecord v \<and> hasValidTokenFields v \<and> jprop v ''token_type'' = JStr ''Bearer'' \<and>
     isLoginSession (jprop v ''session'') \<and>
     jprop (jprop v ''session'') ''current'' = JBool True"

text \<open>The casts that the guards justify.\<close>

fun as_str :: "jsval \<Rightarrow> string" where
  "as_str (JStr s) = s"
| "as_str _ = []"

fun as_num :: "jsval \<Rightarrow> jsnum" where
  "as_num (JNum n) = n"
| "as_num _ = NaN"

fun as_rat :: "jsval \<Rightarrow> rat" where
  "as_rat (JNum (Fin r)) = r"
| "as_rat _ = 0"

definition toLoginSession :: "jsval \<Rightarrow> LoginSession" where
  "toLoginSession v =
     \<lparr>sid = as_str (jprop v ''sid''), current = (jprop v ''current'' = JBool True),
      login_method = as_str (jprop v ''login_method''), ip = as_str (jprop v ''ip''),
      user_agent = as_str (jprop v ''user_agent''), created_at = as_num (jprop v ''created_at''),
      last_active_at = as_num (jprop v ''last_active_at''), expires_at = as_num (jprop v ''expires_at'')\<rparr>"

definition toAuthUser :: "jsval \<Rightarrow> AuthUser" where
  "toAuthUser v =
     \<lparr>uid = as_rat (jprop v ''id''), username = as_str (jprop v ''username''),
      role = as_num (jprop v ''role''), user_value = v\<rparr>"

definition toAuthBundle :: "jsval \<Rightarrow> AuthBundle" where
  "toAuthBundle v =
     \<lparr>access_token = as_str (jprop v ''access_token''), token_type = as_str (jprop v ''token_type''),
      access_expires_at = as_rat (jprop v ''access_expires_at''),
      bundle_user = toAuthUser (jprop v ''user''), bundle_session = toLoginSession (jprop v ''session'')\<rparr>"

definition toAuthTokenRotation :: "jsval \<Rightarrow> AuthTokenRotation" where
  "toAuthTokenRotation v =
     \<lparr>rot_access_token = as_str (jprop v ''access_token''),
      rot_token_type = as_str (jprop v ''token_type''),
      rot_access_expires_at = as_rat (jprop v ''access_expires_at''),
      rot_session = toLoginSession (jprop v ''session'')\<rparr>"

text \<open>\<open>parseBundle: (value) => (isAuthBundle(value) ? value : null)\<close>.\<close>

definition parseBundle :: "jsval \<Rightarrow> AuthBundle option" where
  "parseBundle v = (if isAuthBundle v then Some (toAuthBundle v) else None)"

section \<open>The store\<close>

definition initialAuth :: auth where
  "initialAuth =
     \<lparr>auth_user = None, accessToken = None, accessExpiresAt = None, auth_session = None,
      pending2FAFlowToken = None, bootstrapState = Idle\<rparr>"

definition setBundle :: "AuthBundle \<Rightarrow> auth \<Rightarrow> auth" where
  "setBundle bundle a =
     a\<lparr>auth_user := Some (bundle_user bundle), accessToken := Some (access_token bundle),
       accessExpiresAt := Some (access_expires_at bundle), auth_session := Some (bundle_session bundle),
       pending2FAFlowToken := None, bootstrapState := Complete\<rparr>"

definition setUser :: "AuthUser option \<Rightarrow> auth \<Rightarrow> auth" where
  "setUser u a = a\<lparr>auth_user := u\<rparr>"

definition setPending2FAFlowToken :: "string option \<Rightarrow> auth \<Rightarrow> auth" where
  "setPending2FAFlowToken tok a = a\<lparr>pending2FAFlowToken := tok\<rparr>"

definition setBootstrapState :: "AuthBootstrapState \<Rightarrow> auth \<Rightarrow> auth" where
  "setBootstrapState b a = a\<lparr>bootstrapState := b\<rparr>"

definition resetAuth :: "AuthBootstrapState \<Rightarrow> auth \<Rightarrow> auth" where
  "resetAuth b a =
     a\<lparr>auth_user := None, accessToken := None, accessExpiresAt := None, auth_session := None,
       pending2FAFlowToken := None, bootstrapState := b\<rparr>"

lemmas store_defs [js_defs] =
  initialAuth_def setBundle_def setUser_def setPending2FAFlowToken_def setBootstrapState_def
  resetAuth_def

text \<open>Token, expiry and session are set and cleared together; \<open>setUser\<close> alone may replace the
  user at any time.\<close>

definition tokenTriple :: "auth \<Rightarrow> bool" where
  "tokenTriple a \<longleftrightarrow>
     (accessToken a = None \<longleftrightarrow> auth_session a = None) \<and>
     (accessExpiresAt a = None \<longleftrightarrow> auth_session a = None)"

lemma tokenTriple_store [simp]:
  "tokenTriple initialAuth"
  "tokenTriple (setBundle bundle a)"
  "tokenTriple (resetAuth b a)"
  "tokenTriple (setUser u a) = tokenTriple a"
  "tokenTriple (setPending2FAFlowToken tok a) = tokenTriple a"
  "tokenTriple (setBootstrapState b a) = tokenTriple a"
  by (auto simp: tokenTriple_def store_defs)

text \<open>What the guard of a bundle guarantees of the record it is cast to.\<close>

lemma is_nonempty_string_as_str: "is_nonempty_string v \<Longrightarrow> as_str v \<noteq> []"
  by (cases v) auto

lemma parseBundle_SomeD:
  assumes "parseBundle v = Some b"
  shows "access_token b \<noteq> []" "token_type b \<noteq> []" "0 < access_expires_at b"
    "sid (bundle_session b) \<noteq> []" "0 < uid (bundle_user b)"
proof -
  from assms have g: "isAuthBundle v" and b: "b = toAuthBundle v"
    by (auto simp: parseBundle_def split: if_splits)
  from g show "access_token b \<noteq> []" "token_type b \<noteq> []" "sid (bundle_session b) \<noteq> []"
    by (auto simp: b isAuthBundle_def hasValidTokenFields_def toAuthBundle_def isLoginSession_def
        toLoginSession_def is_nonempty_string_as_str)
  from g show "0 < access_expires_at b"
    by (cases "as_num (jprop v ''access_expires_at'')")
      (auto simp: b isAuthBundle_def hasValidTokenFields_def toAuthBundle_def split: jsval.splits)
  from g show "0 < uid (bundle_user b)"
    by (cases "as_num (jprop (jprop v ''user'') ''id'')")
      (auto simp: b isAuthBundle_def isAuthUser_def toAuthBundle_def toAuthUser_def split: jsval.splits)
qed

section \<open>Administrator permissions\<close>

type_synonym AdminPermissionMatrix = "(string, (string, bool) omap) omap"

record PermissionActionDef =
  pa_action :: string
  pa_label_key :: string
  pa_description_key :: string

record PermissionResourceDef =
  pr_resource :: string
  pr_label_key :: string
  pr_actions :: "PermissionActionDef list"

record PermissionRoleDef =
  prole_key :: string
  prole_name :: string
  built_in :: bool
  superuser :: bool
  grants :: AdminPermissionMatrix

record PermissionCatalog =
  pc_resources :: "PermissionResourceDef list"
  pc_roles :: "PermissionRoleDef list"

definition ROLE_SUPER_ADMIN :: jsnum where
  "ROLE_SUPER_ADMIN = Fin 100"

definition ADMIN_ROLE_KEY :: string where
  "ADMIN_ROLE_KEY = ''admin''"

definition hasPermission :: "AuthUser option \<Rightarrow> string \<Rightarrow> string \<Rightarrow> bool" where
  "hasPermission u resource action =
     (case u of
        None \<Rightarrow> False
      | Some usr \<Rightarrow>
          if role usr = ROLE_SUPER_ADMIN then True
          else
            jprop (jprop (jprop (jprop (user_value usr) ''permissions'') ''admin_permissions'') resource) action
              = JBool True)"

definition roleGrants :: "PermissionCatalog \<Rightarrow> string \<Rightarrow> AdminPermissionMatrix" where
  "roleGrants catalog roleKey =
     (case find (\<lambda>r. prole_key r = roleKey) (pc_roles catalog) of Some r \<Rightarrow> grants r | None \<Rightarrow> [])"

text \<open>\<open>m?.[resource]?.[action]\<close>.\<close>

definition matrixAt :: "AdminPermissionMatrix \<Rightarrow> string \<Rightarrow> string \<Rightarrow> bool option" where
  "matrixAt m resource action = Option.bind (om_get m resource) (\<lambda>acts. om_get acts action)"

text \<open>The value a cell gets: the given one, else the administrator role's, else \<open>false\<close>.\<close>

definition permissionValue ::
  "AdminPermissionMatrix option \<Rightarrow> AdminPermissionMatrix \<Rightarrow> string \<Rightarrow> string \<Rightarrow> bool" where
  "permissionValue v baseline resource action =
     (case Option.bind v (\<lambda>m. matrixAt m resource action) of
        Some b \<Rightarrow> b
      | None \<Rightarrow> (case matrixAt baseline resource action of Some b \<Rightarrow> b | None \<Rightarrow> False))"

definition normalizeResource ::
  "AdminPermissionMatrix option \<Rightarrow> AdminPermissionMatrix \<Rightarrow> PermissionResourceDef \<Rightarrow> (string, bool) omap" where
  "normalizeResource v baseline resource =
     fold (\<lambda>a acts. om_set (pa_action a) (permissionValue v baseline (pr_resource resource) (pa_action a)) acts)
       (pr_actions resource) []"

definition normalizeAdminPermissions ::
  "AdminPermissionMatrix option \<Rightarrow> PermissionCatalog \<Rightarrow> AdminPermissionMatrix" where
  "normalizeAdminPermissions v catalog =
     (let baseline = roleGrants catalog ADMIN_ROLE_KEY in
      fold (\<lambda>r m. om_set (pr_resource r) (normalizeResource v baseline r) m) (pc_resources catalog) [])"

lemma om_get_fold_set:
  "om_get (fold (\<lambda>x m. om_set (f x) (g x) m) xs m) k =
     (case find (\<lambda>x. f x = k) (rev xs) of Some x \<Rightarrow> Some (g x) | None \<Rightarrow> om_get m k)"
proof (induction xs rule: rev_induct)
  case (snoc x xs)
  then show ?case by (auto simp: om.get_put)
qed simp

lemma om_get_normalizeResource:
  "om_get (normalizeResource v baseline r) a =
     (if a \<in> pa_action ` set (pr_actions r) then Some (permissionValue v baseline (pr_resource r) a) else None)"
proof (cases "find (\<lambda>x. pa_action x = a) (rev (pr_actions r))")
  case None
  then have "a \<notin> pa_action ` set (pr_actions r)"
    by (auto simp: find_None_iff)
  with None show ?thesis
    by (simp add: normalizeResource_def om_get_fold_set om.get_empty)
next
  case (Some x)
  then have "pa_action x = a" and "x \<in> set (pr_actions r)"
    by (auto dest: find_rev_SomeD)
  with Some show ?thesis
    by (auto simp: normalizeResource_def om_get_fold_set)
qed

lemma matrixAt_normalize:
  "matrixAt (normalizeAdminPermissions v catalog) r a =
     (case find (\<lambda>x. pr_resource x = r) (rev (pc_resources catalog)) of
        None \<Rightarrow> None
      | Some x \<Rightarrow> (if a \<in> pa_action ` set (pr_actions x)
                 then Some (permissionValue v (roleGrants catalog ADMIN_ROLE_KEY) r a) else None))"
proof (cases "find (\<lambda>x. pr_resource x = r) (rev (pc_resources catalog))")
  case None
  then show ?thesis
    by (simp add: matrixAt_def normalizeAdminPermissions_def om_get_fold_set om.get_empty)
next
  case (Some x)
  then have "pr_resource x = r" by (auto dest: find_rev_SomeD)
  with Some show ?thesis
    by (simp add: matrixAt_def normalizeAdminPermissions_def om_get_fold_set om_get_normalizeResource)
qed

lemma matrixAt_normalize_catalog:
  assumes "distinct (map pr_resource (pc_resources catalog))"
    and "res \<in> set (pc_resources catalog)" and "act \<in> set (pr_actions res)"
  shows "matrixAt (normalizeAdminPermissions v catalog) (pr_resource res) (pa_action act) =
    Some (permissionValue v (roleGrants catalog ADMIN_ROLE_KEY) (pr_resource res) (pa_action act))"
  using assms by (auto simp: matrixAt_normalize find_rev_distinct)

text \<open>
  C17.  Normalising permissions fills exactly the catalog: each action of each resource gets the
  value given for it, else the administrator role's, else \<open>false\<close>; a resource or an action
  outside the catalog is dropped; and normalising again changes nothing.
\<close>

theorem permissions_normalized:
  assumes "distinct (map pr_resource (pc_resources catalog))"
  shows "(\<forall>res \<in> set (pc_resources catalog). \<forall>act \<in> set (pr_actions res).
       matrixAt (normalizeAdminPermissions v catalog) (pr_resource res) (pa_action act) =
         Some (permissionValue v (roleGrants catalog ADMIN_ROLE_KEY) (pr_resource res) (pa_action act))) \<and>
     (\<forall>r a b. matrixAt (normalizeAdminPermissions v catalog) r a = Some b \<longrightarrow>
       (\<exists>res \<in> set (pc_resources catalog). pr_resource res = r \<and> a \<in> pa_action ` set (pr_actions res))) \<and>
     normalizeAdminPermissions (Some (normalizeAdminPermissions v catalog)) catalog =
       normalizeAdminPermissions v catalog"
proof (intro conjI)
  let ?b = "roleGrants catalog ADMIN_ROLE_KEY"
  let ?n = "normalizeAdminPermissions v catalog"
  show "\<forall>res \<in> set (pc_resources catalog). \<forall>act \<in> set (pr_actions res).
       matrixAt ?n (pr_resource res) (pa_action act) =
         Some (permissionValue v ?b (pr_resource res) (pa_action act))"
    using matrixAt_normalize_catalog [OF assms] by blast
  show "\<forall>r a b. matrixAt ?n r a = Some b \<longrightarrow>
       (\<exists>res \<in> set (pc_resources catalog). pr_resource res = r \<and> a \<in> pa_action ` set (pr_actions res))"
    by (auto simp: matrixAt_normalize split: option.splits if_splits dest!: find_rev_SomeD)
  have cell: "permissionValue (Some ?n) ?b (pr_resource res) (pa_action act) =
      permissionValue v ?b (pr_resource res) (pa_action act)"
    if "res \<in> set (pc_resources catalog)" "act \<in> set (pr_actions res)" for res act
    using matrixAt_normalize_catalog [OF assms that, of v] by (simp add: permissionValue_def)
  have "normalizeResource (Some ?n) ?b res = normalizeResource v ?b res"
    if "res \<in> set (pc_resources catalog)" for res
    unfolding normalizeResource_def by (rule fold_cong) (simp_all add: cell [OF that])
  then show "normalizeAdminPermissions (Some ?n) catalog = ?n"
    unfolding normalizeAdminPermissions_def [of "Some ?n"]
    by (subst normalizeAdminPermissions_def [of v]) (auto simp: Let_def intro!: fold_cong)
qed

definition sampleCatalog :: PermissionCatalog where
  "sampleCatalog =
     \<lparr>pc_resources =
        [\<lparr>pr_resource = ''channel'', pr_label_key = ''Channel'',
          pr_actions =
            [\<lparr>pa_action = ''read'', pa_label_key = ''Read'', pa_description_key = []\<rparr>,
             \<lparr>pa_action = ''write'', pa_label_key = ''Write'', pa_description_key = []\<rparr>]\<rparr>],
      pc_roles =
        [\<lparr>prole_key = ''admin'', prole_name = ''Admin'', built_in = True, superuser = False,
          grants = [(''channel'', [(''read'', True)])]\<rparr>]\<rparr>"

theorem permissions_normalized_witness:
  "distinct (map pr_resource (pc_resources sampleCatalog)) \<and>
   normalizeAdminPermissions (Some [(''channel'', [(''write'', True)])]) sampleCatalog =
     [(''channel'', [(''read'', True), (''write'', True)])] \<and>
   normalizeAdminPermissions
       (Some (normalizeAdminPermissions (Some [(''channel'', [(''write'', True)])]) sampleCatalog)) sampleCatalog =
     normalizeAdminPermissions (Some [(''channel'', [(''write'', True)])]) sampleCatalog"
proof -
  have d: "distinct (map pr_resource (pc_resources sampleCatalog))"
    by (simp add: sampleCatalog_def)
  have "normalizeAdminPermissions (Some [(''channel'', [(''write'', True)])]) sampleCatalog =
     [(''channel'', [(''read'', True), (''write'', True)])]"
    by code_simp
  with d permissions_normalized [OF d] show ?thesis by blast
qed

end
