(* ===== verification/Auth_Refresh.thy ===== *)
theory Auth_Refresh
  imports Auth_Store
begin

text \<open>
  The life of a session: \<open>web/src/lib/auth-session.ts\<close> (login, rotation, sign-out, the refresh
  runner and its retries), \<open>web/src/lib/auth-session-sync.ts\<close> (events between tabs) and the
  listener of those events in \<open>web/src/routes/__root.tsx\<close>.

  The module state holds the store, the epoch counter, the refresh in flight, and logs of what
  leaves the module: the events published to other tabs, the \<open>X-Auth-Session\<close> header of each
  refresh request, and the outcomes the refresh promise settled with.  A refresh is asynchronous:
  each \<open>await\<close> of the source is a state of \<open>refresh_pc\<close>, and between two of them any other
  operation of the module may run.
\<close>

section \<open>State\<close>

datatype refresh_error = Superseded | ResponseError jsval | LockError

datatype RefreshOutcome =
    Authenticated AuthBundle
  | Anonymous
  | TransientError refresh_error
  | OutOfSync string

datatype refresh_result = Resolved RefreshOutcome | Rejected

record AuthRefreshHTTPResponse =
  rsp_status :: nat
  rsp_data :: jsval
  rsp_error :: jsval

datatype sync_kind = SyncAuthenticated | SyncSignedOut

text \<open>Where the refresh stands: waiting for the browser lock, for the answer to a request, or for
  the delay after a race.  The arguments are the epoch in which it started, \<open>raceAttempt\<close> and
  \<open>allowMismatchRetry\<close>.\<close>

datatype refresh_pc =
    NoRefresh
  | AwaitLock nat
  | AwaitResponse nat nat bool
  | RaceWait nat nat bool nat

record auth_module =
  store :: auth
  authEpoch :: nat
  refreshPromise :: refresh_pc
  published :: "(sync_kind \<times> string) list"
  requests :: "string option list"
  outcomes :: "refresh_result list"

definition initialModule :: auth_module where
  "initialModule =
     \<lparr>store = initialAuth, authEpoch = 0, refreshPromise = NoRefresh, published = [],
      requests = [], outcomes = []\<rparr>"

definition sessionSID :: "auth_module \<Rightarrow> string option" where
  "sessionSID m = map_option sid (auth_session (store m))"

section \<open>Session operations\<close>

definition publishAuthSessionEvent :: "sync_kind \<Rightarrow> string \<Rightarrow> auth_module \<Rightarrow> auth_module" where
  "publishAuthSessionEvent k s m = (if s = [] then m else m\<lparr>published := published m @ [(k, s)]\<rparr>)"

definition applyAuthBundle :: "AuthBundle \<Rightarrow> bool \<Rightarrow> auth_module \<Rightarrow> auth_module" where
  "applyAuthBundle bundle synchronizeTabs m =
     (let previousSID = sessionSID m;
          m' = m\<lparr>authEpoch := authEpoch m + 1, store := setBundle bundle (store m)\<rparr> in
      if synchronizeTabs \<and> previousSID \<noteq> Some (sid (bundle_session bundle))
      then publishAuthSessionEvent SyncAuthenticated (sid (bundle_session bundle)) m'
      else m')"

datatype AuthRotationError = InvalidRotationResponse | NoActiveSession | RotationSessionMismatch

definition applyAuthRotation :: "jsval \<Rightarrow> auth_module \<Rightarrow> AuthRotationError + auth_module" where
  "applyAuthRotation v m =
     (if \<not> isAuthTokenRotation v then Inl InvalidRotationResponse
      else
        let rot = toAuthTokenRotation v in
        case (auth_user (store m), auth_session (store m)) of
          (Some u, Some s) \<Rightarrow>
            if sid (rot_session rot) \<noteq> sid s then Inl RotationSessionMismatch
            else Inr (applyAuthBundle
              \<lparr>access_token = rot_access_token rot, token_type = rot_token_type rot,
               access_expires_at = rot_access_expires_at rot, bundle_user = u,
               bundle_session = rot_session rot\<rparr> False m)
        | _ \<Rightarrow> Inl NoActiveSession)"

definition clearAuthentication :: "bool \<Rightarrow> AuthBootstrapState \<Rightarrow> auth_module \<Rightarrow> auth_module" where
  "clearAuthentication synchronizeTabs b m =
     (let s = sessionSID m;
          m' = m\<lparr>authEpoch := authEpoch m + 1, store := resetAuth b (store m)\<rparr> in
      if synchronizeTabs then (case s of None \<Rightarrow> m' | Some s \<Rightarrow> publishAuthSessionEvent SyncSignedOut s m')
      else m')"

section \<open>The refresh runner\<close>

definition refreshRaceDelays :: "nat list" where
  "refreshRaceDelays = [80, 200, 500]"

definition settle :: "RefreshOutcome \<Rightarrow> auth_module \<Rightarrow> auth_module" where
  "settle out m = m\<lparr>refreshPromise := NoRefresh, outcomes := outcomes m @ [Resolved out]\<rparr>"

text \<open>The entry of \<open>run\<close>, up to the \<open>await\<close> of the request.\<close>

definition runStart :: "nat \<Rightarrow> nat \<Rightarrow> bool \<Rightarrow> auth_module \<Rightarrow> auth_module" where
  "runStart epoch raceAttempt allowMismatchRetry m =
     (if authEpoch m \<noteq> epoch then settle (TransientError Superseded) m
      else m\<lparr>requests := requests m @ [sessionSID m],
             refreshPromise := AwaitResponse epoch raceAttempt allowMismatchRetry\<rparr>)"

text \<open>The \<open>clear\<close> callback that \<open>runRefresh\<close> passes to the runner.\<close>

definition runtimeClear :: "bool \<Rightarrow> AuthBootstrapState option \<Rightarrow> auth_module \<Rightarrow> auth_module" where
  "runtimeClear synchronizeTabs b m =
     (if \<not> synchronizeTabs \<and> b = Some Idle then m\<lparr>store := resetAuth Idle (store m)\<rparr>
      else clearAuthentication synchronizeTabs (case b of None \<Rightarrow> Complete | Some x \<Rightarrow> x) m)"

definition responseCode :: "jsval \<Rightarrow> string option" where
  "responseCode d = (case jprop d ''code'' of JStr c \<Rightarrow> Some c | _ \<Rightarrow> None)"

text \<open>The rest of \<open>run\<close>, from the answer to the request.\<close>

definition runResponse ::
  "nat \<Rightarrow> nat \<Rightarrow> bool \<Rightarrow> AuthRefreshHTTPResponse \<Rightarrow> auth_module \<Rightarrow> auth_module" where
  "runResponse epoch raceAttempt allowMismatchRetry response m =
     (if authEpoch m \<noteq> epoch then settle (TransientError Superseded) m
      else
        let responseData = (if isRecord (rsp_data response) then rsp_data response else JUndef);
            code = responseCode responseData;
            bundle = parseBundle (jprop responseData ''data'');
            status = rsp_status response in
        if jprop responseData ''success'' = JBool True \<and> bundle \<noteq> None then
          settle (Authenticated (the bundle)) (applyAuthBundle (the bundle) False m)
        else if status = 409 \<and> code = Some ''AUTH_REFRESH_RACE'' then
          (if raceAttempt < length refreshRaceDelays
           then m\<lparr>refreshPromise :=
                    RaceWait epoch raceAttempt allowMismatchRetry (refreshRaceDelays ! raceAttempt)\<rparr>
           else settle (OutOfSync (the code)) (runtimeClear False None m))
        else if status = 409 \<and> code = Some ''AUTH_SESSION_MISMATCH'' then
          (if allowMismatchRetry then runStart epoch 0 False (runtimeClear False (Some Idle) m)
           else settle (OutOfSync (the code)) (runtimeClear False None m))
        else if status = 401 then
          settle Anonymous (runtimeClear True None m)
        else if status = 0 \<or> 500 \<le> status \<or> status = 429 then
          settle (TransientError (ResponseError
              (if rsp_error response \<in> {JUndef, JNull} then rsp_data response else rsp_error response)))
            (m\<lparr>store := setBootstrapState Idle (store m)\<rparr>)
        else
          settle (OutOfSync (case code of Some c \<Rightarrow> c | None \<Rightarrow> ''AUTH_INVALID_REFRESH_RESPONSE''))
            (runtimeClear False None m))"

text \<open>What the browser offers: no lock manager, a lock manager, or one whose \<open>request\<close> throws at
  once.\<close>

datatype lock_support = NoLocks | HasLocks | ThrowingLocks

definition refreshAuthentication :: "lock_support \<Rightarrow> auth_module \<Rightarrow> auth_module" where
  "refreshAuthentication locks m =
     (if refreshPromise m \<noteq> NoRefresh then m
      else
        case locks of
          NoLocks \<Rightarrow> runStart (authEpoch m) 0 True m
        | HasLocks \<Rightarrow> m\<lparr>refreshPromise := AwaitLock (authEpoch m)\<rparr>
        | ThrowingLocks \<Rightarrow>
            settle (TransientError LockError) (m\<lparr>store := setBootstrapState Idle (store m)\<rparr>))"

text \<open>The events that move a refresh forward.  The lock promise is returned without \<open>await\<close>, so
  its rejection is not caught: the refresh promise rejects and the store keeps its state.\<close>

datatype refresh_event =
    LockGranted
  | LockRejected
  | ResponseArrived AuthRefreshHTTPResponse
  | DelayElapsed

fun refreshStep :: "refresh_event \<Rightarrow> auth_module \<Rightarrow> auth_module" where
  "refreshStep ev m =
     (case (ev, refreshPromise m) of
        (LockGranted, AwaitLock epoch) \<Rightarrow> runStart epoch 0 True m
      | (LockRejected, AwaitLock epoch) \<Rightarrow>
          m\<lparr>refreshPromise := NoRefresh, outcomes := outcomes m @ [Rejected]\<rparr>
      | (ResponseArrived r, AwaitResponse epoch race allow) \<Rightarrow> runResponse epoch race allow r m
      | (DelayElapsed, RaceWait epoch race allow d) \<Rightarrow> runStart epoch (race + 1) allow m
      | _ \<Rightarrow> m)"

declare refreshStep.simps [simp del]

section \<open>Bootstrap and request headers\<close>

text \<open>\<open>Math.floor(Date.now() / 1000)\<close>, from milliseconds.\<close>

definition nowSeconds :: "int \<Rightarrow> rat" where
  "nowSeconds nowMs = of_int (nowMs div 1000)"

definition currentValidAuthBundle :: "int \<Rightarrow> auth_module \<Rightarrow> AuthBundle option" where
  "currentValidAuthBundle nowMs m =
     (case (auth_user (store m), accessToken (store m), accessExpiresAt (store m), auth_session (store m)) of
        (Some u, Some tok, Some expires, Some s) \<Rightarrow>
          if tok = [] \<or> expires = 0 \<or> expires \<le> nowSeconds nowMs then None
          else Some \<lparr>access_token = tok, token_type = ''Bearer'', access_expires_at = expires,
                     bundle_user = u, bundle_session = s\<rparr>
      | _ \<Rightarrow> None)"

text \<open>The outcome known at once, if there is one; otherwise that of the refresh.\<close>

definition bootstrapAuthentication ::
  "int \<Rightarrow> lock_support \<Rightarrow> auth_module \<Rightarrow> RefreshOutcome option \<times> auth_module" where
  "bootstrapAuthentication nowMs locks m =
     (case currentValidAuthBundle nowMs m of
        Some bundle \<Rightarrow>
          (Some (Authenticated bundle), m\<lparr>store := setBootstrapState Complete (store m)\<rparr>)
      | None \<Rightarrow>
          let hasStaleSession = (auth_user (store m) \<noteq> None \<and> auth_session (store m) \<noteq> None) in
          if bootstrapState (store m) = Complete \<and> \<not> hasStaleSession then (Some Anonymous, m)
          else (None, refreshAuthentication locks (m\<lparr>store := setBootstrapState Checking (store m)\<rparr>)))"

definition getCommonHeaders :: "auth_module \<Rightarrow> (string, string) omap" where
  "getCommonHeaders m =
     (let headers = [(''Content-Type'', ''application/json'')] in
      case accessToken (store m) of
        Some tok \<Rightarrow> if tok \<noteq> [] then om_set ''Authorization'' (''Bearer '' @ tok) headers else headers
      | None \<Rightarrow> headers)"

definition tokenValidAfter :: "rat \<Rightarrow> auth_module \<Rightarrow> bool" where
  "tokenValidAfter t m \<longleftrightarrow>
     (case (accessToken (store m), accessExpiresAt (store m)) of
        (Some tok, Some expires) \<Rightarrow> tok \<noteq> [] \<and> expires \<noteq> 0 \<and> t < expires
      | _ \<Rightarrow> False)"

datatype header_error = RequestFailed refresh_error | SessionExpired

text \<open>\<open>getFreshAuthHeaders\<close> before and after its \<open>await refreshAuthentication()\<close>.\<close>

definition freshHeadersStart :: "int \<Rightarrow> auth_module \<Rightarrow> (string, string) omap option" where
  "freshHeadersStart nowMs m =
     (if tokenValidAfter (nowSeconds nowMs + 60) m then Some (getCommonHeaders m) else None)"

definition freshHeadersFinish ::
  "int \<Rightarrow> RefreshOutcome \<Rightarrow> auth_module \<Rightarrow> header_error + (string, string) omap" where
  "freshHeadersFinish nowMs out m =
     (case out of
        Authenticated b \<Rightarrow> Inr (getCommonHeaders m)
      | _ \<Rightarrow>
          if tokenValidAfter (nowSeconds nowMs) m then Inr (getCommonHeaders m)
          else (case out of TransientError e \<Rightarrow> Inl (RequestFailed e) | _ \<Rightarrow> Inl SessionExpired))"

section \<open>Events between tabs\<close>

record AuthSessionSyncEvent =
  ev_kind :: sync_kind
  ev_sid :: string
  ev_source :: string
  ev_timestamp :: rat

definition isAuthSessionSyncEvent :: "jsval \<Rightarrow> bool" where
  "isAuthSessionSyncEvent v \<longleftrightarrow>
     truthy v \<and> is_object v \<and>
     jprop v ''kind'' \<in> {JStr ''authenticated'', JStr ''signed_out''} \<and>
     is_nonempty_string (jprop v ''sid'') \<and>
     is_string (jprop v ''source'') \<and>
     is_string (jprop v ''nonce'') \<and>
     is_number (jprop v ''timestamp'')"

definition toSyncEvent :: "jsval \<Rightarrow> AuthSessionSyncEvent" where
  "toSyncEvent v =
     \<lparr>ev_kind = (if jprop v ''kind'' = JStr ''authenticated'' then SyncAuthenticated else SyncSignedOut),
      ev_sid = as_str (jprop v ''sid''), ev_source = as_str (jprop v ''source''),
      ev_timestamp = as_rat (jprop v ''timestamp'')\<rparr>"

text \<open>\<open>deliver\<close>: the event that reaches the listener, if any.  The age of an event with an
  infinite or \<open>NaN\<close> timestamp is never less than a minute.\<close>

definition deliverSyncEvent :: "string \<Rightarrow> rat \<Rightarrow> jsval \<Rightarrow> AuthSessionSyncEvent option" where
  "deliverSyncEvent authSyncSource nowMs v =
     (if isAuthSessionSyncEvent v \<and> jprop v ''source'' \<noteq> JStr authSyncSource \<and>
         num_is_finite (as_num (jprop v ''timestamp'')) \<and>
         \<bar>nowMs - as_rat (jprop v ''timestamp'')\<bar> < 60000
      then Some (toSyncEvent v) else None)"

text \<open>The value \<open>publishAuthSessionEvent\<close> posts on the channel.\<close>

definition syncEventValue :: "sync_kind \<Rightarrow> string \<Rightarrow> string \<Rightarrow> string \<Rightarrow> rat \<Rightarrow> jsval" where
  "syncEventValue k s authSyncSource nonce nowMs =
     JObj [(''kind'', JStr (case k of SyncAuthenticated \<Rightarrow> ''authenticated'' | SyncSignedOut \<Rightarrow> ''signed_out'')),
           (''sid'', JStr s), (''source'', JStr authSyncSource), (''nonce'', JStr nonce),
           (''timestamp'', JNum (Fin nowMs))]"

text \<open>What the page does besides changing the module state.\<close>

datatype page_effect = NoEffect | ReloadPage | GoToSignIn

definition onAuthSessionEvent :: "AuthSessionSyncEvent \<Rightarrow> auth_module \<Rightarrow> page_effect \<times> auth_module" where
  "onAuthSessionEvent ev m =
     (let currentSID = sessionSID m in
      case ev_kind ev of
        SyncAuthenticated \<Rightarrow>
          if currentSID = Some (ev_sid ev) then (NoEffect, m)
          else (ReloadPage,
                if currentSID \<noteq> None \<and> currentSID \<noteq> Some [] then clearAuthentication False Complete m else m)
      | SyncSignedOut \<Rightarrow>
          if currentSID \<noteq> Some [] \<and> currentSID = Some (ev_sid ev)
          then (GoToSignIn, clearAuthentication False Complete m)
          else (NoEffect, m))"

section \<open>All steps of the module\<close>

datatype auth_event =
    Login AuthBundle bool
  | Rotate jsval
  | SignOut bool
  | StoreSetUser "AuthUser option"
  | StorePending2FA "string option"
  | Bootstrap int lock_support
  | StartRefresh lock_support
  | RefreshProgress refresh_event
  | TabEvent AuthSessionSyncEvent

fun authStep :: "auth_event \<Rightarrow> auth_module \<Rightarrow> auth_module" where
  "authStep (Login b sync) m = applyAuthBundle b sync m"
| "authStep (Rotate v) m = (case applyAuthRotation v m of Inl e \<Rightarrow> m | Inr m' \<Rightarrow> m')"
| "authStep (SignOut sync) m = clearAuthentication sync Complete m"
| "authStep (StoreSetUser u) m = m\<lparr>store := setUser u (store m)\<rparr>"
| "authStep (StorePending2FA t) m = m\<lparr>store := setPending2FAFlowToken t (store m)\<rparr>"
| "authStep (Bootstrap nowMs locks) m = snd (bootstrapAuthentication nowMs locks m)"
| "authStep (StartRefresh locks) m = refreshAuthentication locks m"
| "authStep (RefreshProgress ev) m = refreshStep ev m"
| "authStep (TabEvent ev) m = snd (onAuthSessionEvent ev m)"

inductive reachableAuth :: "auth_module \<Rightarrow> bool" where
  start: "reachableAuth initialModule"
| step: "reachableAuth m \<Longrightarrow> reachableAuth (authStep ev m)"

section \<open>What each operation leaves alone\<close>

lemma publish_frame [simp]:
  "store (publishAuthSessionEvent k s m) = store m"
  "authEpoch (publishAuthSessionEvent k s m) = authEpoch m"
  "refreshPromise (publishAuthSessionEvent k s m) = refreshPromise m"
  "requests (publishAuthSessionEvent k s m) = requests m"
  "outcomes (publishAuthSessionEvent k s m) = outcomes m"
  by (simp_all add: publishAuthSessionEvent_def)

lemma applyAuthBundle_frame [simp]:
  "store (applyAuthBundle b sync m) = setBundle b (store m)"
  "authEpoch (applyAuthBundle b sync m) = Suc (authEpoch m)"
  "refreshPromise (applyAuthBundle b sync m) = refreshPromise m"
  "requests (applyAuthBundle b sync m) = requests m"
  "outcomes (applyAuthBundle b sync m) = outcomes m"
  "published (applyAuthBundle b False m) = published m"
  by (simp_all add: applyAuthBundle_def Let_def)

lemma clearAuthentication_frame [simp]:
  "store (clearAuthentication sync b m) = resetAuth b (store m)"
  "authEpoch (clearAuthentication sync b m) = Suc (authEpoch m)"
  "refreshPromise (clearAuthentication sync b m) = refreshPromise m"
  "requests (clearAuthentication sync b m) = requests m"
  "outcomes (clearAuthentication sync b m) = outcomes m"
  "published (clearAuthentication False b m) = published m"
  by (simp_all add: clearAuthentication_def Let_def split: option.splits)

lemma settle_frame [simp]:
  "store (settle out m) = store m"
  "authEpoch (settle out m) = authEpoch m"
  "refreshPromise (settle out m) = NoRefresh"
  "requests (settle out m) = requests m"
  "published (settle out m) = published m"
  "outcomes (settle out m) = outcomes m @ [Resolved out]"
  by (simp_all add: settle_def)

lemma runtimeClear_frame [simp]:
  "refreshPromise (runtimeClear sync b m) = refreshPromise m"
  "requests (runtimeClear sync b m) = requests m"
  "outcomes (runtimeClear sync b m) = outcomes m"
  "store (runtimeClear sync b m) = resetAuth (case b of None \<Rightarrow> Complete | Some x \<Rightarrow> x) (store m)"
  "published (runtimeClear False b m) = published m"
  "authEpoch m \<le> authEpoch (runtimeClear sync b m)"
  "authEpoch (runtimeClear False (Some Idle) m) = authEpoch m"
  by (simp_all add: runtimeClear_def)

lemma runStart_frame [simp]:
  "store (runStart e race allow m) = store m"
  "authEpoch (runStart e race allow m) = authEpoch m"
  "published (runStart e race allow m) = published m"
  by (simp_all add: runStart_def)

lemma applyAuthRotation_InrD:
  assumes "applyAuthRotation v m = Inr m'"
  obtains u s where "isAuthTokenRotation v" "auth_user (store m) = Some u"
    "auth_session (store m) = Some s" "sid (rot_session (toAuthTokenRotation v)) = sid s"
    "m' = applyAuthBundle
       \<lparr>access_token = rot_access_token (toAuthTokenRotation v),
        token_type = rot_token_type (toAuthTokenRotation v),
        access_expires_at = rot_access_expires_at (toAuthTokenRotation v), bundle_user = u,
        bundle_session = rot_session (toAuthTokenRotation v)\<rparr> False m"
  using assms by (auto simp: applyAuthRotation_def Let_def split: if_splits option.splits)

section \<open>The invariant of the module\<close>

fun pcEpoch :: "refresh_pc \<Rightarrow> nat option" where
  "pcEpoch NoRefresh = None"
| "pcEpoch (AwaitLock e) = Some e"
| "pcEpoch (AwaitResponse e race allow) = Some e"
| "pcEpoch (RaceWait e race allow d) = Some e"

fun pcRace :: "refresh_pc \<Rightarrow> bool" where
  "pcRace (AwaitResponse e race allow) = (race \<le> length refreshRaceDelays)"
| "pcRace (RaceWait e race allow d) = (race < length refreshRaceDelays)"
| "pcRace _ = True"

definition moduleInv :: "auth_module \<Rightarrow> bool" where
  "moduleInv m \<longleftrightarrow>
     tokenTriple (store m) \<and> pcRace (refreshPromise m) \<and>
     (\<forall>e. pcEpoch (refreshPromise m) = Some e \<longrightarrow> e \<le> authEpoch m)"

lemma moduleInv_runStart:
  "tokenTriple (store m) \<Longrightarrow> race \<le> length refreshRaceDelays \<Longrightarrow> moduleInv (runStart e race allow m)"
  by (simp add: moduleInv_def runStart_def)

lemma moduleInv_settle: "moduleInv (settle out m) = tokenTriple (store m)"
  by (simp add: moduleInv_def)

lemma moduleInv_wait:
  "tokenTriple (store m) \<Longrightarrow> race < length refreshRaceDelays \<Longrightarrow> authEpoch m = e \<Longrightarrow>
   moduleInv (m\<lparr>refreshPromise := RaceWait e race allow d\<rparr>)"
  by (simp add: moduleInv_def)

lemma moduleInv_awaitLock:
  "tokenTriple (store m) \<Longrightarrow> moduleInv (m\<lparr>refreshPromise := AwaitLock (authEpoch m)\<rparr>)"
  by (simp add: moduleInv_def)

lemma moduleInv_rejected:
  "tokenTriple (store m) \<Longrightarrow> moduleInv (m\<lparr>refreshPromise := NoRefresh, outcomes := os\<rparr>)"
  by (simp add: moduleInv_def)

lemma moduleInv_runResponse:
  assumes "moduleInv m" and "refreshPromise m = AwaitResponse e race allow"
  shows "moduleInv (runResponse e race allow r m)"
proof -
  from assms have "tokenTriple (store m)" "race \<le> length refreshRaceDelays"
    by (simp_all add: moduleInv_def)
  then show ?thesis
    by (simp add: runResponse_def Let_def moduleInv_settle moduleInv_runStart moduleInv_wait)
qed

lemma moduleInv_refreshStep:
  assumes "moduleInv m"
  shows "moduleInv (refreshStep ev m)"
proof -
  from assms have t: "tokenTriple (store m)" by (simp add: moduleInv_def)
  have "race < length refreshRaceDelays" if "refreshPromise m = RaceWait e race allow d" for e race allow d
    using assms that by (simp add: moduleInv_def)
  with assms t show ?thesis
    by (cases ev; cases "refreshPromise m")
      (simp_all add: refreshStep.simps moduleInv_runResponse moduleInv_runStart moduleInv_rejected Suc_leI)
qed

lemma moduleInv_refreshAuthentication: "moduleInv m \<Longrightarrow> moduleInv (refreshAuthentication locks m)"
  by (cases locks)
    (simp_all add: refreshAuthentication_def moduleInv_runStart moduleInv_settle moduleInv_awaitLock
      moduleInv_def [of m])

lemma moduleInv_bundle: "moduleInv m \<Longrightarrow> moduleInv (applyAuthBundle b sync m)"
  by (auto simp: moduleInv_def le_SucI)

lemma moduleInv_clear: "moduleInv m \<Longrightarrow> moduleInv (clearAuthentication sync b m)"
  by (auto simp: moduleInv_def le_SucI)

lemma moduleInv_store: "moduleInv m \<Longrightarrow> tokenTriple a \<Longrightarrow> moduleInv (m\<lparr>store := a\<rparr>)"
  by (auto simp: moduleInv_def)

lemma moduleInv_tokenTriple: "moduleInv m \<Longrightarrow> tokenTriple (store m)"
  by (simp add: moduleInv_def)

lemmas moduleInv_ops =
  moduleInv_refreshStep moduleInv_refreshAuthentication moduleInv_bundle moduleInv_clear moduleInv_store

lemma moduleInv_authStep:
  assumes "moduleInv m"
  shows "moduleInv (authStep ev m)"
proof (cases ev)
  case (Rotate v)
  with assms show ?thesis
    by (auto split: sum.splits elim!: applyAuthRotation_InrD intro: moduleInv_bundle)
next
  case (Bootstrap nowMs locks)
  with assms show ?thesis
    by (simp add: bootstrapAuthentication_def Let_def moduleInv_store moduleInv_tokenTriple
        moduleInv_refreshAuthentication split: option.split)
next
  case (TabEvent tab)
  with assms show ?thesis
    by (simp add: onAuthSessionEvent_def Let_def moduleInv_clear split: sync_kind.split)
qed (use assms in \<open>simp_all add: moduleInv_ops moduleInv_tokenTriple\<close>)

lemma reachable_moduleInv: "reachableAuth m \<Longrightarrow> moduleInv m"
proof (induction rule: reachableAuth.induct)
  case start
  show ?case by (simp add: moduleInv_def initialModule_def)
next
  case (step m ev)
  then show ?case by (blast intro: moduleInv_authStep)
qed

section \<open>How far a refresh can go\<close>

text \<open>An upper bound on the events still ahead of a refresh, and on the requests it still sends.\<close>

fun pcRank :: "refresh_pc \<Rightarrow> nat" where
  "pcRank NoRefresh = 0"
| "pcRank (AwaitLock e) = 16"
| "pcRank (AwaitResponse e race allow) = (if allow then 8 else 0) + 2 * (3 - race) + 1"
| "pcRank (RaceWait e race allow d) = (if allow then 8 else 0) + 2 * (3 - race)"

fun pcRequests :: "refresh_pc \<Rightarrow> nat" where
  "pcRequests NoRefresh = 0"
| "pcRequests (AwaitLock e) = 8"
| "pcRequests (AwaitResponse e race allow) = (if allow then 4 else 0) + (3 - race)"
| "pcRequests (RaceWait e race allow d) = (if allow then 4 else 0) + (3 - race)"

text \<open>Which events can occur in which state.\<close>

fun refreshEnabled :: "refresh_event \<Rightarrow> refresh_pc \<Rightarrow> bool" where
  "refreshEnabled LockGranted (AwaitLock e) = True"
| "refreshEnabled LockRejected (AwaitLock e) = True"
| "refreshEnabled (ResponseArrived r) (AwaitResponse e race allow) = True"
| "refreshEnabled DelayElapsed (RaceWait e race allow d) = True"
| "refreshEnabled _ _ = False"

lemma refreshStep_disabled: "\<not> refreshEnabled ev (refreshPromise m) \<Longrightarrow> refreshStep ev m = m"
  by (cases ev; cases "refreshPromise m") (simp_all add: refreshStep.simps)

lemma refreshStep_NoRefresh [simp]: "refreshPromise m = NoRefresh \<Longrightarrow> refreshStep ev m = m"
  by (rule refreshStep_disabled) simp

lemma pcRank_runStart: "race \<le> 3 \<Longrightarrow> pcRank (refreshPromise (runStart e race allow m)) \<le> (if allow then 8 else 0) + 2 * (3 - race) + 1"
  by (simp add: runStart_def)

lemma requests_runStart:
  "length (requests (runStart e race allow m)) + pcRequests (refreshPromise (runStart e race allow m))
     \<le> length (requests m) + 1 + (if allow then 4 else 0) + (3 - race)"
  by (simp add: runStart_def)

lemma length_refreshRaceDelays [simp]: "length refreshRaceDelays = 3"
  by (simp add: refreshRaceDelays_def)

text \<open>An answer ends the refresh, makes it wait once more, or makes it start over once.\<close>

lemma runResponse_next:
  "(refreshPromise (runResponse e race allow r m) = NoRefresh \<and>
      requests (runResponse e race allow r m) = requests m) \<or>
   (race < 3 \<and> refreshPromise (runResponse e race allow r m) = RaceWait e race allow (refreshRaceDelays ! race) \<and>
      requests (runResponse e race allow r m) = requests m) \<or>
   (allow \<and> refreshPromise (runResponse e race allow r m) = AwaitResponse e 0 False \<and>
      requests (runResponse e race allow r m) = requests m @ [None])"
  by (simp add: runResponse_def Let_def runStart_def sessionSID_def resetAuth_def)

lemma pcRank_runResponse:
  assumes "race \<le> 3"
  shows "pcRank (refreshPromise (runResponse e race allow r m)) <
      pcRank (AwaitResponse e race allow)"
    and "length (requests (runResponse e race allow r m)) +
        pcRequests (refreshPromise (runResponse e race allow r m)) \<le>
      length (requests m) + pcRequests (AwaitResponse e race allow)"
  using assms runResponse_next [of e race allow r m] by auto

lemma refreshStep_rank:
  assumes "pcRace (refreshPromise m)" and "refreshEnabled ev (refreshPromise m)"
  shows "pcRank (refreshPromise (refreshStep ev m)) < pcRank (refreshPromise m)"
    and "length (requests (refreshStep ev m)) + pcRequests (refreshPromise (refreshStep ev m)) \<le>
      length (requests m) + pcRequests (refreshPromise m)"
proof -
  have "pcRank (refreshPromise (refreshStep ev m)) < pcRank (refreshPromise m) \<and>
    length (requests (refreshStep ev m)) + pcRequests (refreshPromise (refreshStep ev m)) \<le>
      length (requests m) + pcRequests (refreshPromise m)"
    using assms pcRank_runResponse
    by (cases ev; cases "refreshPromise m") (auto simp: refreshStep.simps runStart_def)
  then show "pcRank (refreshPromise (refreshStep ev m)) < pcRank (refreshPromise m)"
    and "length (requests (refreshStep ev m)) + pcRequests (refreshPromise (refreshStep ev m)) \<le>
      length (requests m) + pcRequests (refreshPromise m)"
    by blast+
qed

lemma pcRank_bound: "pcRank pc \<le> 16"
  by (cases pc) auto

text \<open>Operations other than the refresh's own events do not touch a refresh in flight.\<close>

lemma authStep_refreshPromise:
  assumes "refreshPromise m \<noteq> NoRefresh" and "\<And>r. ev \<noteq> RefreshProgress r"
  shows "refreshPromise (authStep ev m) = refreshPromise m"
proof (cases ev)
  case (Rotate v)
  then show ?thesis by (auto split: sum.splits elim!: applyAuthRotation_InrD)
next
  case (Bootstrap nowMs locks)
  with assms show ?thesis
    by (simp add: bootstrapAuthentication_def refreshAuthentication_def Let_def split: option.split)
next
  case (TabEvent tab)
  then show ?thesis by (simp add: onAuthSessionEvent_def Let_def split: sync_kind.split)
qed (use assms in \<open>simp_all add: refreshAuthentication_def\<close>)

text \<open>How many events of its own the refresh in flight takes along a run, whatever else happens.\<close>

fun refreshProgress :: "auth_event list \<Rightarrow> auth_module \<Rightarrow> nat" where
  "refreshProgress [] m = 0"
| "refreshProgress (ev # evs) m =
     (if refreshPromise m = NoRefresh then 0
      else (case ev of RefreshProgress r \<Rightarrow> if refreshEnabled r (refreshPromise m) then 1 else 0 | _ \<Rightarrow> 0)
        + refreshProgress evs (authStep ev m))"

lemma refreshProgress_rank: "moduleInv m \<Longrightarrow> refreshProgress evs m \<le> pcRank (refreshPromise m)"
proof (induction evs arbitrary: m)
  case (Cons ev evs)
  have IH: "refreshProgress evs (authStep ev m) \<le> pcRank (refreshPromise (authStep ev m))"
    using Cons moduleInv_authStep by blast
  show ?case
  proof (cases "\<exists>r. ev = RefreshProgress r \<and> refreshEnabled r (refreshPromise m)")
    case True
    then obtain r where r: "ev = RefreshProgress r" "refreshEnabled r (refreshPromise m)" by blast
    moreover have "pcRace (refreshPromise m)" using Cons.prems by (simp add: moduleInv_def)
    ultimately have "pcRank (refreshPromise (authStep ev m)) < pcRank (refreshPromise m)"
      using refreshStep_rank(1) by simp
    with IH r show ?thesis by simp
  next
    case False
    then have "refreshPromise m \<noteq> NoRefresh \<Longrightarrow> refreshPromise (authStep ev m) = refreshPromise m"
      using authStep_refreshPromise refreshStep_disabled by (metis authStep.simps(8))
    with IH False show ?thesis by (auto split: auth_event.split)
  qed
qed simp

lemma fold_refreshStep_requests:
  assumes "moduleInv m"
  shows "length (requests (fold refreshStep evs m)) \<le> length (requests m) + pcRequests (refreshPromise m)"
  using assms
proof (induction evs arbitrary: m)
  case (Cons ev evs)
  have "length (requests (fold refreshStep evs (refreshStep ev m))) \<le>
      length (requests (refreshStep ev m)) + pcRequests (refreshPromise (refreshStep ev m))"
    using Cons moduleInv_refreshStep by blast
  also have "\<dots> \<le> length (requests m) + pcRequests (refreshPromise m)"
    using Cons.prems refreshStep_rank(2) refreshStep_disabled
    by (cases "refreshEnabled ev (refreshPromise m)") (auto simp: moduleInv_def)
  finally show ?case by simp
qed simp

section \<open>A refresh that another operation has overtaken\<close>

definition staleRefresh :: "auth_module \<Rightarrow> bool" where
  "staleRefresh m \<longleftrightarrow> refreshPromise m = NoRefresh \<or> pcEpoch (refreshPromise m) \<noteq> Some (authEpoch m)"

lemma staleRefresh_step:
  assumes "staleRefresh m"
  shows "store (refreshStep ev m) = store m \<and> published (refreshStep ev m) = published m \<and>
    authEpoch (refreshStep ev m) = authEpoch m \<and> staleRefresh (refreshStep ev m)"
  using assms
  by (cases ev; cases "refreshPromise m")
    (simp_all add: refreshStep.simps runStart_def runResponse_def staleRefresh_def)

lemma staleRefresh_run:
  "staleRefresh m \<Longrightarrow> store (fold refreshStep evs m) = store m \<and> published (fold refreshStep evs m) = published m"
proof (induction evs arbitrary: m)
  case (Cons ev evs)
  from Cons.IH [of "refreshStep ev m"] staleRefresh_step [OF Cons.prems, of ev]
  show ?case by simp
qed simp

lemma staleRefresh_bumped:
  assumes "moduleInv m" and "refreshPromise m' = refreshPromise m" and "authEpoch m' = Suc (authEpoch m)"
  shows "staleRefresh m'"
  using assms by (auto simp: staleRefresh_def moduleInv_def)

section \<open>Properties\<close>

text \<open>
  C12.  In every reachable state of the module, whatever logins, rotations, sign-outs, tab events
  and refresh answers led to it, the access token, its expiry and the login session are either
  all present or all absent.
\<close>

theorem auth_token_triple: "reachableAuth m \<Longrightarrow> tokenTriple (store m)"
  using reachable_moduleInv moduleInv_tokenTriple by blast

definition sampleSession :: LoginSession where
  "sampleSession =
     \<lparr>sid = ''s1'', current = True, login_method = ''password'', ip = ''10.0.0.1'',
      user_agent = ''test'', created_at = Fin 1, last_active_at = Fin 2, expires_at = Fin 9000\<rparr>"

definition sampleUser :: AuthUser where
  "sampleUser = \<lparr>uid = 7, username = ''ann'', role = Fin 1, user_value = JObj []\<rparr>"

definition sampleBundle :: AuthBundle where
  "sampleBundle =
     \<lparr>access_token = ''tok'', token_type = ''Bearer'', access_expires_at = 5000,
      bundle_user = sampleUser, bundle_session = sampleSession\<rparr>"

definition emptyResponse :: "nat \<Rightarrow> jsval \<Rightarrow> AuthRefreshHTTPResponse" where
  "emptyResponse st code =
     \<lparr>rsp_status = st, rsp_data = JObj [(''success'', JBool False), (''code'', code)], rsp_error = JUndef\<rparr>"

lemma reachable_login: "reachableAuth (authStep (Login b sync) initialModule)"
  by (rule reachableAuth.step [OF reachableAuth.start])

lemma reachable_refreshing:
  "reachableAuth (authStep (StartRefresh NoLocks) (authStep (Login b sync) initialModule))"
  by (rule reachableAuth.step [OF reachable_login])

theorem auth_token_triple_witness:
  "reachableAuth (authStep (Login sampleBundle True) initialModule) \<and>
   tokenTriple (store (authStep (Login sampleBundle True) initialModule)) \<and>
   accessToken (store (authStep (Login sampleBundle True) initialModule)) = Some ''tok''"
  using reachable_login auth_token_triple [OF reachable_login, of sampleBundle True]
  by (simp add: setBundle_def sampleBundle_def del: tokenTriple_store)

text \<open>
  C1.  A login or a sign-out overtakes a refresh in flight: from any reachable state, whatever
  answers, delays and lock events the old refresh still meets afterwards, it changes neither the
  new credentials nor the events sent to other tabs.
\<close>

theorem auth_refresh_superseded:
  assumes "reachableAuth m"
  shows "store (fold refreshStep evs (authStep (Login b sync) m)) = setBundle b (store m) \<and>
    store (fold refreshStep evs (authStep (SignOut sync) m)) = resetAuth Complete (store m) \<and>
    published (fold refreshStep evs (authStep (Login b sync) m)) = published (authStep (Login b sync) m) \<and>
    published (fold refreshStep evs (authStep (SignOut sync) m)) = published (authStep (SignOut sync) m)"
proof -
  note inv = reachable_moduleInv [OF assms]
  have "staleRefresh (authStep (Login b sync) m)" "staleRefresh (authStep (SignOut sync) m)"
    by (rule staleRefresh_bumped [OF inv]; simp)+
  then show ?thesis using staleRefresh_run by simp
qed

theorem auth_refresh_superseded_witness:
  "reachableAuth (authStep (StartRefresh NoLocks) (authStep (Login sampleBundle True) initialModule)) \<and>
   store (fold refreshStep [ResponseArrived (emptyResponse 401 JUndef)]
     (authStep (Login (sampleBundle\<lparr>access_token := ''new''\<rparr>) True)
       (authStep (StartRefresh NoLocks) (authStep (Login sampleBundle True) initialModule)))) =
   setBundle (sampleBundle\<lparr>access_token := ''new''\<rparr>)
     (store (authStep (StartRefresh NoLocks) (authStep (Login sampleBundle True) initialModule)))"
  using reachable_refreshing auth_refresh_superseded [OF reachable_refreshing] by blast

text \<open>
  C2.  A refresh always comes to an end: from any reachable state, whatever other operations are
  interleaved, it takes at most 16 events of its own, it is never stuck (some event of its own is
  always possible), and one refresh sends at most 8 requests.
\<close>

theorem auth_refresh_bounded:
  assumes "reachableAuth m"
  shows "refreshProgress evs m \<le> 16 \<and>
    (refreshPromise m = NoRefresh \<or> (\<exists>ev. refreshEnabled ev (refreshPromise m))) \<and>
    (refreshPromise m \<noteq> NoRefresh \<or>
      length (requests (fold refreshStep revs (refreshAuthentication locks m))) \<le> length (requests m) + 8)"
proof (intro conjI)
  note inv = reachable_moduleInv [OF assms]
  show "refreshProgress evs m \<le> 16"
    using refreshProgress_rank [OF inv] pcRank_bound order_trans by blast
  show "refreshPromise m = NoRefresh \<or> (\<exists>ev. refreshEnabled ev (refreshPromise m))"
    by (cases "refreshPromise m") (auto intro: refreshEnabled.simps(1,3,4) [THEN iffD2])
  have "length (requests (refreshAuthentication locks m)) + pcRequests (refreshPromise (refreshAuthentication locks m))
      \<le> length (requests m) + 8" if "refreshPromise m = NoRefresh"
    using that by (cases locks) (simp_all add: refreshAuthentication_def runStart_def)
  then show "refreshPromise m \<noteq> NoRefresh \<or>
      length (requests (fold refreshStep revs (refreshAuthentication locks m))) \<le> length (requests m) + 8"
    using fold_refreshStep_requests [OF moduleInv_refreshAuthentication [OF inv], of revs locks] by fastforce
qed

theorem auth_refresh_bounded_witness:
  "reachableAuth initialModule \<and>
   length (requests (fold refreshStep
      [ResponseArrived (emptyResponse 409 (JStr ''AUTH_SESSION_MISMATCH'')),
       ResponseArrived (emptyResponse 409 (JStr ''AUTH_REFRESH_RACE'')), DelayElapsed]
      (refreshAuthentication NoLocks initialModule))) \<le> length (requests initialModule) + 8"
  using reachableAuth.start auth_refresh_bounded [OF reachableAuth.start,
      where revs = "[ResponseArrived (emptyResponse 409 (JStr ''AUTH_SESSION_MISMATCH'')),
       ResponseArrived (emptyResponse 409 (JStr ''AUTH_REFRESH_RACE'')), DelayElapsed]" and locks = NoLocks]
  by (simp add: initialModule_def)



text \<open>
  C13.  The first session mismatch starts over: the stale session is dropped in this tab only,
  the refresh stays current (the epoch does not move), and the next request carries no session
  header.
\<close>

theorem auth_refresh_mismatch_retry:
  assumes "refreshPromise m = AwaitResponse (authEpoch m) race True"
    and "rsp_status r = 409" and "isRecord (rsp_data r)"
    and "jprop (rsp_data r) ''success'' \<noteq> JBool True"
    and "jprop (rsp_data r) ''code'' = JStr ''AUTH_SESSION_MISMATCH''"
  shows "refreshStep (ResponseArrived r) m =
    m\<lparr>store := resetAuth Idle (store m), requests := requests m @ [None],
      refreshPromise := AwaitResponse (authEpoch m) 0 False\<rparr>"
  using assms
  by (simp add: refreshStep.simps runResponse_def responseCode_def runStart_def runtimeClear_def sessionSID_def
      resetAuth_def)

theorem auth_refresh_mismatch_retry_witness:
  "requests (refreshStep (ResponseArrived (emptyResponse 409 (JStr ''AUTH_SESSION_MISMATCH'')))
     (authStep (StartRefresh NoLocks) (authStep (Login sampleBundle True) initialModule))) = [Some ''s1'', None]"
proof -
  let ?m = "authStep (StartRefresh NoLocks) (authStep (Login sampleBundle True) initialModule)"
  let ?r = "emptyResponse 409 (JStr ''AUTH_SESSION_MISMATCH'')"
  have 1: "refreshPromise ?m = AwaitResponse (authEpoch ?m) 0 True"
    by (simp add: refreshAuthentication_def runStart_def initialModule_def)
  have 2: "rsp_status ?r = 409" "isRecord (rsp_data ?r)" "jprop (rsp_data ?r) ''success'' \<noteq> JBool True"
    "jprop (rsp_data ?r) ''code'' = JStr ''AUTH_SESSION_MISMATCH''"
    by (simp_all add: emptyResponse_def isRecord_def)
  have "requests ?m = [Some ''s1'']"
    by (simp add: refreshAuthentication_def runStart_def initialModule_def sessionSID_def setBundle_def
        sampleBundle_def sampleSession_def)
  with auth_refresh_mismatch_retry [OF 1 2] show ?thesis by simp
qed


definition sampleRotation :: jsval where
  "sampleRotation =
     JObj [(''access_token'', JStr ''tok2''), (''token_type'', JStr ''Bearer''),
       (''access_expires_at'', JNum (Fin 6000)),
       (''session'', JObj [(''sid'', JStr ''s1''), (''current'', JBool True),
          (''login_method'', JStr ''password''), (''ip'', JStr []), (''user_agent'', JStr []),
          (''created_at'', JNum (Fin 1)), (''last_active_at'', JNum (Fin 2)), (''expires_at'', JNum (Fin 3))])]"


text \<open>
  C16.  Request headers.  Without a refresh they are returned only for a token that stays valid
  for more than a minute.  After a refresh that did not authenticate they carry a token that has
  not expired; otherwise the call fails, as a failed request after a transient error and as an
  expired session in every other case.
\<close>

theorem auth_fresh_headers:
  "(\<forall>h. freshHeadersStart nowMs m = Some h \<longrightarrow>
      (\<exists>tok expires. accessToken (store m) = Some tok \<and> accessExpiresAt (store m) = Some expires \<and>
         nowSeconds nowMs + 60 < expires \<and> om_get h ''Authorization'' = Some (''Bearer '' @ tok))) \<and>
   (\<forall>h. freshHeadersFinish nowMs out m = Inr h \<longrightarrow> (\<forall>b. out \<noteq> Authenticated b) \<longrightarrow>
      (\<exists>tok expires. accessToken (store m) = Some tok \<and> accessExpiresAt (store m) = Some expires \<and>
         nowSeconds nowMs < expires \<and> om_get h ''Authorization'' = Some (''Bearer '' @ tok))) \<and>
   (\<forall>e. freshHeadersFinish nowMs out m = Inl e \<longrightarrow>
      (case e of RequestFailed err \<Rightarrow> out = TransientError err
               | SessionExpired \<Rightarrow> out = Anonymous \<or> (\<exists>c. out = OutOfSync c)))"
proof -
  have headers: "tokenValidAfter t m \<Longrightarrow>
      (\<exists>tok expires. accessToken (store m) = Some tok \<and> accessExpiresAt (store m) = Some expires \<and>
         t < expires \<and> om_get (getCommonHeaders m) ''Authorization'' = Some (''Bearer '' @ tok))" for t
    by (auto simp: tokenValidAfter_def getCommonHeaders_def Let_def om_get_def split: option.splits)
  show ?thesis
    using headers [of "nowSeconds nowMs + 60"] headers [of "nowSeconds nowMs"]
    by (auto simp: freshHeadersStart_def freshHeadersFinish_def split: if_splits RefreshOutcome.splits header_error.splits)
qed

theorem auth_fresh_headers_witness:
  "freshHeadersStart 4000000 (authStep (Login sampleBundle True) initialModule) \<noteq> None \<and>
   (\<exists>tok expires. accessToken (store (authStep (Login sampleBundle True) initialModule)) = Some tok \<and>
     accessExpiresAt (store (authStep (Login sampleBundle True) initialModule)) = Some expires \<and>
     nowSeconds 4000000 + 60 < expires)"
proof -
  let ?m = "authStep (Login sampleBundle True) initialModule"
  have "freshHeadersStart 4000000 ?m = Some (getCommonHeaders ?m)"
    by (simp add: freshHeadersStart_def tokenValidAfter_def setBundle_def sampleBundle_def nowSeconds_def)
  with auth_fresh_headers [of 4000000 ?m Anonymous] show ?thesis by auto
qed

text \<open>
  C15.  Signing out in one tab.  The event reaches every other tab within a minute and never the
  tab that sent it.  A tab with the same session drops it, goes to the sign-in page and publishes
  nothing in turn; a tab with another session is not touched.
\<close>

theorem auth_sign_out_tabs:
  assumes "s \<noteq> []" and "source' \<noteq> source" and "\<bar>t' - t\<bar> < 60000" and "sessionSID m = Some s'"
  shows "deliverSyncEvent source t' (syncEventValue SyncSignedOut s source nonce t) = None \<and>
    (\<exists>ev. deliverSyncEvent source' t' (syncEventValue SyncSignedOut s source nonce t) = Some ev \<and>
       (if s' = s
        then fst (onAuthSessionEvent ev m) = GoToSignIn \<and>
          store (snd (onAuthSessionEvent ev m)) = resetAuth Complete (store m) \<and>
          published (snd (onAuthSessionEvent ev m)) = published m
        else onAuthSessionEvent ev m = (NoEffect, m)))"
  using assms
  by (auto simp: deliverSyncEvent_def isAuthSessionSyncEvent_def syncEventValue_def toSyncEvent_def onAuthSessionEvent_def)

theorem auth_sign_out_tabs_witness:
  "\<exists>ev. deliverSyncEvent ''tabB'' 1500 (syncEventValue SyncSignedOut ''s1'' ''tabA'' ''n'' 1000) = Some ev \<and>
     fst (onAuthSessionEvent ev (authStep (Login sampleBundle True) initialModule)) = GoToSignIn"
proof -
  have "sessionSID (authStep (Login sampleBundle True) initialModule) = Some ''s1''"
    by (simp add: sessionSID_def setBundle_def sampleBundle_def sampleSession_def)
  from auth_sign_out_tabs [where source = "''tabA''" and source' = "''tabB''" and t = 1000 and t' = 1500
      and nonce = "''n''" and s = "''s1''", OF _ _ _ this]
  show ?thesis by auto
qed

end
