(* ===== verification/Flow_Paths.thy ===== *)
theory Flow_Paths
  imports Js_Collections
begin

text \<open>
  The first half of \<open>web/src/features/dashboard/lib/flow.ts\<close>: from a row of usage data to its path
  through the columns of the Sankey diagram, the columns a role may see, and the filters on rows.

  Identifiers of users, tokens and channels are integers; quota, tokens and request counts are
  rationals; an absent property is \<open>None\<close>.  \<open>x || d\<close> on strings takes the default for an absent
  and for an empty string.
\<close>

section \<open>Data\<close>

datatype FlowMetric = QuotaMetric | TokensMetric | RequestsMetric

datatype FlowOverflowMode = Aggregate | Hide

datatype FlowRole = UserRole | AdminRole | RootRole

datatype FlowNodeKind = UserKind | NodeKind | TokenKind | GroupKind | ModelKind | ChannelKind

record FlowQuotaDataItem =
  user_id :: "int option"
  row_username :: "string option"
  node_name :: "string option"
  use_group :: "string option"
  token_id :: "int option"
  token_name :: "string option"
  channel_id :: "int option"
  channel_name :: "string option"
  model_name :: "string option"
  token_used :: "rat option"
  row_count :: "rat option"
  row_quota :: "rat option"

record FlowMetrics =
  fm_quota :: rat
  fm_tokens :: rat
  fm_requests :: rat

record FlowPathNode =
  fp_id :: string
  fp_label :: string
  fp_kind :: FlowNodeKind

record FlowNodeFilter =
  nf_kind :: FlowNodeKind
  nf_id :: string

record FlowLinkSelection =
  ls_source :: string
  ls_target :: string

text \<open>\<open>FlowPathContext\<close>: how to label a token whose record is gone.\<close>

type_synonym FlowPathContext = "(int \<Rightarrow> string) option"

fun kindName :: "FlowNodeKind \<Rightarrow> string" where
  "kindName UserKind = ''user''"
| "kindName NodeKind = ''node''"
| "kindName TokenKind = ''token''"
| "kindName GroupKind = ''group''"
| "kindName ModelKind = ''model''"
| "kindName ChannelKind = ''channel''"

section \<open>Rows and their metrics\<close>

definition numberValue :: "'n::zero option \<Rightarrow> 'n" where
  "numberValue x = (case x of Some n \<Rightarrow> n | None \<Rightarrow> 0)"

definition str_or :: "string option \<Rightarrow> string \<Rightarrow> string" where
  "str_or x d = (case x of Some s \<Rightarrow> if s = [] then d else s | None \<Rightarrow> d)"

definition rowMetrics :: "FlowQuotaDataItem \<Rightarrow> FlowMetrics" where
  "rowMetrics row =
     \<lparr>fm_quota = numberValue (row_quota row), fm_tokens = numberValue (token_used row),
      fm_requests = numberValue (row_count row)\<rparr>"

definition metricValue :: "FlowMetrics \<Rightarrow> FlowMetric \<Rightarrow> rat" where
  "metricValue metrics metric =
     (if metric = RequestsMetric then fm_requests metrics
      else if metric = TokensMetric then fm_tokens metrics
      else fm_quota metrics)"

section \<open>The node of a row in each column\<close>

definition userNode :: "FlowQuotaDataItem \<Rightarrow> FlowPathNode" where
  "userNode row =
     (let userID = numberValue (user_id row) in
      \<lparr>fp_id = (if 0 < userID then ''user:'' @ int_str userID
                else ''user:'' @ str_or (row_username row) ''unknown''),
       fp_label = str_or (row_username row)
          (if 0 < userID then ''user-'' @ int_str userID else ''Unknown User''),
       fp_kind = UserKind\<rparr>)"

definition nodeNameNode :: "FlowQuotaDataItem \<Rightarrow> FlowPathNode" where
  "nodeNameNode row =
     (let nodeName = str_or (node_name row) ''default-node'' in
      \<lparr>fp_id = ''node:'' @ nodeName, fp_label = nodeName, fp_kind = NodeKind\<rparr>)"

definition deletedTokenLabel :: "int \<Rightarrow> FlowPathContext \<Rightarrow> string" where
  "deletedTokenLabel tokenID ctx =
     (if tokenID \<le> 0 then ''Unknown Token''
      else case ctx of Some f \<Rightarrow> f tokenID | None \<Rightarrow> ''token-'' @ int_str tokenID)"

definition tokenNode :: "FlowQuotaDataItem \<Rightarrow> FlowPathContext \<Rightarrow> FlowPathNode" where
  "tokenNode row ctx =
     (let tokenID = numberValue (token_id row) in
      \<lparr>fp_id = (if 0 < tokenID then ''token:'' @ int_str tokenID
                else ''token:'' @ str_or (token_name row) ''unknown''),
       fp_label = str_or (token_name row) (deletedTokenLabel tokenID ctx),
       fp_kind = TokenKind\<rparr>)"

definition groupNode :: "FlowQuotaDataItem \<Rightarrow> FlowPathNode" where
  "groupNode row =
     (let useGroup = str_or (use_group row) ''unknown'' in
      \<lparr>fp_id = ''group:'' @ useGroup, fp_label = useGroup, fp_kind = GroupKind\<rparr>)"

definition modelNode :: "FlowQuotaDataItem \<Rightarrow> FlowPathNode" where
  "modelNode row =
     \<lparr>fp_id = ''model:'' @ str_or (model_name row) ''unknown'',
      fp_label = str_or (model_name row) ''Unknown Model'', fp_kind = ModelKind\<rparr>"

definition channelNode :: "FlowQuotaDataItem \<Rightarrow> FlowPathNode" where
  "channelNode row =
     (let channelID = numberValue (channel_id row) in
      \<lparr>fp_id = (if 0 < channelID then ''channel:'' @ int_str channelID
                else ''channel:'' @ str_or (channel_name row) ''unknown''),
       fp_label = str_or (channel_name row)
          (if 0 < channelID then ''channel-'' @ int_str channelID else ''Unknown''),
       fp_kind = ChannelKind\<rparr>)"

fun NODE_BUILDERS :: "FlowNodeKind \<Rightarrow> FlowQuotaDataItem \<Rightarrow> FlowPathContext \<Rightarrow> FlowPathNode" where
  "NODE_BUILDERS UserKind row ctx = userNode row"
| "NODE_BUILDERS NodeKind row ctx = nodeNameNode row"
| "NODE_BUILDERS TokenKind row ctx = tokenNode row ctx"
| "NODE_BUILDERS GroupKind row ctx = groupNode row"
| "NODE_BUILDERS ModelKind row ctx = modelNode row"
| "NODE_BUILDERS ChannelKind row ctx = channelNode row"

section \<open>The columns\<close>

fun getFlowStages :: "FlowRole \<Rightarrow> FlowNodeKind list" where
  "getFlowStages RootRole = [UserKind, NodeKind, TokenKind, GroupKind, ModelKind, ChannelKind]"
| "getFlowStages AdminRole = [UserKind, GroupKind, ModelKind, ChannelKind]"
| "getFlowStages UserRole = [TokenKind, GroupKind, ModelKind]"

definition MIN_FLOW_STAGES :: nat where
  "MIN_FLOW_STAGES = 2"

definition resolveVisibleStages :: "FlowRole \<Rightarrow> FlowNodeKind list option \<Rightarrow> FlowNodeKind list" where
  "resolveVisibleStages role visibleStages =
     (let stages = getFlowStages role in
      case visibleStages of
        None \<Rightarrow> stages
      | Some visible \<Rightarrow>
          let filtered = filter (\<lambda>stage. stage \<in> set visible) stages in
          if MIN_FLOW_STAGES \<le> length filtered then filtered else stages)"

definition flowPathForStages ::
  "FlowQuotaDataItem \<Rightarrow> FlowNodeKind list \<Rightarrow> FlowPathContext \<Rightarrow> FlowPathNode list" where
  "flowPathForStages row stages ctx = map (\<lambda>stage. NODE_BUILDERS stage row ctx) stages"

section \<open>Filters on rows\<close>

definition filterRows :: "FlowQuotaDataItem list \<Rightarrow> string list option \<Rightarrow> FlowQuotaDataItem list" where
  "filterRows rows selectedUsers =
     (let selected = os_of (case selectedUsers of Some xs \<Rightarrow> xs | None \<Rightarrow> []) in
      if selected = [] then rows else filter (\<lambda>row. fp_id (userNode row) \<in> set selected) rows)"

definition normalizeSelectedNodeFilters ::
  "FlowNodeFilter list option \<Rightarrow> FlowNodeKind list \<Rightarrow> (FlowNodeKind, string list) omap" where
  "normalizeSelectedNodeFilters selectedNodes stages =
     fold (\<lambda>f filters.
         if nf_kind f \<notin> set stages then filters
         else
           let selected = (case om_get filters (nf_kind f) of Some s \<Rightarrow> s | None \<Rightarrow> []) in
           om_set (nf_kind f) (os_add selected (nf_id f)) filters)
       (case selectedNodes of Some xs \<Rightarrow> xs | None \<Rightarrow> []) []"

definition pathNodesByKind :: "FlowPathNode list \<Rightarrow> (FlowNodeKind, string list) omap" where
  "pathNodesByKind path =
     fold (\<lambda>n m. om_set (fp_kind n)
         (os_add (case om_get m (fp_kind n) of Some s \<Rightarrow> s | None \<Rightarrow> []) (fp_id n)) m) path []"

definition pathMatchesNodeFilters ::
  "FlowPathNode list \<Rightarrow> (FlowNodeKind, string list) omap \<Rightarrow> bool" where
  "pathMatchesNodeFilters path filters =
     (if filters = [] then True
      else
        let byKind = pathNodesByKind path in
        list_all (\<lambda>(kind, selectedIds).
          case om_get byKind kind of
            None \<Rightarrow> False
          | Some pathIds \<Rightarrow> list_ex (\<lambda>i. i \<in> set pathIds) selectedIds) filters)"

definition filterRowsByNodes ::
  "FlowQuotaDataItem list \<Rightarrow> FlowNodeFilter list option \<Rightarrow> FlowNodeKind list \<Rightarrow> FlowPathContext \<Rightarrow>
   FlowQuotaDataItem list" where
  "filterRowsByNodes rows selectedNodes stages ctx =
     (let filters = normalizeSelectedNodeFilters selectedNodes stages in
      if filters = [] then rows
      else filter (\<lambda>row. pathMatchesNodeFilters (flowPathForStages row stages ctx) filters) rows)"

definition selectedNodeFiltersExceptKind ::
  "FlowNodeFilter list option \<Rightarrow> FlowNodeKind \<Rightarrow> FlowNodeFilter list option" where
  "selectedNodeFiltersExceptKind selectedNodes kind =
     (let filtered = filter (\<lambda>f. nf_kind f \<noteq> kind) (case selectedNodes of Some xs \<Rightarrow> xs | None \<Rightarrow> []) in
      if filtered \<noteq> [] then Some filtered else None)"

section \<open>Nodes and columns\<close>

lemma fp_kind_builder [simp]: "fp_kind (NODE_BUILDERS k row ctx) = k"
  by (cases k)
    (simp_all add: userNode_def nodeNameNode_def tokenNode_def groupNode_def modelNode_def channelNode_def Let_def)

text \<open>An identifier starts with the name of its column and a colon, so it belongs to one column.\<close>

definition idOfKind :: "FlowNodeKind \<Rightarrow> string \<Rightarrow> bool" where
  "idOfKind k i \<longleftrightarrow> prefix (kindName k @ '':'') i"

lemma idOfKind_unique: "idOfKind k i \<Longrightarrow> idOfKind k' i \<Longrightarrow> k = k'"
  by (cases k; cases k') (auto simp: idOfKind_def prefix_def)

lemma idOfKind_builder: "idOfKind k (fp_id (NODE_BUILDERS k row ctx))"
  by (cases k)
    (simp_all add: idOfKind_def userNode_def nodeNameNode_def tokenNode_def groupNode_def modelNode_def
      channelNode_def Let_def)

lemma map_fp_kind_path [simp]: "map fp_kind (flowPathForStages row stages ctx) = stages"
  by (simp add: flowPathForStages_def comp_def)

lemma distinct_getFlowStages: "distinct (getFlowStages role)"
  by (cases role) auto

lemma distinct_resolveVisibleStages: "distinct (resolveVisibleStages role visible)"
  by (simp add: resolveVisibleStages_def Let_def distinct_getFlowStages split: option.split)

lemma length_resolveVisibleStages: "2 \<le> length (resolveVisibleStages role visible)"
proof -
  have "2 \<le> length (getFlowStages role)" by (cases role) auto
  then show ?thesis by (simp add: resolveVisibleStages_def Let_def MIN_FLOW_STAGES_def split: option.split)
qed

lemma resolveVisibleStages_subset: "set (resolveVisibleStages role visible) \<subseteq> set (getFlowStages role)"
  by (auto simp: resolveVisibleStages_def Let_def split: option.splits if_splits)

text \<open>The strings of a row, and rows in which none of them has the separator character.\<close>

definition nul :: char where
  "nul = CHR 0x00"

definition cleanString :: "string option \<Rightarrow> bool" where
  "cleanString x = (case x of Some s \<Rightarrow> nul \<notin> set s | None \<Rightarrow> True)"

definition cleanRow :: "FlowQuotaDataItem \<Rightarrow> bool" where
  "cleanRow row \<longleftrightarrow>
     cleanString (row_username row) \<and> cleanString (node_name row) \<and> cleanString (use_group row) \<and>
     cleanString (token_name row) \<and> cleanString (channel_name row) \<and> cleanString (model_name row)"

lemma nul_int_str: "nul \<notin> set (int_str i)"
proof -
  have "nul \<notin> set (nat_str n)" for n
    using nat_str_digits [of nul n] by (auto simp: nul_def is_digit_def)
  then show ?thesis by (simp add: int_str_def) (simp add: nul_def)
qed

lemma nul_str_or: "cleanString x \<Longrightarrow> nul \<notin> set d \<Longrightarrow> nul \<notin> set (str_or x d)"
  by (auto simp: cleanString_def str_or_def split: option.splits)

lemma nul_builder: "cleanRow row \<Longrightarrow> nul \<notin> set (fp_id (NODE_BUILDERS k row ctx))"
  using nul_int_str [unfolded nul_def] nul_str_or [unfolded nul_def]
  by (cases k)
    (auto simp: userNode_def nodeNameNode_def tokenNode_def groupNode_def modelNode_def channelNode_def
      Let_def cleanRow_def nul_def)

section \<open>What the filters keep\<close>

lemma set_pathNodesByKind:
  "(case om_get (pathNodesByKind path) k of Some s \<Rightarrow> set s | None \<Rightarrow> {}) = fp_id ` {n \<in> set path. fp_kind n = k} \<and>
   (om_get (pathNodesByKind path) k = None \<longleftrightarrow> (\<forall>n \<in> set path. fp_kind n \<noteq> k))"
proof (induction path rule: rev_induct)
  case Nil
  then show ?case by (simp add: pathNodesByKind_def om.get_empty)
next
  case (snoc n path)
  then show ?case
    by (auto simp: pathNodesByKind_def om.get_put split: option.splits)
qed

lemma pathMatches_iff:
  "pathMatchesNodeFilters path filters \<longleftrightarrow>
     (\<forall>(k, ids) \<in> set filters. \<exists>n \<in> set path. fp_kind n = k \<and> fp_id n \<in> set ids)"
proof -
  have "(case om_get (pathNodesByKind path) k of None \<Rightarrow> False | Some p \<Rightarrow> list_ex (\<lambda>i. i \<in> set p) ids) \<longleftrightarrow>
      (\<exists>n \<in> set path. fp_kind n = k \<and> fp_id n \<in> set ids)" for k ids
    using set_pathNodesByKind [of path k]
    by (cases "om_get (pathNodesByKind path) k") (auto simp: list_ex_iff)
  then show ?thesis
    by (auto simp: pathMatchesNodeFilters_def Let_def list_all_iff)
qed

lemma normalizeSelected_iff:
  "(\<exists>ids. om_get (normalizeSelectedNodeFilters (Some fs) stages) k = Some ids \<and> i \<in> set ids) \<longleftrightarrow>
     k \<in> set stages \<and> (\<exists>f \<in> set fs. nf_kind f = k \<and> nf_id f = i)"
proof (induction fs rule: rev_induct)
  case Nil
  then show ?case by (simp add: normalizeSelectedNodeFilters_def om.get_empty)
next
  case (snoc f fs)
  then show ?case
    by (auto simp: normalizeSelectedNodeFilters_def Let_def om.get_put split: option.splits)
qed

lemma normalizeSelected_keys:
  "distinct (om_keys (normalizeSelectedNodeFilters fs stages))"
proof (cases fs)
  case None
  then show ?thesis by (simp add: normalizeSelectedNodeFilters_def om_keys_def)
next
  case (Some xs)
  have "distinct (om_keys (fold (\<lambda>f filters.
         if nf_kind f \<notin> set stages then filters
         else
           let selected = (case om_get filters (nf_kind f) of Some s \<Rightarrow> s | None \<Rightarrow> []) in
           om_set (nf_kind f) (os_add selected (nf_id f)) filters) xs []))"
    by (induction xs rule: rev_induct) (simp_all add: om_keys_def [of "[]"] distinct_om_set Let_def)
  with Some show ?thesis by (simp add: normalizeSelectedNodeFilters_def)
qed

lemma normalizeSelected_nonempty:
  "om_get (normalizeSelectedNodeFilters (Some fs) stages) k = Some ids \<Longrightarrow> ids \<noteq> []"
proof (induction fs arbitrary: ids rule: rev_induct)
  case Nil
  then show ?case by (simp add: normalizeSelectedNodeFilters_def om.get_empty)
next
  case (snoc f fs)
  then show ?case
    by (auto simp: normalizeSelectedNodeFilters_def Let_def om.get_put os_add_def split: if_splits option.splits)
qed

end
