(* ===== verification/Flow_Graph.thy ===== *)
theory Flow_Graph
  imports Flow_Paths
begin

text \<open>
  The second half of \<open>web/src/features/dashboard/lib/flow.ts\<close>: the graph of the Sankey diagram built
  from the paths of the rows (aggregation into nodes and links, the limit on the nodes of a column,
  masking, highlighting, colours, shares), its summary and its filter options.

  What the code takes from elsewhere is a field of \<open>FlowEnv\<close>: the chart palette of the third-party
  chart library (\<open>getDashboardChartColors\<close>), the collation of the user's locale
  (\<open>String.prototype.localeCompare\<close>) and the number format of the user's locale
  (\<open>Intl.NumberFormat\<close>).
\<close>

section \<open>Data\<close>

record FlowEnv =
  fe_colors :: "nat \<Rightarrow> string list"
  fe_compare :: "string \<Rightarrow> string \<Rightarrow> int"
  fe_format :: "rat \<Rightarrow> string"

record DashboardFlowNode =
  dn_id :: string
  dn_label :: string
  dn_kind :: FlowNodeKind
  dn_value :: rat
  dn_requests :: rat
  dn_quota :: rat
  dn_tokens :: rat
  dn_color :: string
  dn_colorKey :: string
  dn_highlighted :: "bool option"
  dn_dimmed :: "bool option"

record DashboardFlowLink =
  dl_source :: string
  dl_target :: string
  dl_value :: rat
  dl_requests :: rat
  dl_quota :: rat
  dl_tokens :: rat
  dl_sourceLabel :: string
  dl_targetLabel :: string
  dl_color :: string
  dl_linkColor :: string
  dl_linkAlpha :: rat
  dl_hoverColor :: string
  dl_colorKey :: string
  dl_share :: rat
  dl_highlighted :: "bool option"
  dl_dimmed :: "bool option"

record DashboardFlowGraph =
  fg_nodes :: "DashboardFlowNode list"
  fg_links :: "DashboardFlowLink list"

record FlowSummary =
  su_quota :: rat
  su_tokens :: rat
  su_requests :: rat

record FlowNodeRank =
  rk_node :: FlowPathNode
  rk_value :: rat

record PreparedFlowPath =
  pp_path :: "FlowPathNode list"
  pp_metrics :: FlowMetrics

record FlowHighlightSets =
  hs_nodes :: "string list"
  hs_links :: "string list"

type_synonym OtherNodeLabel = "(FlowNodeKind \<Rightarrow> string) option"

record FlowGraphOptions =
  go_topNodeLimit :: "jsnum option"
  go_overflowMode :: "FlowOverflowMode option"
  go_otherNodeLabel :: OtherNodeLabel
  go_activeNode :: "FlowNodeFilter option"
  go_activeLink :: "FlowLinkSelection option"
  go_maskSensitive :: bool

section \<open>Colours\<close>

definition DEFAULT_FLOW_CHART_COLOR :: string where
  "DEFAULT_FLOW_CHART_COLOR = ''#1664FF''"

definition has_palette :: "string list option \<Rightarrow> bool" where
  "has_palette palette = (case palette of Some p \<Rightarrow> p \<noteq> [] | None \<Rightarrow> False)"

definition colorAt :: "FlowEnv \<Rightarrow> nat \<Rightarrow> string list option \<Rightarrow> string" where
  "colorAt env index palette =
     (let colors = (if has_palette palette then the palette else fe_colors env (index + 1)) in
      if colors = [] then DEFAULT_FLOW_CHART_COLOR else colors ! (index mod length colors))"

definition colorPalette :: "FlowEnv \<Rightarrow> nat \<Rightarrow> string list option \<Rightarrow> string list" where
  "colorPalette env colorCount palette =
     (if has_palette palette then the palette
      else
        let colors = fe_colors env colorCount in
        if colors \<noteq> [] then colors else [DEFAULT_FLOW_CHART_COLOR])"

definition hex_val :: "char \<Rightarrow> nat option" where
  "hex_val c =
     (let n = of_char c in
      if 48 \<le> n \<and> n \<le> 57 then Some (n - 48)
      else if 97 \<le> n \<and> n \<le> 102 then Some (n - 87)
      else if 65 \<le> n \<and> n \<le> 70 then Some (n - 55)
      else None)"

text \<open>\<open>toFixed(2)\<close> of a non-negative number.\<close>

definition to_fixed2 :: "rat \<Rightarrow> string" where
  "to_fixed2 x =
     (let n = nat \<lfloor>x * 100 + 1 / 2\<rfloor>; cents = n mod 100 in
      nat_str (n div 100) @ ''.'' @ (if cents < 10 then ''0'' else []) @ nat_str cents)"

definition alphaColor :: "string \<Rightarrow> rat \<Rightarrow> string \<times> rat" where
  "alphaColor color alpha =
     (let normalized = js_trim color;
          hex = (if prefix ''#'' normalized then tl normalized else normalized) in
      if \<not> (length hex = 6 \<and> list_all (\<lambda>c. hex_val c \<noteq> None) hex) then (normalized, alpha)
      else
        let digit = (\<lambda>c. case hex_val c of Some d \<Rightarrow> d | None \<Rightarrow> 0);
            val = foldl (\<lambda>v c. 16 * v + digit c) 0 hex;
            red = val div 2 ^ 16 mod 256;
            green = val div 2 ^ 8 mod 256;
            blue = val mod 256 in
        (''rgba('' @ nat_str red @ '', '' @ nat_str green @ '', '' @ nat_str blue @ '', '' @
           to_fixed2 alpha @ '')'', 1))"

definition stableColorMap ::
  "FlowEnv \<Rightarrow> string list \<Rightarrow> string list option \<Rightarrow> (string, string) omap" where
  "stableColorMap env keys palette =
     (let uniqueKeys = os_of keys;
          colors = colorPalette env (length uniqueKeys) palette in
      fold (\<lambda>(index, key) m. om_set key (colorAt env index (Some colors)) m) (enumerate 0 uniqueKeys) [])"

section \<open>Nodes and links of the graph\<close>

definition addNode ::
  "FlowPathNode \<Rightarrow> FlowMetrics \<Rightarrow> FlowMetric \<Rightarrow> string \<Rightarrow> string \<Rightarrow>
   (string, DashboardFlowNode) omap \<Rightarrow> (string, DashboardFlowNode) omap" where
  "addNode pathNode metrics metric color colorKey m =
     (let previous = (case om_get m (fp_id pathNode) of
              Some n \<Rightarrow> n
            | None \<Rightarrow>
                \<lparr>dn_id = fp_id pathNode, dn_label = fp_label pathNode, dn_kind = fp_kind pathNode,
                 dn_value = 0, dn_requests = 0, dn_quota = 0, dn_tokens = 0,
                 dn_color = color, dn_colorKey = colorKey, dn_highlighted = None, dn_dimmed = None\<rparr>) in
      om_set (fp_id pathNode)
        (previous\<lparr>dn_value := dn_value previous + metricValue metrics metric,
                  dn_requests := dn_requests previous + fm_requests metrics,
                  dn_quota := dn_quota previous + fm_quota metrics,
                  dn_tokens := dn_tokens previous + fm_tokens metrics\<rparr>) m)"

definition linkKey :: "string \<Rightarrow> string \<Rightarrow> string" where
  "linkKey source target = source @ [nul] @ target"

definition linkStableKey :: "DashboardFlowLink \<Rightarrow> string" where
  "linkStableKey link = linkKey (dl_source link) (dl_target link)"

definition pathLinkKey :: "FlowPathNode \<Rightarrow> FlowPathNode \<Rightarrow> string" where
  "pathLinkKey source target = linkKey (fp_id source) (fp_id target)"

definition addLink ::
  "FlowPathNode \<Rightarrow> FlowPathNode \<Rightarrow> FlowMetrics \<Rightarrow> FlowMetric \<Rightarrow> string \<Rightarrow> string \<Rightarrow>
   (string, DashboardFlowLink) omap \<Rightarrow> (string, DashboardFlowLink) omap" where
  "addLink source target metrics metric color colorKey m =
     (let key = linkKey (fp_id source) (fp_id target);
          previous = (case om_get m key of
              Some l \<Rightarrow> l
            | None \<Rightarrow>
                \<lparr>dl_source = fp_id source, dl_target = fp_id target,
                 dl_value = 0, dl_requests = 0, dl_quota = 0, dl_tokens = 0,
                 dl_sourceLabel = fp_label source, dl_targetLabel = fp_label target,
                 dl_color = color, dl_linkColor = color, dl_linkAlpha = 1, dl_hoverColor = color,
                 dl_colorKey = colorKey, dl_share = 0, dl_highlighted = None, dl_dimmed = None\<rparr>) in
      om_set key
        (previous\<lparr>dl_value := dl_value previous + metricValue metrics metric,
                  dl_requests := dl_requests previous + fm_requests metrics,
                  dl_quota := dl_quota previous + fm_quota metrics,
                  dl_tokens := dl_tokens previous + fm_tokens metrics\<rparr>) m)"

text \<open>The sources share the link objects between the map and the arrays; the assignment of colours
  is therefore looked up by the key that identifies a link.\<close>

definition linkRank :: "FlowEnv \<Rightarrow> DashboardFlowLink \<Rightarrow> DashboardFlowLink \<Rightarrow> int" where
  "linkRank env a b =
     cmp_or (by_key_desc dl_value a b) (fe_compare env (linkStableKey a) (linkStableKey b))"

definition displayColors :: "DashboardFlowLink list \<Rightarrow> (string \<times> DashboardFlowLink) list" where
  "displayColors sortedLinks =
     (let denominator = max (length sortedLinks - 1) 1 in
      map (\<lambda>(index, link).
          let alpha = (if length sortedLinks = 1 then 34 / 100
                       else 24 / 100 + of_nat index / of_nat denominator * (2 / 10));
              displayColor = alphaColor (dl_color link) alpha in
          (linkStableKey link,
           link\<lparr>dl_linkColor := fst displayColor, dl_linkAlpha := snd displayColor,
                dl_hoverColor := dl_color link\<rparr>))
        (enumerate 0 sortedLinks))"

definition assignLinkDisplayColors :: "FlowEnv \<Rightarrow> DashboardFlowLink list \<Rightarrow> DashboardFlowLink list" where
  "assignLinkDisplayColors env links =
     (let linksBySource = fold (\<lambda>link m.
            om_set (dl_source link)
              ((case om_get m (dl_source link) of Some ls \<Rightarrow> ls | None \<Rightarrow> []) @ [link]) m) links [];
          assigned = concat (map (\<lambda>sourceLinks. displayColors (js_sort (linkRank env) sourceLinks))
            (om_values linksBySource)) in
      map (\<lambda>link. case map_of assigned (linkStableKey link) of Some l \<Rightarrow> l | None \<Rightarrow> link) links)"

definition byValueThenLabel :: "FlowEnv \<Rightarrow> DashboardFlowNode \<Rightarrow> DashboardFlowNode \<Rightarrow> int" where
  "byValueThenLabel env a b =
     cmp_or (by_key_desc dn_value a b) (fe_compare env (dn_label a) (dn_label b))"

text \<open>\<open>Number(flag)\<close> of an optional flag: the difference with an absent flag is \<open>NaN\<close>, which is falsy.\<close>

definition flag_cmp :: "bool option \<Rightarrow> bool option \<Rightarrow> int" where
  "flag_cmp a b = (case (a, b) of (Some x, Some y) \<Rightarrow> num_cmp x y | _ \<Rightarrow> 0)"

definition byLinkDrawPriority :: "FlowEnv \<Rightarrow> DashboardFlowLink \<Rightarrow> DashboardFlowLink \<Rightarrow> int" where
  "byLinkDrawPriority env a b =
     cmp_or (flag_cmp (dl_dimmed a) (dl_dimmed b))
       (cmp_or (flag_cmp (dl_highlighted b) (dl_highlighted a))
         (cmp_or (by_key_desc dl_value a b) (fe_compare env (linkStableKey a) (linkStableKey b))))"

definition buildSummary :: "FlowQuotaDataItem list \<Rightarrow> FlowSummary" where
  "buildSummary rows =
     foldl (\<lambda>summary row.
        let metrics = rowMetrics row in
        \<lparr>su_quota = su_quota summary + fm_quota metrics,
         su_tokens = su_tokens summary + fm_tokens metrics,
         su_requests = su_requests summary + fm_requests metrics\<rparr>)
      \<lparr>su_quota = 0, su_tokens = 0, su_requests = 0\<rparr> rows"

section \<open>The limit on the nodes of a column\<close>

definition normalizeTopNodeLimit :: "jsnum option \<Rightarrow> nat option" where
  "normalizeTopNodeLimit limit =
     (case limit of
        Some (Fin x) \<Rightarrow> if 0 < \<lfloor>x\<rfloor> then Some (nat \<lfloor>x\<rfloor>) else None
      | _ \<Rightarrow> None)"

fun OTHER_FLOW_NODE_IDS :: "FlowNodeKind \<Rightarrow> string" where
  "OTHER_FLOW_NODE_IDS UserKind = ''user:__other__''"
| "OTHER_FLOW_NODE_IDS NodeKind = ''node:__other__''"
| "OTHER_FLOW_NODE_IDS TokenKind = ''token:__other__''"
| "OTHER_FLOW_NODE_IDS GroupKind = ''group:__other__''"
| "OTHER_FLOW_NODE_IDS ModelKind = ''model:__other__''"
| "OTHER_FLOW_NODE_IDS ChannelKind = ''channel:__other__''"

fun DEFAULT_OTHER_FLOW_NODE_LABELS :: "FlowNodeKind \<Rightarrow> string" where
  "DEFAULT_OTHER_FLOW_NODE_LABELS UserKind = ''Other users''"
| "DEFAULT_OTHER_FLOW_NODE_LABELS NodeKind = ''Other nodes''"
| "DEFAULT_OTHER_FLOW_NODE_LABELS TokenKind = ''Other tokens''"
| "DEFAULT_OTHER_FLOW_NODE_LABELS GroupKind = ''Other groups''"
| "DEFAULT_OTHER_FLOW_NODE_LABELS ModelKind = ''Other models''"
| "DEFAULT_OTHER_FLOW_NODE_LABELS ChannelKind = ''Other channels''"

definition otherFlowNode :: "FlowNodeKind \<Rightarrow> OtherNodeLabel \<Rightarrow> FlowPathNode" where
  "otherFlowNode kind labeler =
     \<lparr>fp_id = OTHER_FLOW_NODE_IDS kind,
      fp_label = (case labeler of Some f \<Rightarrow> f kind | None \<Rightarrow> DEFAULT_OTHER_FLOW_NODE_LABELS kind),
      fp_kind = kind\<rparr>"

type_synonym stage_totals = "(string, FlowNodeRank) omap"

definition addStageTotal ::
  "rat \<Rightarrow> FlowPathNode \<Rightarrow> (FlowNodeKind, stage_totals) omap \<Rightarrow> (FlowNodeKind, stage_totals) omap" where
  "addStageTotal val node totals =
     (case om_get totals (fp_kind node) of
        None \<Rightarrow> totals
      | Some stageTotals \<Rightarrow>
          let current = (case om_get stageTotals (fp_id node) of
                  Some r \<Rightarrow> r
                | None \<Rightarrow> \<lparr>rk_node = node, rk_value = 0\<rparr>) in
          om_set (fp_kind node)
            (om_set (fp_id node) (current\<lparr>rk_value := rk_value current + val\<rparr>) stageTotals) totals)"

definition rankCompare :: "FlowEnv \<Rightarrow> FlowNodeRank \<Rightarrow> FlowNodeRank \<Rightarrow> int" where
  "rankCompare env a b =
     cmp_or (by_key_desc rk_value a b)
       (cmp_or (fe_compare env (fp_label (rk_node a)) (fp_label (rk_node b)))
         (fe_compare env (fp_id (rk_node a)) (fp_id (rk_node b))))"

definition stageTotals ::
  "FlowQuotaDataItem list \<Rightarrow> FlowMetric \<Rightarrow> FlowNodeKind list \<Rightarrow> FlowPathContext \<Rightarrow>
   (FlowNodeKind, stage_totals) omap" where
  "stageTotals rows metric stages ctx =
     fold (\<lambda>row totals.
        let val = metricValue (rowMetrics row) metric in
        fold (addStageTotal val) (flowPathForStages row stages ctx) totals)
       rows (fold (\<lambda>stage m. om_set stage [] m) stages [])"

definition buildTopNodeSets ::
  "FlowEnv \<Rightarrow> FlowQuotaDataItem list \<Rightarrow> FlowMetric \<Rightarrow> FlowNodeKind list \<Rightarrow> nat option \<Rightarrow> FlowPathContext \<Rightarrow>
   (FlowNodeKind, string list) omap option" where
  "buildTopNodeSets env rows metric stages limit ctx =
     (case limit of
        None \<Rightarrow> None
      | Some n \<Rightarrow>
          if n = 0 then None
          else Some (fold (\<lambda>(kind, totals) topSets.
              let topIds = map (\<lambda>rank. fp_id (rk_node rank))
                    (take n (js_sort (rankCompare env) (om_values totals))) in
              om_set kind (os_of topIds) topSets)
            (stageTotals rows metric stages ctx) []))"

definition isTopFlowNode :: "FlowPathNode \<Rightarrow> (FlowNodeKind, string list) omap option \<Rightarrow> bool" where
  "isTopFlowNode node topNodeSets =
     (case topNodeSets of
        None \<Rightarrow> True
      | Some sets \<Rightarrow>
          (case om_get sets (fp_kind node) of None \<Rightarrow> True | Some topNodes \<Rightarrow> fp_id node \<in> set topNodes))"

definition applyTopNodeLimit ::
  "FlowPathNode list \<Rightarrow> (FlowNodeKind, string list) omap option \<Rightarrow> FlowOverflowMode \<Rightarrow> OtherNodeLabel \<Rightarrow>
   FlowPathNode list option" where
  "applyTopNodeLimit path topNodeSets mode labeler =
     (if topNodeSets = None then Some path
      else if \<not> list_ex (\<lambda>node. \<not> isTopFlowNode node topNodeSets) path then Some path
      else if mode = Hide then None
      else Some (map (\<lambda>node.
        if isTopFlowNode node topNodeSets then node else otherFlowNode (fp_kind node) labeler) path))"

section \<open>Highlighting and masking\<close>

text \<open>The pairs of consecutive nodes of a path.\<close>

definition pathSteps :: "'a list \<Rightarrow> ('a \<times> 'a) list" where
  "pathSteps path = zip path (tl path)"

definition pathContainsFlowNode :: "FlowPathNode list \<Rightarrow> FlowNodeFilter \<Rightarrow> bool" where
  "pathContainsFlowNode path f \<longleftrightarrow> list_ex (\<lambda>node. fp_kind node = nf_kind f \<and> fp_id node = nf_id f) path"

definition pathContainsFlowLink :: "FlowPathNode list \<Rightarrow> FlowLinkSelection \<Rightarrow> bool" where
  "pathContainsFlowLink path link \<longleftrightarrow>
     list_ex (\<lambda>(s, t). fp_id s = ls_source link \<and> fp_id t = ls_target link) (pathSteps path)"

definition matchesPath :: "FlowNodeFilter option \<Rightarrow> FlowLinkSelection option \<Rightarrow> FlowPathNode list \<Rightarrow> bool" where
  "matchesPath activeNode activeLink path =
     (case activeLink of
        Some link \<Rightarrow> pathContainsFlowLink path link
      | None \<Rightarrow> (case activeNode of Some f \<Rightarrow> pathContainsFlowNode path f | None \<Rightarrow> False))"

definition buildFlowHighlightSets ::
  "PreparedFlowPath list \<Rightarrow> FlowNodeFilter option \<Rightarrow> FlowLinkSelection option \<Rightarrow> FlowNodeKind list \<Rightarrow>
   FlowHighlightSets option" where
  "buildFlowHighlightSets preparedPaths activeNode activeLink stages =
     (let nodeActive = (case activeNode of Some f \<Rightarrow> nf_kind f \<in> set stages | None \<Rightarrow> False) in
      if \<not> nodeActive \<and> activeLink = None then None
      else
        let sets = fold (\<lambda>prepared sets.
              let path = pp_path prepared in
              if \<not> matchesPath activeNode activeLink path then sets
              else
                \<lparr>hs_nodes = foldl os_add (hs_nodes sets) (map fp_id path),
                 hs_links = foldl os_add (hs_links sets) (map (\<lambda>(s, t). pathLinkKey s t) (pathSteps path))\<rparr>)
              preparedPaths \<lparr>hs_nodes = [], hs_links = []\<rparr> in
        if hs_nodes sets = [] then None else Some sets)"

definition FLOW_MASK_TEXT :: string where
  "FLOW_MASK_TEXT = concat (replicate 4 [CHR 0xE2, CHR 0x80, CHR 0xA2])"

definition maskFlowLabel :: "string \<Rightarrow> string" where
  "maskFlowLabel label = (if label = [] then label else FLOW_MASK_TEXT)"

definition SENSITIVE_FLOW_KINDS :: "FlowNodeKind list" where
  "SENSITIVE_FLOW_KINDS = [UserKind, NodeKind, TokenKind, GroupKind, ChannelKind]"

definition OTHER_FLOW_NODE_ID_SET :: "string list" where
  "OTHER_FLOW_NODE_ID_SET =
     map OTHER_FLOW_NODE_IDS [UserKind, NodeKind, TokenKind, GroupKind, ModelKind, ChannelKind]"

definition isMasked :: "DashboardFlowNode \<Rightarrow> bool" where
  "isMasked node \<longleftrightarrow> dn_kind node \<in> set SENSITIVE_FLOW_KINDS \<and> dn_id node \<notin> set OTHER_FLOW_NODE_ID_SET"

definition maskFlowGraphLabels ::
  "(string, DashboardFlowNode) omap \<Rightarrow> (string, DashboardFlowLink) omap \<Rightarrow>
   (string, DashboardFlowNode) omap \<times> (string, DashboardFlowLink) omap" where
  "maskFlowGraphLabels nodes links =
     (let maskedById = fold (\<lambda>(_, node) m.
            if isMasked node then om_set (dn_id node) (maskFlowLabel (dn_label node)) m else m) nodes [];
          nodes' = map (\<lambda>(k, node).
            (k, if isMasked node then node\<lparr>dn_label := maskFlowLabel (dn_label node)\<rparr> else node)) nodes in
      if maskedById = [] then (nodes', links)
      else
        (nodes',
         map (\<lambda>(k, link).
            let link' = (case om_get maskedById (dl_source link) of
                    Some s \<Rightarrow> link\<lparr>dl_sourceLabel := s\<rparr> | None \<Rightarrow> link) in
            (k, case om_get maskedById (dl_target link') of
                    Some t \<Rightarrow> link'\<lparr>dl_targetLabel := t\<rparr> | None \<Rightarrow> link')) links))"

definition highlightNode :: "FlowHighlightSets \<Rightarrow> DashboardFlowNode \<Rightarrow> DashboardFlowNode" where
  "highlightNode sets node =
     node\<lparr>dn_highlighted := Some (dn_id node \<in> set (hs_nodes sets)),
          dn_dimmed := Some (dn_id node \<notin> set (hs_nodes sets))\<rparr>"

definition highlightLink :: "FlowHighlightSets \<Rightarrow> DashboardFlowLink \<Rightarrow> DashboardFlowLink" where
  "highlightLink sets link =
     link\<lparr>dl_highlighted := Some (linkStableKey link \<in> set (hs_links sets)),
          dl_dimmed := Some (linkStableKey link \<notin> set (hs_links sets))\<rparr>"

definition applyFlowHighlights ::
  "(string, DashboardFlowNode) omap \<Rightarrow> (string, DashboardFlowLink) omap \<Rightarrow> FlowHighlightSets option \<Rightarrow>
   (string, DashboardFlowNode) omap \<times> (string, DashboardFlowLink) omap" where
  "applyFlowHighlights nodes links highlightSets =
     (case highlightSets of
        None \<Rightarrow> (nodes, links)
      | Some sets \<Rightarrow>
          (map (\<lambda>(k, n). (k, highlightNode sets n)) nodes, map (\<lambda>(k, l). (k, highlightLink sets l)) links))"

section \<open>The graph\<close>

definition prepareFlowPaths ::
  "FlowEnv \<Rightarrow> FlowQuotaDataItem list \<Rightarrow> FlowMetric \<Rightarrow> FlowNodeKind list \<Rightarrow> FlowPathContext \<Rightarrow>
   FlowGraphOptions \<Rightarrow> PreparedFlowPath list" where
  "prepareFlowPaths env rows metric stages ctx options =
     (let topNodeSets = buildTopNodeSets env rows metric stages
            (normalizeTopNodeLimit (go_topNodeLimit options)) ctx;
          overflowMode = (case go_overflowMode options of Some m \<Rightarrow> m | None \<Rightarrow> Aggregate) in
      List.map_filter (\<lambda>row.
        case applyTopNodeLimit (flowPathForStages row stages ctx) topNodeSets overflowMode
            (go_otherNodeLabel options) of
          None \<Rightarrow> None
        | Some path \<Rightarrow> Some \<lparr>pp_path = path, pp_metrics = rowMetrics row\<rparr>) rows)"

definition addFlowPath ::
  "FlowMetric \<Rightarrow> (string \<Rightarrow> string) \<Rightarrow> PreparedFlowPath \<Rightarrow>
   (string, DashboardFlowNode) omap \<times> (string, DashboardFlowLink) omap \<Rightarrow>
   (string, DashboardFlowNode) omap \<times> (string, DashboardFlowLink) omap" where
  "addFlowPath metric colorOf prepared graph =
     (case pp_path prepared of
        [] \<Rightarrow> graph
      | first # _ \<Rightarrow>
          let color = colorOf (fp_id first) in
          (fold (\<lambda>node. addNode node (pp_metrics prepared) metric color (fp_id first))
             (pp_path prepared) (fst graph),
           fold (\<lambda>(source, target). addLink source target (pp_metrics prepared) metric color (fp_id first))
             (pathSteps (pp_path prepared)) (snd graph)))"

definition rootIds :: "PreparedFlowPath list \<Rightarrow> string list" where
  "rootIds preparedPaths =
     filter (\<lambda>i. i \<noteq> []) (List.map_filter (\<lambda>p. case pp_path p of [] \<Rightarrow> None | first # _ \<Rightarrow> Some (fp_id first))
       preparedPaths)"

definition linkOrder :: "FlowEnv \<Rightarrow> DashboardFlowLink \<Rightarrow> DashboardFlowLink \<Rightarrow> int" where
  "linkOrder env a b =
     cmp_or (fe_compare env (dl_source a) (dl_source b)) (fe_compare env (dl_target a) (dl_target b))"

definition assignShares :: "string list \<Rightarrow> DashboardFlowLink list \<Rightarrow> DashboardFlowLink list" where
  "assignShares firstStepSources flowLinks =
     (let total = foldl (\<lambda>sum link. sum + dl_value link) 0
            (filter (\<lambda>link. dl_source link \<in> set firstStepSources) flowLinks) in
      map (\<lambda>link. link\<lparr>dl_share := (if 0 < total then dl_value link / total else 0)\<rparr>) flowLinks)"

definition buildFlowGraph ::
  "FlowEnv \<Rightarrow> FlowQuotaDataItem list \<Rightarrow> FlowMetric \<Rightarrow> FlowRole \<Rightarrow> string list option \<Rightarrow>
   FlowNodeKind list option \<Rightarrow> FlowPathContext \<Rightarrow> FlowGraphOptions \<Rightarrow> DashboardFlowGraph" where
  "buildFlowGraph env rows metric role palette visibleStages ctx options =
     (let stages = resolveVisibleStages role visibleStages;
          preparedPaths = prepareFlowPaths env rows metric stages ctx options;
          colors = stableColorMap env (js_sort (fe_compare env) (rootIds preparedPaths)) palette;
          colorOf = (\<lambda>i. case om_get colors i of Some c \<Rightarrow> c | None \<Rightarrow> colorAt env 0 palette);
          built = fold (addFlowPath metric colorOf) preparedPaths ([], []);
          masked = (if go_maskSensitive options then maskFlowGraphLabels (fst built) (snd built) else built);
          marked = applyFlowHighlights (fst masked) (snd masked)
            (buildFlowHighlightSets preparedPaths (go_activeNode options) (go_activeLink options) stages);
          flowLinks = js_sort (linkOrder env) (om_values (snd marked));
          firstStepSources = os_of (rootIds preparedPaths) in
      \<lparr>fg_nodes = js_sort (byValueThenLabel env) (om_values (fst marked)),
       fg_links = assignLinkDisplayColors env (assignShares firstStepSources flowLinks)\<rparr>)"

end
