(* ===== verification/Flow_Laws.thy ===== *)
theory Flow_Laws
  imports Flow_Graph
begin

text \<open>
  What the graph of \<open>flow.ts\<close> promises: every column carries the whole of the selected metric, every
  inner node passes on what it receives, the limit on nodes keeps the largest ones and merges the rest,
  masking changes labels only, and highlighting marks exactly the selected paths.
\<close>

section \<open>Aggregation as a fold over contributions\<close>

type_synonym node_contrib = "FlowPathNode \<times> FlowMetrics \<times> string \<times> string"
type_synonym link_contrib = "(FlowPathNode \<times> FlowPathNode) \<times> FlowMetrics \<times> string \<times> string"

definition nodeUpd ::
  "FlowMetric \<Rightarrow> string \<Rightarrow> node_contrib \<Rightarrow> DashboardFlowNode option \<Rightarrow> DashboardFlowNode" where
  "nodeUpd metric k d prev =
     (case d of (n, ms, c, ck) \<Rightarrow>
       snd (hd (addNode n ms metric c ck (case prev of None \<Rightarrow> [] | Some v \<Rightarrow> [(fp_id n, v)]))))"

definition linkUpd ::
  "FlowMetric \<Rightarrow> string \<Rightarrow> link_contrib \<Rightarrow> DashboardFlowLink option \<Rightarrow> DashboardFlowLink" where
  "linkUpd metric k d prev =
     (case d of ((s, t), ms, c, ck) \<Rightarrow>
       snd (hd (addLink s t ms metric c ck (case prev of None \<Rightarrow> [] | Some v \<Rightarrow> [(pathLinkKey s t, v)]))))"

definition nodeContribs :: "(string \<Rightarrow> string) \<Rightarrow> PreparedFlowPath list \<Rightarrow> (string \<times> node_contrib) list" where
  "nodeContribs colorOf ps =
     concat (map (\<lambda>p. map (\<lambda>n. (fp_id n, n, pp_metrics p, colorOf (fp_id (hd (pp_path p))), fp_id (hd (pp_path p))))
       (pp_path p)) ps)"

definition linkContribs :: "(string \<Rightarrow> string) \<Rightarrow> PreparedFlowPath list \<Rightarrow> (string \<times> link_contrib) list" where
  "linkContribs colorOf ps =
     concat (map (\<lambda>p. map (\<lambda>e. (pathLinkKey (fst e) (snd e), e, pp_metrics p,
         colorOf (fp_id (hd (pp_path p))), fp_id (hd (pp_path p))))
       (pathSteps (pp_path p))) ps)"

lemma addNode_upd:
  "addNode n ms metric c ck =
   (\<lambda>m. om_set (fp_id n) (nodeUpd metric (fp_id n) (n, ms, c, ck) (om_get m (fp_id n))) m)"
proof
  show "addNode n ms metric c ck m =
      om_set (fp_id n) (nodeUpd metric (fp_id n) (n, ms, c, ck) (om_get m (fp_id n))) m" for m
    by (cases "om_get m (fp_id n)") (simp_all add: addNode_def nodeUpd_def Let_def om_get_def)
qed

lemma addLink_upd:
  "addLink s t ms metric c ck =
   (\<lambda>m. om_set (pathLinkKey s t)
      (linkUpd metric (pathLinkKey s t) ((s, t), ms, c, ck) (om_get m (pathLinkKey s t))) m)"
proof
  show "addLink s t ms metric c ck m =
      om_set (pathLinkKey s t)
        (linkUpd metric (pathLinkKey s t) ((s, t), ms, c, ck) (om_get m (pathLinkKey s t))) m" for m
    by (cases "om_get m (pathLinkKey s t)")
      (simp_all add: addLink_def linkUpd_def Let_def pathLinkKey_def om_get_def)
qed

lemma built_nodes:
  "fst (fold (addFlowPath metric colorOf) ps g) =
   fold (\<lambda>(k, d) m. om_set k (nodeUpd metric k d (om_get m k)) m) (nodeContribs colorOf ps) (fst g)"
proof (induction ps arbitrary: g)
  case (Cons p ps)
  have "fst (addFlowPath metric colorOf p g) =
      fold (\<lambda>(k, d) m. om_set k (nodeUpd metric k d (om_get m k)) m) (nodeContribs colorOf [p]) (fst g)"
    by (cases "pp_path p") (simp_all add: addFlowPath_def nodeContribs_def addNode_upd fold_map comp_def Let_def)
  with Cons show ?case by (simp add: nodeContribs_def)
qed (simp add: nodeContribs_def)

lemma built_links:
  "snd (fold (addFlowPath metric colorOf) ps g) =
   fold (\<lambda>(k, d) m. om_set k (linkUpd metric k d (om_get m k)) m) (linkContribs colorOf ps) (snd g)"
proof (induction ps arbitrary: g)
  case (Cons p ps)
  have "snd (addFlowPath metric colorOf p g) =
      fold (\<lambda>(k, d) m. om_set k (linkUpd metric k d (om_get m k)) m) (linkContribs colorOf [p]) (snd g)"
    by (cases "pp_path p")
      (simp_all add: addFlowPath_def linkContribs_def addLink_upd fold_map comp_def Let_def pathSteps_def
        case_prod_beta')
  with Cons show ?case by (simp add: linkContribs_def)
qed (simp add: linkContribs_def)

text \<open>The value of an entry is the sum of its contributions.\<close>

lemma nodeUpd_value:
  "dn_value (nodeUpd metric k d None) = metricValue (fst (snd d)) metric"
  "dn_value (nodeUpd metric k d (Some v)) = dn_value v + metricValue (fst (snd d)) metric"
  by (simp_all add: nodeUpd_def addNode_def Let_def om_get_def split_beta)

lemma linkUpd_value:
  "dl_value (linkUpd metric k d None) = metricValue (fst (snd d)) metric"
  "dl_value (linkUpd metric k d (Some v)) = dl_value v + metricValue (fst (snd d)) metric"
  by (simp_all add: linkUpd_def addLink_def Let_def om_get_def pathLinkKey_def split_beta)

definition pathValue :: "FlowMetric \<Rightarrow> PreparedFlowPath \<Rightarrow> rat" where
  "pathValue metric p = metricValue (pp_metrics p) metric"

lemma nodes_sum:
  "(\<Sum>(k, v)\<leftarrow>filter (\<lambda>(k, _). Q k) (fst (fold (addFlowPath metric colorOf) ps ([], []))). dn_value v) =
   (\<Sum>p\<leftarrow>ps. of_nat (length (filter (\<lambda>n. Q (fp_id n)) (pp_path p))) * pathValue metric p)"
proof -
  have one: "(\<Sum>(k, d)\<leftarrow>filter (\<lambda>(k, _). Q k) (map (\<lambda>n. (fp_id n, n, ms, c, ck)) path). metricValue (fst (snd d)) metric) =
      of_nat (length (filter (\<lambda>n. Q (fp_id n)) path)) * metricValue ms metric" for path ms c ck
    by (induction path) (auto simp: algebra_simps)
  have "(\<Sum>(k, d)\<leftarrow>filter (\<lambda>(k, _). Q k) (nodeContribs colorOf ps). metricValue (fst (snd d)) metric) =
      (\<Sum>p\<leftarrow>ps. of_nat (length (filter (\<lambda>n. Q (fp_id n)) (pp_path p))) * pathValue metric p)"
    by (induction ps) (simp_all add: nodeContribs_def one pathValue_def)
  then show ?thesis
    by (simp add: built_nodes om_sum_fold [where w = dn_value and f = "nodeUpd metric" and c = "\<lambda>d. metricValue (fst (snd d)) metric",
        OF nodeUpd_value])
qed

lemma links_sum:
  "(\<Sum>(k, v)\<leftarrow>filter (\<lambda>(k, _). Q k) (snd (fold (addFlowPath metric colorOf) ps ([], []))). dl_value v) =
   (\<Sum>p\<leftarrow>ps. of_nat (length (filter (\<lambda>(s, t). Q (pathLinkKey s t)) (pathSteps (pp_path p)))) * pathValue metric p)"
proof -
  have one: "(\<Sum>(k, d)\<leftarrow>filter (\<lambda>(k, _). Q k) (map (\<lambda>e. (pathLinkKey (fst e) (snd e), e, ms, c, ck)) path).
        metricValue (fst (snd d)) metric) =
      of_nat (length (filter (\<lambda>(s, t). Q (pathLinkKey s t)) path)) * metricValue ms metric" for path ms c ck
    by (induction path) (auto simp: algebra_simps)
  have "(\<Sum>(k, d)\<leftarrow>filter (\<lambda>(k, _). Q k) (linkContribs colorOf ps). metricValue (fst (snd d)) metric) =
      (\<Sum>p\<leftarrow>ps. of_nat (length (filter (\<lambda>(s, t). Q (pathLinkKey s t)) (pathSteps (pp_path p)))) * pathValue metric p)"
    by (induction ps) (simp_all add: linkContribs_def one pathValue_def)
  then show ?thesis
    by (simp add: built_links om_sum_fold [where w = dl_value and f = "linkUpd metric" and c = "\<lambda>d. metricValue (fst (snd d)) metric",
        OF linkUpd_value])
qed

section \<open>Well-formed paths\<close>

definition wfPath :: "FlowNodeKind list \<Rightarrow> FlowPathNode list \<Rightarrow> bool" where
  "wfPath stages path \<longleftrightarrow> map fp_kind path = stages \<and> (\<forall>n \<in> set path. idOfKind (fp_kind n) (fp_id n))"

lemma wfPath_flowPath: "wfPath stages (flowPathForStages row stages ctx)"
  by (auto simp: wfPath_def flowPathForStages_def idOfKind_builder comp_def)

lemma idOfKind_other: "idOfKind k (fp_id (otherFlowNode k labeler))"
  by (cases k) (simp_all add: otherFlowNode_def idOfKind_def)

lemma fp_kind_other [simp]: "fp_kind (otherFlowNode k labeler) = k"
  by (simp add: otherFlowNode_def)

lemma wfPath_applyTop:
  assumes "applyTopNodeLimit path sets mode labeler = Some path'" and "wfPath stages path"
  shows "wfPath stages path'"
  using assms by (auto simp: applyTopNodeLimit_def wfPath_def idOfKind_other comp_def split: if_splits)

lemma applyTop_nodes:
  assumes "applyTopNodeLimit path sets mode labeler = Some path'" and "n \<in> set path'"
  shows "n \<in> set path \<or> (\<exists>k. n = otherFlowNode k labeler)"
  using assms by (auto simp: applyTopNodeLimit_def split: if_splits)

lemma wfPath_prepared:
  "p \<in> set (prepareFlowPaths env rows metric stages ctx options) \<Longrightarrow> wfPath stages (pp_path p)"
  by (auto simp: prepareFlowPaths_def List.map_filter_def Let_def split: option.splits
      intro: wfPath_applyTop wfPath_flowPath)

lemma nul_other: "nul \<notin> set (OTHER_FLOW_NODE_IDS k)"
  by (cases k) (simp_all add: nul_def)

lemma clean_prepared:
  assumes "p \<in> set (prepareFlowPaths env rows metric stages ctx options)" and "n \<in> set (pp_path p)"
    and "\<forall>row \<in> set rows. cleanRow row"
  shows "nul \<notin> set (fp_id n)"
proof -
  obtain row mode sets where row: "row \<in> set rows"
    "applyTopNodeLimit (flowPathForStages row stages ctx) sets mode (go_otherNodeLabel options) = Some (pp_path p)"
    using assms(1) by (auto simp: prepareFlowPaths_def List.map_filter_def Let_def split: option.splits)
  then have "fp_id n \<in> range OTHER_FLOW_NODE_IDS \<or> n \<in> set (flowPathForStages row stages ctx)"
    using applyTop_nodes [OF row(2) assms(2)] by (auto simp: otherFlowNode_def)
  with row(1) assms(3) show ?thesis
    by (auto simp: nul_other flowPathForStages_def nul_builder)
qed

text \<open>When rows are merged and not hidden, every row keeps a path.\<close>

lemma metrics_prepared:
  assumes "go_overflowMode options \<noteq> Some Hide \<or> normalizeTopNodeLimit (go_topNodeLimit options) = None"
  shows "map pp_metrics (prepareFlowPaths env rows metric stages ctx options) = map rowMetrics rows"
proof -
  define sets where "sets = buildTopNodeSets env rows metric stages
    (normalizeTopNodeLimit (go_topNodeLimit options)) ctx"
  have "\<exists>path'. applyTopNodeLimit path sets
      (case go_overflowMode options of Some m \<Rightarrow> m | None \<Rightarrow> Aggregate) (go_otherNodeLabel options) = Some path'" for path
    using assms by (auto simp: applyTopNodeLimit_def sets_def buildTopNodeSets_def split: option.split)
  then have "map pp_metrics (List.map_filter (\<lambda>row.
        case applyTopNodeLimit (flowPathForStages row stages ctx) sets
            (case go_overflowMode options of Some m \<Rightarrow> m | None \<Rightarrow> Aggregate) (go_otherNodeLabel options) of
          None \<Rightarrow> None
        | Some path \<Rightarrow> Some \<lparr>pp_path = path, pp_metrics = rowMetrics row\<rparr>) xs) = map rowMetrics xs" for xs
  proof (induction xs)
    case (Cons row xs)
    obtain path' where "applyTopNodeLimit (flowPathForStages row stages ctx) sets
      (case go_overflowMode options of Some m \<Rightarrow> m | None \<Rightarrow> Aggregate) (go_otherNodeLabel options) = Some path'"
      using Cons.prems by blast
    with Cons show ?case by (simp add: List.map_filter_simps)
  qed (simp add: List.map_filter_simps)
  then show ?thesis by (simp add: prepareFlowPaths_def sets_def Let_def)
qed

lemma wfPath_ofKind:
  assumes "wfPath stages path" and "n \<in> set path"
  shows "idOfKind k (fp_id n) \<longleftrightarrow> fp_kind n = k"
  using assms idOfKind_unique by (auto simp: wfPath_def)

lemma length_filter_kind:
  assumes "wfPath stages path" and "distinct stages" and "k \<in> set stages"
  shows "length (filter (\<lambda>n. fp_kind n = k) path) = 1"
proof -
  have "length (filter (\<lambda>x. x = k) xs) = (if k \<in> set xs then 1 else 0)" if "distinct xs" for xs
    using that by (induction xs) auto
  moreover have "length (filter (\<lambda>n. fp_kind n = k) path) = length (filter (\<lambda>x. x = k) (map fp_kind path))"
    by (simp add: filter_map comp_def)
  moreover have "map fp_kind path = stages" using assms(1) by (simp add: wfPath_def)
  ultimately show ?thesis using assms(2,3) by (simp only:) simp
qed

section \<open>The entries of the graph\<close>

lemma built_node_entry:
  assumes "(k, v) \<in> set (fst (fold (addFlowPath metric colorOf) ps ([], [])))"
  shows "\<exists>p \<in> set ps. \<exists>n \<in> set (pp_path p).
    k = fp_id n \<and> dn_id v = fp_id n \<and> dn_kind v = fp_kind n \<and> dn_label v = fp_label n"
proof -
  let ?xs = "nodeContribs colorOf ps"
  let ?P = "\<lambda>v. \<exists>d. (k, d) \<in> set ?xs \<and> dn_id v = fp_id (fst d) \<and> dn_kind v = fp_kind (fst d) \<and>
    dn_label v = fp_label (fst d)"
  have "om_get (fold (\<lambda>(k, d) m. om_set k (nodeUpd metric k d (om_get m k)) m) ?xs []) k = Some v"
    using assms by (simp add: built_nodes om_get_iff [OF om.distinct_keys_fold])
  then have "?P v"
    by (rule om.get_fold_invariant [where P = ?P and f = "nodeUpd metric" and k = k and xs = ?xs and v = v, rotated -1])
      (auto simp: nodeUpd_def addNode_def Let_def om_get_def, blast+)
  then show ?thesis by (auto simp: nodeContribs_def)
qed

lemma built_link_entry:
  assumes "(k, v) \<in> set (snd (fold (addFlowPath metric colorOf) ps ([], [])))"
  shows "\<exists>p \<in> set ps. \<exists>(s, t) \<in> set (pathSteps (pp_path p)).
    k = linkKey (fp_id s) (fp_id t) \<and> dl_source v = fp_id s \<and> dl_target v = fp_id t"
proof -
  let ?xs = "linkContribs colorOf ps"
  let ?P = "\<lambda>v. \<exists>d. (k, d) \<in> set ?xs \<and> dl_source v = fp_id (fst (fst d)) \<and> dl_target v = fp_id (snd (fst d))"
  have "om_get (fold (\<lambda>(k, d) m. om_set k (linkUpd metric k d (om_get m k)) m) ?xs []) k = Some v"
    using assms by (simp add: built_links om_get_iff [OF om.distinct_keys_fold])
  then have "?P v"
    by (rule om.get_fold_invariant [where P = ?P and f = "linkUpd metric" and k = k and xs = ?xs and v = v, rotated -1])
      (auto simp: linkUpd_def addLink_def Let_def om_get_def pathLinkKey_def, blast+)
  then show ?thesis by (fastforce simp: linkContribs_def pathLinkKey_def)
qed

lemma distinct_built:
  "distinct (map fst (fst (fold (addFlowPath metric colorOf) ps ([], []))))"
  "distinct (map fst (snd (fold (addFlowPath metric colorOf) ps ([], []))))"
  using om.distinct_keys_fold by (auto simp: built_nodes built_links om_keys_def)

text \<open>Masking, highlighting, sorting, shares and colours keep identity and value.\<close>

definition nodeCore :: "DashboardFlowNode \<Rightarrow> string \<times> FlowNodeKind \<times> rat" where
  "nodeCore n = (dn_id n, dn_kind n, dn_value n)"

definition linkCore :: "DashboardFlowLink \<Rightarrow> string \<times> string \<times> rat" where
  "linkCore l = (dl_source l, dl_target l, dl_value l)"

lemma mask_core:
  "map (\<lambda>(k, n). (k, nodeCore n)) (fst (maskFlowGraphLabels N L)) = map (\<lambda>(k, n). (k, nodeCore n)) N"
  "map (\<lambda>(k, l). (k, linkCore l)) (snd (maskFlowGraphLabels N L)) = map (\<lambda>(k, l). (k, linkCore l)) L"
  by (auto simp: maskFlowGraphLabels_def Let_def nodeCore_def linkCore_def split: option.split)

lemma highlight_core:
  "map (\<lambda>(k, n). (k, nodeCore n)) (fst (applyFlowHighlights N L h)) = map (\<lambda>(k, n). (k, nodeCore n)) N"
  "map (\<lambda>(k, l). (k, linkCore l)) (snd (applyFlowHighlights N L h)) = map (\<lambda>(k, l). (k, linkCore l)) L"
  by (auto simp: applyFlowHighlights_def highlightNode_def highlightLink_def nodeCore_def linkCore_def
      split: option.split)

lemma shares_core: "map linkCore (assignShares fs ls) = map linkCore ls"
  by (simp add: assignShares_def Let_def linkCore_def comp_def)

lemma displayColors_entry:
  assumes "(k, l) \<in> set (displayColors ls)"
  shows "\<exists>link \<in> set ls. k = linkStableKey link \<and>
    l = link\<lparr>dl_linkColor := dl_linkColor l, dl_linkAlpha := dl_linkAlpha l, dl_hoverColor := dl_color link\<rparr>"
proof -
  have "link \<in> set ls" if "(i, link) \<in> set (enumerate 0 ls)" for i link
    using that by (auto simp: in_set_enumerate_eq)
  moreover obtain i link where "(i, link) \<in> set (enumerate 0 ls)" "k = linkStableKey link"
    "\<exists>c a. l = link\<lparr>dl_linkColor := c, dl_linkAlpha := a, dl_hoverColor := dl_color link\<rparr>"
    using assms by (auto simp: displayColors_def Let_def)
  ultimately show ?thesis by (intro bexI [of _ link]) auto
qed

lemma om_values_set: "set (om_values (om_set k v M)) \<subseteq> insert v (set (om_values M))"
  by (induction k v M rule: om_set.induct) (auto simp: om_values_def)

lemma linksBySource_set:
  "(\<Union>ls \<in> set (om_values (fold (\<lambda>link m.
        om_set (dl_source link)
          ((case om_get m (dl_source link) of Some ls \<Rightarrow> ls | None \<Rightarrow> []) @ [link]) m) links M)). set ls)
   \<subseteq> (\<Union>ls \<in> set (om_values M). set ls) \<union> set links"
proof (induction links arbitrary: M)
  case (Cons link links)
  define old where "old = (case om_get M (dl_source link) of Some ls \<Rightarrow> ls | None \<Rightarrow> [])"
  let ?M = "om_set (dl_source link) (old @ [link]) M"
  have "set old \<subseteq> (\<Union>ls \<in> set (om_values M). set ls)"
    by (cases "om_get M (dl_source link)") (force simp: old_def om_get_def om_values_def dest: map_of_SomeD)+
  moreover have "(\<Union>ls \<in> set (om_values ?M). set ls) \<subseteq> (\<Union>ls \<in> insert (old @ [link]) (set (om_values M)). set ls)"
    by (rule UN_mono [OF om_values_set]) simp
  ultimately have "(\<Union>ls \<in> set (om_values ?M). set ls) \<subseteq> (\<Union>ls \<in> set (om_values M). set ls) \<union> {link}"
    by simp blast
  with Cons [of ?M] show ?case unfolding fold_simps old_def [symmetric] by auto
qed simp

text \<open>A link as it was, up to the fields that hold its display colours.\<close>

definition recolored :: "DashboardFlowLink \<Rightarrow> DashboardFlowLink \<Rightarrow> bool" where
  "recolored l l' \<longleftrightarrow> l' = l\<lparr>dl_linkColor := dl_linkColor l', dl_linkAlpha := dl_linkAlpha l',
    dl_hoverColor := dl_hoverColor l'\<rparr>"

lemma recolored_refl: "recolored l l"
  by (simp add: recolored_def)

lemma recolored_core: "recolored l l' \<Longrightarrow> linkCore l' = linkCore l"
  by (cases l; cases l') (simp add: recolored_def linkCore_def)

lemma displayColors_recolored:
  assumes "(k, l') \<in> set (displayColors ls)"
  shows "\<exists>l \<in> set ls. k = linkStableKey l \<and> recolored l l'"
proof -
  obtain l where l: "l \<in> set ls" "k = linkStableKey l"
    "l' = l\<lparr>dl_linkColor := dl_linkColor l', dl_linkAlpha := dl_linkAlpha l', dl_hoverColor := dl_color l\<rparr>"
    using displayColors_entry [OF assms] by blast
  have "recolored l l'" using l(3) by (cases l; cases l') (simp add: recolored_def)
  with l show ?thesis by blast
qed

lemma list_all2_assignColors:
  assumes "distinct (map linkStableKey links)"
  shows "list_all2 recolored links (assignLinkDisplayColors env links)"
proof -
  define groups where "groups = fold (\<lambda>link m.
        om_set (dl_source link)
          ((case om_get m (dl_source link) of Some ls \<Rightarrow> ls | None \<Rightarrow> []) @ [link]) m) links []"
  define assigned where "assigned = concat (map (\<lambda>ls. displayColors (js_sort (linkRank env) ls)) (om_values groups))"
  have "recolored link (case map_of assigned (linkStableKey link) of Some l \<Rightarrow> l | None \<Rightarrow> link)"
    if "link \<in> set links" for link
  proof (cases "map_of assigned (linkStableKey link)")
    case None
    then show ?thesis by (simp add: recolored_refl)
  next
    case (Some l')
    then obtain ls where ls: "ls \<in> set (om_values groups)"
      "(linkStableKey link, l') \<in> set (displayColors (js_sort (linkRank env) ls))"
      by (auto simp: assigned_def dest!: map_of_SomeD)
    from displayColors_recolored [OF this(2)] obtain l
      where l: "l \<in> set ls" "linkStableKey link = linkStableKey l" "recolored l l'"
      by auto
    have "l \<in> set links"
      using l(1) ls(1) linksBySource_set [of links "[]"] by (auto simp: groups_def om_values_def)
    with that l(2) assms have "l = link" by (auto simp: distinct_map inj_on_def)
    with l(3) Some show ?thesis by simp
  qed
  then show ?thesis
    unfolding assignLinkDisplayColors_def Let_def groups_def [symmetric] assigned_def [symmetric] list_all2_map2
    by (simp add: list_all2_same)
qed

lemma colors_core:
  assumes "distinct (map linkStableKey links)"
  shows "map linkCore (assignLinkDisplayColors env links) = map linkCore links"
  using list_all2_assignColors [OF assms, of env]
  by (auto simp: list_all2_conv_all_nth recolored_core intro!: nth_equalityI)

section \<open>The finished graph\<close>

lemma map_core_snd:
  "map (\<lambda>(k, x). (k, f x)) xs = map (\<lambda>(k, x). (k, f x)) ys \<Longrightarrow> map f (om_values xs) = map (\<lambda>(_, x). f x) ys"
proof -
  assume "map (\<lambda>(k, x). (k, f x)) xs = map (\<lambda>(k, x). (k, f x)) ys"
  then have "map snd (map (\<lambda>(k, x). (k, f x)) xs) = map snd (map (\<lambda>(k, x). (k, f x)) ys)" by simp
  then show ?thesis by (simp add: om_values_def comp_def case_prod_beta')
qed

lemma linkStableKey_core: "linkStableKey = (\<lambda>l. case linkCore l of (s, t, _) \<Rightarrow> linkKey s t)"
  by (rule ext) (simp add: linkCore_def linkStableKey_def)

lemma distinct_stableKeys:
  assumes "mset (map linkCore ls) =
    mset (map (\<lambda>(_, v). linkCore v) (snd (fold (addFlowPath metric colorOf) ps ([], []))))"
  shows "distinct (map linkStableKey ls)"
proof -
  let ?links = "snd (fold (addFlowPath metric colorOf) ps ([], []))"
  have "map (\<lambda>(_, v). linkStableKey v) ?links = map fst ?links"
    using built_link_entry [of _ _ metric colorOf ps] by (fastforce simp: linkStableKey_def)
  moreover have "mset (map linkStableKey ls) = mset (map (\<lambda>(_, v). linkStableKey v) ?links)"
    using arg_cong [OF assms, of "image_mset (\<lambda>(s, t, _). linkKey s t)"]
    by (simp add: linkStableKey_core comp_def case_prod_beta' multiset.map_comp)
  ultimately show ?thesis
    using distinct_built(2) [of metric colorOf ps] by (metis mset_eq_imp_distinct_iff)
qed

lemma sum_from_core:
  "(\<Sum>l\<leftarrow>filter (\<lambda>l. dl_source l \<in> S) xs. dl_value l) =
   (\<Sum>(s, t, v)\<leftarrow>filter (\<lambda>(s, _, _). s \<in> S) (map linkCore xs). v)"
  by (induction xs) (auto simp: linkCore_def)

lemma foldl_dl_value: "foldl (\<lambda>sum link. sum + dl_value link) a xs = a + (\<Sum>l\<leftarrow>xs. dl_value l)"
  by (induction xs arbitrary: a) auto

lemma distinct_map_mset: "mset (map f xs) = mset (map g ys) \<Longrightarrow> distinct (map g ys) \<Longrightarrow> distinct (map f xs)"
  using mset_eq_imp_distinct_iff by blast

text \<open>The graph after aggregation, and after masking and highlighting.\<close>

definition flowBuilt ::
  "FlowEnv \<Rightarrow> FlowQuotaDataItem list \<Rightarrow> FlowMetric \<Rightarrow> FlowRole \<Rightarrow> string list option \<Rightarrow>
   FlowNodeKind list option \<Rightarrow> FlowPathContext \<Rightarrow> FlowGraphOptions \<Rightarrow>
   (string, DashboardFlowNode) omap \<times> (string, DashboardFlowLink) omap" where
  "flowBuilt env rows metric role palette visible ctx options =
     (let ps = prepareFlowPaths env rows metric (resolveVisibleStages role visible) ctx options;
          colors = stableColorMap env (js_sort (fe_compare env) (rootIds ps)) palette in
      fold (addFlowPath metric (\<lambda>i. case om_get colors i of Some c \<Rightarrow> c | None \<Rightarrow> colorAt env 0 palette)) ps ([], []))"

definition flowMasked ::
  "FlowEnv \<Rightarrow> FlowQuotaDataItem list \<Rightarrow> FlowMetric \<Rightarrow> FlowRole \<Rightarrow> string list option \<Rightarrow>
   FlowNodeKind list option \<Rightarrow> FlowPathContext \<Rightarrow> FlowGraphOptions \<Rightarrow>
   (string, DashboardFlowNode) omap \<times> (string, DashboardFlowLink) omap" where
  "flowMasked env rows metric role palette visible ctx options =
     (let built = flowBuilt env rows metric role palette visible ctx options in
      if go_maskSensitive options then maskFlowGraphLabels (fst built) (snd built) else built)"

definition flowMarked ::
  "FlowEnv \<Rightarrow> FlowQuotaDataItem list \<Rightarrow> FlowMetric \<Rightarrow> FlowRole \<Rightarrow> string list option \<Rightarrow>
   FlowNodeKind list option \<Rightarrow> FlowPathContext \<Rightarrow> FlowGraphOptions \<Rightarrow>
   (string, DashboardFlowNode) omap \<times> (string, DashboardFlowLink) omap" where
  "flowMarked env rows metric role palette visible ctx options =
     (let masked = flowMasked env rows metric role palette visible ctx options;
          stages = resolveVisibleStages role visible in
      applyFlowHighlights (fst masked) (snd masked)
        (buildFlowHighlightSets (prepareFlowPaths env rows metric stages ctx options)
          (go_activeNode options) (go_activeLink options) stages))"

lemma flowBuilt_fold:
  obtains colorOf where "flowBuilt env rows metric role palette visible ctx options =
    fold (addFlowPath metric colorOf)
      (prepareFlowPaths env rows metric (resolveVisibleStages role visible) ctx options) ([], [])"
  by (simp add: flowBuilt_def Let_def)

lemma buildFlowGraph_marked:
  fixes env rows metric role palette visible ctx options
  defines "g \<equiv> buildFlowGraph env rows metric role palette visible ctx options"
    and "ps \<equiv> prepareFlowPaths env rows metric (resolveVisibleStages role visible) ctx options"
    and "marked \<equiv> flowMarked env rows metric role palette visible ctx options"
  shows "fg_nodes g = js_sort (byValueThenLabel env) (om_values (fst marked))"
    and "fg_links g = assignLinkDisplayColors env
      (assignShares (os_of (rootIds ps)) (js_sort (linkOrder env) (om_values (snd marked))))"
  by (simp_all add: assms buildFlowGraph_def flowMarked_def flowMasked_def flowBuilt_def Let_def)

lemma flowMarked_core:
  fixes env rows metric role palette visible ctx options
  defines "built \<equiv> flowBuilt env rows metric role palette visible ctx options"
    and "marked \<equiv> flowMarked env rows metric role palette visible ctx options"
  shows "map nodeCore (om_values (fst marked)) = map (\<lambda>(_, v). nodeCore v) (fst built)"
    and "map linkCore (om_values (snd marked)) = map (\<lambda>(_, v). linkCore v) (snd built)"
  by (rule map_core_snd, simp add: assms flowMarked_def flowMasked_def Let_def highlight_core mask_core)+

lemma flowGraph_nodes:
  "mset (map nodeCore (fg_nodes (buildFlowGraph env rows metric role palette visible ctx options))) =
   mset (map (\<lambda>(_, v). nodeCore v) (fst (flowBuilt env rows metric role palette visible ctx options)))"
  unfolding flowMarked_core(1) [symmetric] by (simp only: buildFlowGraph_marked mset_map mset_js_sort)

text \<open>A link of the graph is one of the marked links with its share and its colours set.\<close>

definition restyled :: "DashboardFlowLink \<Rightarrow> DashboardFlowLink \<Rightarrow> bool" where
  "restyled l l' \<longleftrightarrow> l' = l\<lparr>dl_share := dl_share l', dl_linkColor := dl_linkColor l',
    dl_linkAlpha := dl_linkAlpha l', dl_hoverColor := dl_hoverColor l'\<rparr>"

lemma restyled_fields:
  assumes "restyled l l'"
  shows "linkCore l' = linkCore l" "dl_sourceLabel l' = dl_sourceLabel l" "dl_targetLabel l' = dl_targetLabel l"
    "dl_highlighted l' = dl_highlighted l" "dl_dimmed l' = dl_dimmed l" "linkStableKey l' = linkStableKey l"
    "dl_source l' = dl_source l" "dl_target l' = dl_target l" "dl_value l' = dl_value l"
  using assms by (cases l; cases l'; simp add: restyled_def linkCore_def linkStableKey_def)+

lemma flowGraph_links:
  fixes env rows metric role palette visible ctx options
  defines "g \<equiv> buildFlowGraph env rows metric role palette visible ctx options"
    and "ps \<equiv> prepareFlowPaths env rows metric (resolveVisibleStages role visible) ctx options"
    and "marked \<equiv> flowMarked env rows metric role palette visible ctx options"
  defines "tot \<equiv> (\<Sum>l\<leftarrow>filter (\<lambda>l. dl_source l \<in> set (rootIds ps)) (fg_links g). dl_value l)"
  shows "list_all2 (\<lambda>l l'. restyled l l' \<and> dl_share l' = (if 0 < tot then dl_value l / tot else 0))
    (js_sort (linkOrder env) (om_values (snd marked))) (fg_links g)"
proof -
  let ?sorted = "js_sort (linkOrder env) (om_values (snd marked))"
  define shared where "shared = assignShares (os_of (rootIds ps)) ?sorted"
  have g: "fg_links g = assignLinkDisplayColors env shared"
    by (simp add: g_def shared_def ps_def marked_def buildFlowGraph_marked)
  obtain colorOf where built: "flowBuilt env rows metric role palette visible ctx options =
      fold (addFlowPath metric colorOf) ps ([], [])"
    unfolding ps_def by (rule flowBuilt_fold)
  have "mset (map linkCore shared) = mset (map linkCore (om_values (snd marked)))"
    by (simp only: shared_def shares_core mset_map mset_js_sort)
  then have distinct: "distinct (map linkStableKey shared)"
    by (intro distinct_stableKeys [of _ metric colorOf ps]) (simp add: marked_def flowMarked_core built)
  have "map linkCore (fg_links g) = map linkCore ?sorted"
    unfolding g colors_core [OF distinct] by (simp add: shared_def shares_core)
  then have "tot = (\<Sum>l\<leftarrow>filter (\<lambda>l. dl_source l \<in> set (rootIds ps)) ?sorted. dl_value l)"
    by (simp only: tot_def sum_from_core)
  then have shared': "shared = map (\<lambda>l. l\<lparr>dl_share := (if 0 < tot then dl_value l / tot else 0)\<rparr>) ?sorted"
    by (simp add: shared_def assignShares_def foldl_dl_value Let_def)
  have step: "recolored (l\<lparr>dl_share := x\<rparr>) l' \<Longrightarrow> restyled l l' \<and> dl_share l' = x" for l l' x
    by (cases l; cases l') (simp add: recolored_def restyled_def)
  from list_all2_assignColors [OF distinct, of env, folded g]
  show ?thesis unfolding shared' list_all2_map1 by (rule list_all2_mono) (rule step)
qed

lemma flowGraph_link_core:
  "mset (map linkCore (fg_links (buildFlowGraph env rows metric role palette visible ctx options))) =
   mset (map (\<lambda>(_, v). linkCore v) (snd (flowBuilt env rows metric role palette visible ctx options)))"
proof -
  let ?marked = "flowMarked env rows metric role palette visible ctx options"
  have "map linkCore (fg_links (buildFlowGraph env rows metric role palette visible ctx options)) =
      map linkCore (js_sort (linkOrder env) (om_values (snd ?marked)))"
    using flowGraph_links [where env = env and rows = rows and metric = metric and role = role
        and palette = palette and visible = visible and ctx = ctx and options = options]
    by (auto simp: list_all2_conv_all_nth restyled_fields intro!: nth_equalityI)
  then show ?thesis
    unfolding flowMarked_core(2) [symmetric] by (simp only: mset_map mset_js_sort)
qed

lemma flowGraph_core:
  fixes env rows metric role palette visible ctx options
  defines "g \<equiv> buildFlowGraph env rows metric role palette visible ctx options"
    and "ps \<equiv> prepareFlowPaths env rows metric (resolveVisibleStages role visible) ctx options"
  obtains colorOf where
    "mset (map nodeCore (fg_nodes g)) =
      mset (map (\<lambda>(_, v). nodeCore v) (fst (fold (addFlowPath metric colorOf) ps ([], []))))"
    "mset (map linkCore (fg_links g)) =
      mset (map (\<lambda>(_, v). linkCore v) (snd (fold (addFlowPath metric colorOf) ps ([], []))))"
  using flowGraph_nodes flowGraph_link_core flowBuilt_fold unfolding g_def ps_def by metis

section \<open>Columns and balance\<close>

lemma sum_core:
  fixes w :: "'c \<Rightarrow> 'n::comm_monoid_add"
  assumes "mset (map f xs) = mset (map (\<lambda>(_, v). f v) E)"
    and "\<And>k v. (k, v) \<in> set E \<Longrightarrow> P (f v) \<longleftrightarrow> Q k"
  shows "(\<Sum>x\<leftarrow>filter (\<lambda>x. P (f x)) xs. w (f x)) = (\<Sum>(k, v)\<leftarrow>filter (\<lambda>(k, _). Q k) E. w (f v))"
proof -
  have "(\<Sum>x\<leftarrow>filter (\<lambda>x. P (f x)) xs. w (f x)) = sum_mset (image_mset w (filter_mset P (mset (map f xs))))"
    by (simp add: filter_mset_image_mset image_mset.compositionality comp_def sum_mset_sum_list [symmetric])
  also have "\<dots> = (\<Sum>(k, v)\<leftarrow>filter (\<lambda>(_, v). P (f v)) E. w (f v))"
    unfolding assms(1)
    by (simp add: filter_mset_image_mset image_mset.compositionality comp_def sum_mset_sum_list [symmetric]
        case_prod_beta')
  also have "filter (\<lambda>(_, v). P (f v)) E = filter (\<lambda>(k, _). Q k) E"
    by (rule filter_cong) (auto simp: assms(2))
  finally show ?thesis .
qed

lemma sum_nodes:
  assumes "mset (map nodeCore xs) = mset (map (\<lambda>(_, v). nodeCore v) E)"
    and "\<And>k v. (k, v) \<in> set E \<Longrightarrow> P (dn_id v) (dn_kind v) \<longleftrightarrow> Q k"
  shows "(\<Sum>n\<leftarrow>filter (\<lambda>n. P (dn_id n) (dn_kind n)) xs. dn_value n) = (\<Sum>(k, v)\<leftarrow>filter (\<lambda>(k, _). Q k) E. dn_value v)"
  using sum_core [where f = nodeCore and P = "\<lambda>(i, k, _). P i k" and w = "\<lambda>(_, _, v). v" and Q = Q, OF assms(1)]
    assms(2)
  by (simp add: nodeCore_def)

lemma sum_links:
  assumes "mset (map linkCore xs) = mset (map (\<lambda>(_, v). linkCore v) E)"
    and "\<And>k v. (k, v) \<in> set E \<Longrightarrow> P (dl_source v) (dl_target v) \<longleftrightarrow> Q k"
  shows "(\<Sum>l\<leftarrow>filter (\<lambda>l. P (dl_source l) (dl_target l)) xs. dl_value l) =
    (\<Sum>(k, v)\<leftarrow>filter (\<lambda>(k, _). Q k) E. dl_value v)"
  using sum_core [where f = linkCore and P = "\<lambda>(s, t, _). P s t" and w = "\<lambda>(_, _, v). v" and Q = Q, OF assms(1)]
    assms(2)
  by (simp add: linkCore_def)

definition summaryValue :: "FlowSummary \<Rightarrow> FlowMetric \<Rightarrow> rat" where
  "summaryValue s metric =
     metricValue \<lparr>fm_quota = su_quota s, fm_tokens = su_tokens s, fm_requests = su_requests s\<rparr> metric"

lemma buildSummary_sum: "summaryValue (buildSummary rows) metric = (\<Sum>row\<leftarrow>rows. metricValue (rowMetrics row) metric)"
  unfolding buildSummary_def
  by (induction rows rule: rev_induct) (auto simp: summaryValue_def metricValue_def Let_def)

lemma prepared_total:
  assumes "go_overflowMode options \<noteq> Some Hide \<or> normalizeTopNodeLimit (go_topNodeLimit options) = None"
  shows "(\<Sum>p\<leftarrow>prepareFlowPaths env rows metric stages ctx options. pathValue metric p) =
    summaryValue (buildSummary rows) metric"
  using arg_cong [OF metrics_prepared [OF assms, of env rows metric stages ctx],
      of "\<lambda>ms. \<Sum>m\<leftarrow>ms. metricValue m metric"]
  by (simp add: buildSummary_sum pathValue_def comp_def)

text \<open>A column of nodes carries the sum over all paths, and so does the set of links that leave it.\<close>

lemma column_nodes:
  assumes "k \<in> set (resolveVisibleStages role visible)"
  shows "(\<Sum>n\<leftarrow>filter (\<lambda>n. dn_kind n = k) (fg_nodes (buildFlowGraph env rows metric role palette visible ctx options)).
      dn_value n) =
    (\<Sum>p\<leftarrow>prepareFlowPaths env rows metric (resolveVisibleStages role visible) ctx options. pathValue metric p)"
proof -
  let ?g = "buildFlowGraph env rows metric role palette visible ctx options"
  let ?stages = "resolveVisibleStages role visible"
  let ?ps = "prepareFlowPaths env rows metric ?stages ctx options"
  obtain colorOf where core: "mset (map nodeCore (fg_nodes ?g)) =
      mset (map (\<lambda>(_, v). nodeCore v) (fst (fold (addFlowPath metric colorOf) ?ps ([], []))))"
    using flowGraph_core by blast
  have key: "dn_kind v = k \<longleftrightarrow> idOfKind k i"
    if "(i, v) \<in> set (fst (fold (addFlowPath metric colorOf) ?ps ([], [])))" for i v
    using built_node_entry [OF that] wfPath_ofKind [OF wfPath_prepared] by auto
  have "(\<Sum>n\<leftarrow>filter (\<lambda>n. dn_kind n = k) (fg_nodes ?g). dn_value n) =
      (\<Sum>(i, v)\<leftarrow>filter (\<lambda>(i, _). idOfKind k i) (fst (fold (addFlowPath metric colorOf) ?ps ([], []))). dn_value v)"
    by (rule sum_nodes [where P = "\<lambda>_ k'. k' = k", OF core key])
  also have "\<dots> = (\<Sum>p\<leftarrow>?ps. pathValue metric p)"
    unfolding nodes_sum
  proof (intro arg_cong [where f = sum_list] map_cong refl)
    fix p assume p: "p \<in> set ?ps"
    have "filter (\<lambda>n. idOfKind k (fp_id n)) (pp_path p) = filter (\<lambda>n. fp_kind n = k) (pp_path p)"
      using wfPath_ofKind [OF wfPath_prepared [OF p]] by (intro filter_cong) auto
    then show "of_nat (length (filter (\<lambda>n. idOfKind k (fp_id n)) (pp_path p))) * pathValue metric p = pathValue metric p"
      using length_filter_kind [OF wfPath_prepared [OF p] distinct_resolveVisibleStages assms] by simp
  qed
  finally show ?thesis .
qed

lemma steps_fst: "map fst (pathSteps xs) = butlast xs"
  by (induction xs) (auto simp: pathSteps_def neq_Nil_conv)

lemma steps_snd: "map snd (pathSteps xs) = tl xs"
  by (rule nth_equalityI) (auto simp: pathSteps_def nth_tl)

lemma length_filter_fst: "length (filter (\<lambda>(s, _). Q s) xs) = length (filter Q (map fst xs))"
  by (induction xs) auto

lemma length_filter_snd: "length (filter (\<lambda>(_, t). Q t) xs) = length (filter Q (map snd xs))"
  by (induction xs) auto

lemma filter_butlast: "xs \<noteq> [] \<Longrightarrow> \<not> Q (last xs) \<Longrightarrow> filter Q (butlast xs) = filter Q xs"
  by (metis append_butlast_last_id append_Nil2 filter.simps filter_append)

lemma filter_tl: "xs \<noteq> [] \<Longrightarrow> \<not> Q (hd xs) \<Longrightarrow> filter Q (tl xs) = filter Q xs"
  by (cases xs) auto

lemma set_pathSteps: "(s, t) \<in> set (pathSteps xs) \<Longrightarrow> s \<in> set xs \<and> t \<in> set xs"
  by (auto simp: pathSteps_def dest: set_zip_leftD set_zip_rightD list.set_sel(2))
    (metis list.sel(2) list.set_sel(2) set_zip_rightD)

lemma distinct_node_ids:
  "distinct (map dn_id (fg_nodes (buildFlowGraph env rows metric role palette visible ctx options)))"
proof -
  let ?ps = "prepareFlowPaths env rows metric (resolveVisibleStages role visible) ctx options"
  obtain colorOf where core: "mset (map nodeCore (fg_nodes (buildFlowGraph env rows metric role palette visible ctx options))) =
      mset (map (\<lambda>(_, v). nodeCore v) (fst (fold (addFlowPath metric colorOf) ?ps ([], []))))"
    using flowGraph_core by blast
  let ?E = "fst (fold (addFlowPath metric colorOf) ?ps ([], []))"
  have "map (\<lambda>(_, v). dn_id v) ?E = map fst ?E" using built_node_entry [of _ _ metric colorOf ?ps] by fastforce
  moreover have "mset (map dn_id (fg_nodes (buildFlowGraph env rows metric role palette visible ctx options))) =
      mset (map (\<lambda>(_, v). dn_id v) ?E)"
    using arg_cong [OF core, of "image_mset fst"]
    by (simp add: nodeCore_def comp_def case_prod_beta' multiset.map_comp)
  ultimately show ?thesis
    using distinct_built(1) [of metric colorOf ?ps] by (metis mset_eq_imp_distinct_iff)
qed

lemma node_value:
  fixes env rows metric role palette visible ctx options
  defines "g \<equiv> buildFlowGraph env rows metric role palette visible ctx options"
    and "ps \<equiv> prepareFlowPaths env rows metric (resolveVisibleStages role visible) ctx options"
  assumes "n \<in> set (fg_nodes g)"
  shows "dn_value n = (\<Sum>p\<leftarrow>ps. of_nat (length (filter (\<lambda>m. fp_id m = dn_id n) (pp_path p))) * pathValue metric p)"
    and "\<exists>p \<in> set ps. \<exists>m \<in> set (pp_path p). fp_id m = dn_id n \<and> fp_kind m = dn_kind n"
proof -
  obtain colorOf where core: "mset (map nodeCore (fg_nodes g)) =
      mset (map (\<lambda>(_, v). nodeCore v) (fst (fold (addFlowPath metric colorOf) ps ([], []))))"
    unfolding g_def ps_def using flowGraph_core by blast
  let ?E = "fst (fold (addFlowPath metric colorOf) ps ([], []))"
  have key: "dn_id v = k" if "(k, v) \<in> set ?E" for k v
    using built_node_entry [OF that] by auto
  have "filter (\<lambda>m. dn_id m = dn_id n) xs = [n]" if "distinct (map dn_id xs)" "n \<in> set xs" for xs
    using that by (induction xs) (auto simp: filter_empty_conv image_iff)
  from this [OF distinct_node_ids assms(3) [unfolded g_def], folded g_def]
  have "dn_value n = (\<Sum>m\<leftarrow>filter (\<lambda>m. dn_id m = dn_id n) (fg_nodes g). dn_value m)" by simp
  also have "\<dots> = (\<Sum>(k, v)\<leftarrow>filter (\<lambda>(k, _). k = dn_id n) ?E. dn_value v)"
    by (rule sum_nodes [where P = "\<lambda>i _. i = dn_id n", OF core]) (simp add: key)
  finally show "dn_value n =
      (\<Sum>p\<leftarrow>ps. of_nat (length (filter (\<lambda>m. fp_id m = dn_id n) (pp_path p))) * pathValue metric p)"
    by (simp add: nodes_sum)
  have "nodeCore n \<in># mset (map nodeCore (fg_nodes g))" using assms(3) by simp
  then obtain k v where "(k, v) \<in> set ?E" "nodeCore v = nodeCore n" unfolding core by auto
  with built_node_entry [OF this(1)]
  show "\<exists>p \<in> set ps. \<exists>m \<in> set (pp_path p). fp_id m = dn_id n \<and> fp_kind m = dn_kind n"
    by (auto simp: nodeCore_def) blast
qed

lemma linkKey_parts:
  assumes "nul \<notin> set s"
  shows "takeWhile (\<lambda>c. c \<noteq> nul) (linkKey s t) = s" "tl (dropWhile (\<lambda>c. c \<noteq> nul) (linkKey s t)) = t"
proof -
  have "\<forall>c \<in> set s. c \<noteq> nul" using assms by auto
  then show "takeWhile (\<lambda>c. c \<noteq> nul) (linkKey s t) = s" "tl (dropWhile (\<lambda>c. c \<noteq> nul) (linkKey s t)) = t"
    by (simp_all add: linkKey_def takeWhile_append2 dropWhile_append2)
qed

text \<open>The links with an endpoint carry the paths with that step.\<close>

lemma link_values:
  fixes env rows metric role palette visible ctx options
  defines "g \<equiv> buildFlowGraph env rows metric role palette visible ctx options"
    and "ps \<equiv> prepareFlowPaths env rows metric (resolveVisibleStages role visible) ctx options"
  assumes "\<forall>row \<in> set rows. cleanRow row"
  shows "(\<Sum>l\<leftarrow>filter (\<lambda>l. P (dl_source l) (dl_target l)) (fg_links g). dl_value l) =
    (\<Sum>p\<leftarrow>ps. of_nat (length (filter (\<lambda>(s, t). P (fp_id s) (fp_id t)) (pathSteps (pp_path p)))) * pathValue metric p)"
proof -
  obtain colorOf where core: "mset (map linkCore (fg_links g)) =
      mset (map (\<lambda>(_, v). linkCore v) (snd (fold (addFlowPath metric colorOf) ps ([], []))))"
    unfolding g_def ps_def using flowGraph_core by blast
  let ?E = "snd (fold (addFlowPath metric colorOf) ps ([], []))"
  let ?Q = "\<lambda>key. P (takeWhile (\<lambda>c. c \<noteq> nul) key) (tl (dropWhile (\<lambda>c. c \<noteq> nul) key))"
  have clean: "nul \<notin> set (fp_id s)" if "p \<in> set ps" "(s, t) \<in> set (pathSteps (pp_path p))" for p s t
    using clean_prepared [OF that(1) [unfolded ps_def] _ assms(3)] set_pathSteps [OF that(2)] by blast
  have "P (dl_source v) (dl_target v) \<longleftrightarrow> ?Q k" if "(k, v) \<in> set ?E" for k v
    using built_link_entry [OF that] clean by (auto simp: linkKey_parts)
  with sum_links [OF core, of P ?Q]
  have "(\<Sum>l\<leftarrow>filter (\<lambda>l. P (dl_source l) (dl_target l)) (fg_links g). dl_value l) =
      (\<Sum>p\<leftarrow>ps. of_nat (length (filter (\<lambda>(s, t). ?Q (pathLinkKey s t)) (pathSteps (pp_path p)))) * pathValue metric p)"
    by (simp add: links_sum)
  also have "\<dots> = (\<Sum>p\<leftarrow>ps. of_nat (length (filter (\<lambda>(s, t). P (fp_id s) (fp_id t)) (pathSteps (pp_path p)))) * pathValue metric p)"
  proof (intro arg_cong [where f = sum_list] map_cong refl)
    fix p assume p: "p \<in> set ps"
    have "filter (\<lambda>(s, t). ?Q (pathLinkKey s t)) (pathSteps (pp_path p)) =
        filter (\<lambda>(s, t). P (fp_id s) (fp_id t)) (pathSteps (pp_path p))"
      using clean [OF p] by (intro filter_cong) (auto simp: pathLinkKey_def linkKey_parts)
    then show "of_nat (length (filter (\<lambda>(s, t). ?Q (pathLinkKey s t)) (pathSteps (pp_path p)))) * pathValue metric p =
        of_nat (length (filter (\<lambda>(s, t). P (fp_id s) (fp_id t)) (pathSteps (pp_path p)))) * pathValue metric p"
      by simp
  qed
  finally show ?thesis .
qed

text \<open>Along a path, an identifier of another column than the last is the source of a step as often as
  it occurs, and one of another column than the first the target.\<close>

lemma steps_from:
  assumes "wfPath stages path" and "idOfKind k i" and "stages \<noteq> []"
  shows "k \<noteq> last stages \<Longrightarrow>
      length (filter (\<lambda>(s, t). fp_id s = i) (pathSteps path)) = length (filter (\<lambda>m. fp_id m = i) path)"
    and "k \<noteq> hd stages \<Longrightarrow>
      length (filter (\<lambda>(s, t). fp_id t = i) (pathSteps path)) = length (filter (\<lambda>m. fp_id m = i) path)"
proof -
  have ne: "path \<noteq> []" and kinds: "map fp_kind path = stages" using assms(1,3) by (auto simp: wfPath_def)
  have kind: "fp_kind m = k" if "m \<in> set path" "fp_id m = i" for m
    using wfPath_ofKind [OF assms(1) that(1)] assms(2) that(2) by auto
  show "length (filter (\<lambda>(s, t). fp_id s = i) (pathSteps path)) = length (filter (\<lambda>m. fp_id m = i) path)"
    if "k \<noteq> last stages"
  proof -
    have "fp_id (last path) \<noteq> i" using kind [of "last path"] that kinds ne by (auto simp: last_map)
    then show ?thesis
      using length_filter_fst [of "\<lambda>m. fp_id m = i" "pathSteps path"] filter_butlast [OF ne, of "\<lambda>m. fp_id m = i"]
      by (simp add: steps_fst)
  qed
  show "length (filter (\<lambda>(s, t). fp_id t = i) (pathSteps path)) = length (filter (\<lambda>m. fp_id m = i) path)"
    if "k \<noteq> hd stages"
  proof -
    have "fp_id (hd path) \<noteq> i" using kind [of "hd path"] that kinds ne by (auto simp: hd_map)
    then show ?thesis
      using length_filter_snd [of "\<lambda>m. fp_id m = i" "pathSteps path"] filter_tl [OF ne, of "\<lambda>m. fp_id m = i"]
      by (simp add: steps_snd)
  qed
qed

section \<open>Conservation of the metric\<close>

text \<open>C19. Whatever the role, the visible columns, the filters, the masking, the highlighting and the
  limit on nodes, as long as overflowing nodes are merged and not hidden: the values of the nodes of
  any visible column add up to the metric in the summary of the rows.  Nothing is lost or counted
  twice by the aggregation into nodes, nor by the merging into the nodes "Other".\<close>

theorem flow_column_total:
  assumes "go_overflowMode options \<noteq> Some Hide \<or> normalizeTopNodeLimit (go_topNodeLimit options) = None"
    and "k \<in> set (resolveVisibleStages role visible)"
  shows "(\<Sum>n\<leftarrow>filter (\<lambda>n. dn_kind n = k) (fg_nodes (buildFlowGraph env rows metric role palette visible ctx options)).
      dn_value n) = summaryValue (buildSummary rows) metric"
  using column_nodes [OF assms(2)] prepared_total [OF assms(1)] by simp

text \<open>C20. An inner node passes on what it receives: the links that leave a node of any column but
  the last add up to the value of the node, and the links that enter a node of any column but the
  first do, too.  The names in the rows do not have the character that separates the two ends of a
  link in its key.\<close>

theorem flow_node_balance:
  fixes env rows metric role palette visible ctx options
  defines "g \<equiv> buildFlowGraph env rows metric role palette visible ctx options"
  assumes "\<forall>row \<in> set rows. cleanRow row" and "n \<in> set (fg_nodes g)"
  shows "(dn_kind n \<noteq> last (resolveVisibleStages role visible) \<longrightarrow>
      (\<Sum>l\<leftarrow>filter (\<lambda>l. dl_source l = dn_id n) (fg_links g). dl_value l) = dn_value n) \<and>
    (dn_kind n \<noteq> hd (resolveVisibleStages role visible) \<longrightarrow>
      (\<Sum>l\<leftarrow>filter (\<lambda>l. dl_target l = dn_id n) (fg_links g). dl_value l) = dn_value n)"
proof -
  let ?stages = "resolveVisibleStages role visible"
  let ?ps = "prepareFlowPaths env rows metric ?stages ctx options"
  note val = node_value [OF assms(3) [unfolded g_def], folded g_def]
  have ne: "?stages \<noteq> []" using length_resolveVisibleStages [of role visible] by auto
  have ofKind: "idOfKind (dn_kind n) (dn_id n)"
    using val(2) wfPath_ofKind [OF wfPath_prepared] by metis
  note steps = steps_from [OF wfPath_prepared ofKind ne]
  have out: "(\<Sum>l\<leftarrow>filter (\<lambda>l. dl_source l = dn_id n) (fg_links g). dl_value l) = dn_value n"
    if "dn_kind n \<noteq> last ?stages"
    unfolding val(1) g_def link_values [OF assms(2), where P = "\<lambda>s _. s = dn_id n"]
    by (intro arg_cong [where f = sum_list] map_cong refl) (simp add: steps(1) [OF _ that])
  have inc: "(\<Sum>l\<leftarrow>filter (\<lambda>l. dl_target l = dn_id n) (fg_links g). dl_value l) = dn_value n"
    if "dn_kind n \<noteq> hd ?stages"
    unfolding val(1) g_def link_values [OF assms(2), where P = "\<lambda>_ t. t = dn_id n"]
    by (intro arg_cong [where f = sum_list] map_cong refl) (simp add: steps(2) [OF _ that])
  from out inc show ?thesis by blast
qed

end
