(* ===== verification/Flow_Top.thy ===== *)
theory Flow_Top
  imports Flow_Laws
begin

text \<open>
  The limit on the nodes of a column (\<open>buildTopNodeSets\<close>, \<open>applyTopNodeLimit\<close>), the shares of the
  links, and what masking and highlighting do to the graph.
\<close>

section \<open>The totals behind the limit\<close>

definition rankUpd :: "string \<Rightarrow> FlowPathNode \<times> rat \<Rightarrow> FlowNodeRank option \<Rightarrow> FlowNodeRank" where
  "rankUpd i d prev =
     (let current = (case prev of Some r \<Rightarrow> r | None \<Rightarrow> \<lparr>rk_node = fst d, rk_value = 0\<rparr>) in
      current\<lparr>rk_value := rk_value current + snd d\<rparr>)"

lemma get_addStageTotal:
  "om_get (addStageTotal v n totals) k =
   (if k = fp_kind n
    then map_option (\<lambda>t. om_set (fp_id n) (rankUpd (fp_id n) (n, v) (om_get t (fp_id n))) t) (om_get totals k)
    else om_get totals k)"
  by (auto simp: addStageTotal_def rankUpd_def Let_def om.get_put split: option.splits)

lemma get_fold_addStageTotal:
  assumes "distinct stages"
  shows "om_get (fold (addStageTotal v) (flowPathForStages row stages ctx) totals) k =
    (if k \<in> set stages
     then map_option (\<lambda>t. om_set (fp_id (NODE_BUILDERS k row ctx))
       (rankUpd (fp_id (NODE_BUILDERS k row ctx)) (NODE_BUILDERS k row ctx, v)
         (om_get t (fp_id (NODE_BUILDERS k row ctx)))) t) (om_get totals k)
     else om_get totals k)"
  using assms
proof (induction stages arbitrary: totals)
  case (Cons s stages)
  then show ?case by (auto simp: flowPathForStages_def get_addStageTotal)
qed (simp add: flowPathForStages_def)

definition rankContribs ::
  "FlowNodeKind \<Rightarrow> FlowMetric \<Rightarrow> FlowPathContext \<Rightarrow> FlowQuotaDataItem list \<Rightarrow> (string \<times> FlowPathNode \<times> rat) list" where
  "rankContribs k metric ctx rows =
     map (\<lambda>row. (fp_id (NODE_BUILDERS k row ctx), NODE_BUILDERS k row ctx, metricValue (rowMetrics row) metric)) rows"

abbreviation rankFold :: "(string \<times> FlowPathNode \<times> rat) list \<Rightarrow> stage_totals" where
  "rankFold xs \<equiv> fold (\<lambda>(i, d) m. om_set i (rankUpd i d (om_get m i)) m) xs []"

lemma get_stageTotals:
  assumes "distinct stages"
  shows "om_get (stageTotals rows metric stages ctx) k =
    (if k \<in> set stages then Some (rankFold (rankContribs k metric ctx rows)) else None)"
proof -
  have init: "om_get (fold (\<lambda>stage m. om_set stage [] m) stages []) k = (if k \<in> set stages then Some [] else None)"
    by (induction stages rule: rev_induct) (auto simp: om.get_empty om.get_put)
  show ?thesis
    unfolding stageTotals_def
    by (induction rows rule: rev_induct)
      (simp_all add: init rankContribs_def Let_def get_fold_addStageTotal [OF assms])
qed

lemma keys_addStageTotal: "om_keys (addStageTotal v n totals) = om_keys totals"
  using om.keys_get [of "fp_kind n" totals]
  by (auto simp: addStageTotal_def om.keys_put os_add_def Let_def split: option.splits)

lemma distinct_stageTotals: "distinct (om_keys (stageTotals rows metric stages ctx))"
proof -
  have keys: "om_keys (fold (addStageTotal v) path totals) = om_keys totals" for v path totals
    by (induction path arbitrary: totals) (auto simp: keys_addStageTotal)
  have "distinct (om_keys (fold (\<lambda>stage m. om_set stage [] m) stages []))"
    by (induction stages rule: rev_induct) (simp_all add: distinct_om_set om.keys_empty)
  then show ?thesis
    unfolding stageTotals_def by (induction rows rule: rev_induct) (auto simp: keys Let_def)
qed

lemma om_get_fold_map:
  "distinct (om_keys xs) \<Longrightarrow>
   om_get (fold (\<lambda>(k, x) m. om_set k (h x) m) xs M) k =
   (case om_get xs k of Some x \<Rightarrow> Some (h x) | None \<Rightarrow> om_get M k)"
proof (induction xs arbitrary: M)
  case (Cons e xs)
  obtain k' x where e: "e = (k', x)" by (cases e)
  have "om_get xs k' = None" using Cons.prems e om.keys_get [of k' xs] by (auto simp: om_keys_def)
  with Cons show ?case
    by (cases "k = k'") (simp_all add: e om.get_put om_keys_def om_get_def [of "(k', x) # xs"] flip: om_get_def
        split: option.split)
qed (simp add: om.get_empty)

definition topIds :: "FlowEnv \<Rightarrow> nat \<Rightarrow> stage_totals \<Rightarrow> string list" where
  "topIds env n totals =
     os_of (map (\<lambda>rank. fp_id (rk_node rank)) (take n (js_sort (rankCompare env) (om_values totals))))"

lemma get_topNodeSets:
  assumes "distinct stages" and "0 < n"
  shows "\<exists>sets. buildTopNodeSets env rows metric stages (Some n) ctx = Some sets \<and>
    (\<forall>k. om_get sets k =
      (if k \<in> set stages then Some (topIds env n (rankFold (rankContribs k metric ctx rows))) else None))"
proof -
  have eq: "(\<lambda>(kind, totals) topSets.
        let topIds = map (\<lambda>rank. fp_id (rk_node rank)) (take n (js_sort (rankCompare env) (om_values totals)))
        in om_set kind (os_of topIds) topSets) = (\<lambda>(kind, totals) topSets. om_set kind (topIds env n totals) topSets)"
    by (auto simp: topIds_def Let_def fun_eq_iff)
  show ?thesis
    using assms(2) unfolding buildTopNodeSets_def eq
    by (simp add: om_get_fold_map [OF distinct_stageTotals] get_stageTotals [OF assms(1)] om.get_empty topIds_def)
qed

section \<open>The nodes that stay are the largest\<close>

definition nodeTotal ::
  "FlowQuotaDataItem list \<Rightarrow> FlowMetric \<Rightarrow> FlowPathContext \<Rightarrow> FlowNodeKind \<Rightarrow> string \<Rightarrow> rat" where
  "nodeTotal rows metric ctx k i =
     (\<Sum>row\<leftarrow>filter (\<lambda>row. fp_id (NODE_BUILDERS k row ctx) = i) rows. metricValue (rowMetrics row) metric)"

lemma rankFold_entry:
  assumes "(i, r) \<in> set (rankFold (rankContribs k metric ctx rows))"
  shows "fp_id (rk_node r) = i" and "rk_value r = nodeTotal rows metric ctx k i"
proof -
  have get: "om_get (rankFold (rankContribs k metric ctx rows)) i = Some r"
    using assms by (simp add: om_get_iff [OF om.distinct_keys_fold])
  then show "fp_id (rk_node r) = i"
    by (rule om.get_fold_invariant [where P = "\<lambda>r. fp_id (rk_node r) = i" and f = rankUpd, rotated -1])
      (auto simp: rankUpd_def rankContribs_def Let_def)
  have "rk_value r = (\<Sum>(_, d)\<leftarrow>filter (\<lambda>(i', _). i' = i) (rankContribs k metric ctx rows). snd d)"
    by (rule om.get_fold_measure [where w = rk_value and f = rankUpd, OF _ _ get]) (auto simp: rankUpd_def Let_def)
  also have "\<dots> = nodeTotal rows metric ctx k i"
    by (induction rows) (auto simp: rankContribs_def nodeTotal_def)
  finally show "rk_value r = nodeTotal rows metric ctx k i" .
qed

lemma rankFold_covers:
  assumes "row \<in> set rows"
  shows "\<exists>r. (fp_id (NODE_BUILDERS k row ctx), r) \<in> set (rankFold (rankContribs k metric ctx rows))"
proof -
  let ?i = "fp_id (NODE_BUILDERS k row ctx)"
  have "?i \<in> set (om_keys (rankFold (rankContribs k metric ctx rows)))"
    using assms by (auto simp: om.keys_fold_empty rankContribs_def)
  then show ?thesis by (auto simp: om_keys_def)
qed

lemma rankCompare_comparator:
  assumes "signed_comparator (fe_compare env)"
  shows "signed_comparator (rankCompare env)"
proof -
  have pull: "signed_comparator (\<lambda>a b. fe_compare env (f a) (f b))" for f :: "FlowNodeRank \<Rightarrow> string"
    using assms unfolding signed_comparator_def comparator_def signed_comparator_axioms_def by blast
  show ?thesis
    unfolding rankCompare_def [abs_def]
    by (intro signed_comparator_or signed_comparator_by_key_desc pull)
qed

lemma length_os_of: "length (os_of xs) \<le> length xs"
  by (metis card_length distinct_card distinct_os_of set_os_of)

lemma length_topIds: "length (topIds env n totals) \<le> n"
  unfolding topIds_def by (rule order_trans [OF length_os_of]) simp

lemma cmp_or_leD: "cmp_or x y \<le> 0 \<Longrightarrow> x \<le> 0"
  by (auto simp: cmp_or_def split: if_splits)

lemma set_drop_not_take: "x \<in> set xs \<Longrightarrow> x \<notin> set (take n xs) \<Longrightarrow> x \<in> set (drop n xs)"
  by (metis UnE append_take_drop_id set_append)

lemma topIds_best:
  assumes "signed_comparator (fe_compare env)"
    and "i \<in> set (topIds env n (rankFold (rankContribs k metric ctx rows)))"
    and "row \<in> set rows"
    and "fp_id (NODE_BUILDERS k row ctx) \<notin> set (topIds env n (rankFold (rankContribs k metric ctx rows)))"
  shows "nodeTotal rows metric ctx k (fp_id (NODE_BUILDERS k row ctx)) \<le> nodeTotal rows metric ctx k i"
proof -
  let ?totals = "rankFold (rankContribs k metric ctx rows)"
  let ?sorted = "js_sort (rankCompare env) (om_values ?totals)"
  note cmp = rankCompare_comparator [OF assms(1)]
  from assms(2) obtain a where a: "a \<in> set (take n ?sorted)" "i = fp_id (rk_node a)"
    unfolding topIds_def set_os_of set_map by blast
  obtain b where b: "(fp_id (NODE_BUILDERS k row ctx), b) \<in> set ?totals"
    using rankFold_covers [OF assms(3)] by blast
  have "b \<in> set ?sorted" using b unfolding set_js_sort om_values_def set_map by (rule rev_image_eqI) simp
  moreover have "b \<notin> set (take n ?sorted)"
  proof
    assume "b \<in> set (take n ?sorted)"
    then have "fp_id (rk_node b) \<in> set (topIds env n ?totals)" by (simp add: topIds_def)
    with assms(4) rankFold_entry(1) [OF b] show False by simp
  qed
  ultimately have "b \<in> set (drop n ?sorted)"
    by (rule set_drop_not_take)
  from comparator.take_js_sort_best [OF signed_comparator.axioms(1) [OF cmp] a(1) this]
  have "by_key_desc rk_value a b \<le> 0" unfolding rankCompare_def by (rule cmp_or_leD)
  then have "rk_value b \<le> rk_value a" by (simp add: by_key_desc_def)
  moreover have "a \<in> set (om_values ?totals)" using in_set_takeD [OF a(1)] by simp
  then obtain i' where "(i', a) \<in> set ?totals" by (auto simp: om_values_def)
  from rankFold_entry [OF this] have "rk_value a = nodeTotal rows metric ctx k i" using a(2) by simp
  ultimately show ?thesis using rankFold_entry(2) [OF b] by simp
qed

section \<open>The limit in the graph\<close>

definition limitNode :: "(FlowNodeKind, string list) omap option \<Rightarrow> OtherNodeLabel \<Rightarrow> FlowPathNode \<Rightarrow> FlowPathNode" where
  "limitNode sets labeler node =
     (if isTopFlowNode node sets then node else otherFlowNode (fp_kind node) labeler)"

lemma applyTop_merge:
  "mode \<noteq> Hide \<Longrightarrow> applyTopNodeLimit path sets mode labeler = Some (map (limitNode sets labeler) path)"
  by (auto simp: applyTopNodeLimit_def limitNode_def isTopFlowNode_def list_ex_iff intro!: map_idI [symmetric])

lemma prepared_merge:
  assumes "go_overflowMode options \<noteq> Some Hide"
  shows "prepareFlowPaths env rows metric stages ctx options =
    map (\<lambda>row. \<lparr>pp_path = map (\<lambda>k. limitNode (buildTopNodeSets env rows metric stages
          (normalizeTopNodeLimit (go_topNodeLimit options)) ctx) (go_otherNodeLabel options) (NODE_BUILDERS k row ctx)) stages,
        pp_metrics = rowMetrics row\<rparr>) rows"
proof -
  have "(case go_overflowMode options of Some m \<Rightarrow> m | None \<Rightarrow> Aggregate) \<noteq> Hide"
    using assms by (cases "go_overflowMode options") auto
  then show ?thesis
    by (simp add: prepareFlowPaths_def applyTop_merge Let_def List.map_filter_def flowPathForStages_def comp_def)
qed

lemma fp_kind_limitNode [simp]: "fp_kind (limitNode sets labeler node) = fp_kind node"
  by (simp add: limitNode_def)

text \<open>The graph has a node for every node of a path.\<close>

lemma nodes_cover:
  assumes "p \<in> set (prepareFlowPaths env rows metric (resolveVisibleStages role visible) ctx options)"
    and "m \<in> set (pp_path p)"
  shows "\<exists>n \<in> set (fg_nodes (buildFlowGraph env rows metric role palette visible ctx options)).
    dn_id n = fp_id m \<and> dn_kind n = fp_kind m"
proof -
  let ?ps = "prepareFlowPaths env rows metric (resolveVisibleStages role visible) ctx options"
  obtain colorOf where core: "mset (map nodeCore (fg_nodes (buildFlowGraph env rows metric role palette visible ctx options))) =
      mset (map (\<lambda>(_, v). nodeCore v) (fst (fold (addFlowPath metric colorOf) ?ps ([], []))))"
    using flowGraph_core by blast
  let ?E = "fst (fold (addFlowPath metric colorOf) ?ps ([], []))"
  have "om_keys ?E = os_of (map fst (nodeContribs colorOf ?ps))"
    by (simp add: built_nodes om.keys_fold_empty)
  then have "fp_id m \<in> set (om_keys ?E)"
    using assms by (force simp: nodeContribs_def)
  then obtain v where v: "(fp_id m, v) \<in> set ?E" by (auto simp: om_keys_def)
  from built_node_entry [OF this] obtain p' m' where m': "p' \<in> set ?ps" "m' \<in> set (pp_path p')"
    "fp_id m = fp_id m'" "dn_id v = fp_id m'" "dn_kind v = fp_kind m'" by blast
  have "idOfKind (fp_kind m) (fp_id m)" "idOfKind (fp_kind m') (fp_id m')"
    using wfPath_ofKind [OF wfPath_prepared] assms m'(1,2) by blast+
  then have "fp_kind m' = fp_kind m" using m'(3) idOfKind_unique by metis
  moreover have "nodeCore v \<in># mset (map (\<lambda>(_, v). nodeCore v) ?E)" using v by force
  ultimately show ?thesis
    unfolding core [symmetric] using m' by (auto simp: nodeCore_def)
qed

text \<open>How often an identifier occurs on a merged path.\<close>

lemma length_filter_column:
  assumes "distinct stages" and "k \<in> set stages" and "\<And>s. s \<in> set stages \<Longrightarrow> fp_id (h s) = i \<Longrightarrow> s = k"
  shows "length (filter (\<lambda>m. fp_id m = i) (map h stages)) = (if fp_id (h k) = i then 1 else 0)"
proof -
  have "length (filter (\<lambda>s. fp_id (h s) = i) xs) = (if k \<in> set xs \<and> fp_id (h k) = i then 1 else 0)"
    if "distinct xs" "set xs \<subseteq> set stages" for xs
    using that assms(3) by (induction xs) auto
  from this [OF assms(1)] assms(2) show ?thesis by (simp add: filter_map comp_def)
qed

lemma merged_path_count:
  assumes "distinct stages" and "k \<in> set stages" and "idOfKind k i"
  shows "length (filter (\<lambda>m. fp_id m = i) (map (\<lambda>s. limitNode sets labeler (NODE_BUILDERS s row ctx)) stages)) =
    (if fp_id (limitNode sets labeler (NODE_BUILDERS k row ctx)) = i then 1 else 0)"
proof (rule length_filter_column [OF assms(1,2)])
  fix s assume "fp_id (limitNode sets labeler (NODE_BUILDERS s row ctx)) = i"
  then have "idOfKind s i"
    by (metis fp_kind_builder idOfKind_builder idOfKind_other limitNode_def)
  then show "s = k" using idOfKind_unique assms(3) by blast
qed

lemma merged_node_value:
  fixes env rows metric role palette visible ctx options
  defines "g \<equiv> buildFlowGraph env rows metric role palette visible ctx options"
    and "sets \<equiv> buildTopNodeSets env rows metric (resolveVisibleStages role visible)
      (normalizeTopNodeLimit (go_topNodeLimit options)) ctx"
  assumes "go_overflowMode options \<noteq> Some Hide" and "k \<in> set (resolveVisibleStages role visible)"
    and "n \<in> set (fg_nodes g)" and "dn_kind n = k"
  shows "dn_value n = (\<Sum>row\<leftarrow>filter (\<lambda>row. fp_id (limitNode sets (go_otherNodeLabel options)
      (NODE_BUILDERS k row ctx)) = dn_id n) rows. metricValue (rowMetrics row) metric)"
    and "\<exists>row \<in> set rows. fp_id (limitNode sets (go_otherNodeLabel options) (NODE_BUILDERS k row ctx)) = dn_id n"
proof -
  let ?stages = "resolveVisibleStages role visible"
  note val = node_value [OF assms(5) [unfolded g_def], unfolded prepared_merge [OF assms(3)] sets_def [symmetric]]
  have wf: "wfPath ?stages (map (\<lambda>k. limitNode sets (go_otherNodeLabel options) (NODE_BUILDERS k row ctx)) ?stages)"
    if "row \<in> set rows" for row
    using wfPath_prepared [of "\<lparr>pp_path = map (\<lambda>k. limitNode sets (go_otherNodeLabel options) (NODE_BUILDERS k row ctx)) ?stages,
      pp_metrics = rowMetrics row\<rparr>" env rows metric ?stages ctx options] that
    unfolding prepared_merge [OF assms(3)] sets_def [symmetric] by auto
  have ofKind: "idOfKind k (dn_id n)"
    using val(2) wfPath_ofKind [OF wf] assms(6) by force
  show "\<exists>row \<in> set rows. fp_id (limitNode sets (go_otherNodeLabel options) (NODE_BUILDERS k row ctx)) = dn_id n"
    using val(2) assms(6) by auto
  have sum: "(\<Sum>row\<leftarrow>xs. rat_of_nat (if P row then 1 else 0) * v row) = (\<Sum>row\<leftarrow>filter P xs. v row)"
    for P and v :: "FlowQuotaDataItem \<Rightarrow> rat" and xs
    by (induction xs) auto
  show "dn_value n = (\<Sum>row\<leftarrow>filter (\<lambda>row. fp_id (limitNode sets (go_otherNodeLabel options)
      (NODE_BUILDERS k row ctx)) = dn_id n) rows. metricValue (rowMetrics row) metric)"
    unfolding val(1)
    by (simp only: list.map_comp comp_def FlowPathNode.simps PreparedFlowPath.select_convs pathValue_def
        merged_path_count [OF distinct_resolveVisibleStages assms(4) ofKind] sum)
qed

lemma merged_cover:
  assumes "go_overflowMode options \<noteq> Some Hide" and "k \<in> set (resolveVisibleStages role visible)"
    and "row \<in> set rows"
  shows "\<exists>n \<in> set (fg_nodes (buildFlowGraph env rows metric role palette visible ctx options)).
    dn_id n = fp_id (limitNode (buildTopNodeSets env rows metric (resolveVisibleStages role visible)
      (normalizeTopNodeLimit (go_topNodeLimit options)) ctx) (go_otherNodeLabel options) (NODE_BUILDERS k row ctx))"
proof -
  let ?h = "\<lambda>k. limitNode (buildTopNodeSets env rows metric (resolveVisibleStages role visible)
      (normalizeTopNodeLimit (go_topNodeLimit options)) ctx) (go_otherNodeLabel options) (NODE_BUILDERS k row ctx)"
  have "\<lparr>pp_path = map ?h (resolveVisibleStages role visible), pp_metrics = rowMetrics row\<rparr>
      \<in> set (prepareFlowPaths env rows metric (resolveVisibleStages role visible) ctx options)"
    unfolding prepared_merge [OF assms(1)] using assms(3) by auto
  from nodes_cover [OF this, of "?h k" palette] assms(2) show ?thesis by auto
qed

lemma limitNode_top:
  assumes "om_get sets k = Some tops" and "fp_kind node = k"
  shows "fp_id (limitNode (Some sets) labeler node) =
    (if fp_id node \<in> set tops then fp_id node else OTHER_FLOW_NODE_IDS k)"
  using assms by (simp add: limitNode_def isTopFlowNode_def otherFlowNode_def)

lemma normalizeTopNodeLimit_pos: "normalizeTopNodeLimit limit = Some n \<Longrightarrow> 0 < n"
  by (auto simp: normalizeTopNodeLimit_def split: option.splits jsnum.splits if_splits)


section \<open>Shares\<close>

lemma column_links:
  assumes "\<forall>row \<in> set rows. cleanRow row" and "k \<in> set (resolveVisibleStages role visible)"
    and "k \<noteq> last (resolveVisibleStages role visible)"
  shows "(\<Sum>l\<leftarrow>filter (\<lambda>l. idOfKind k (dl_source l))
      (fg_links (buildFlowGraph env rows metric role palette visible ctx options)). dl_value l) =
    (\<Sum>p\<leftarrow>prepareFlowPaths env rows metric (resolveVisibleStages role visible) ctx options. pathValue metric p)"
  unfolding link_values [OF assms(1), where P = "\<lambda>s _. idOfKind k s"]
proof (intro arg_cong [where f = sum_list] map_cong refl)
  let ?stages = "resolveVisibleStages role visible"
  fix p assume p: "p \<in> set (prepareFlowPaths env rows metric ?stages ctx options)"
  note wf = wfPath_prepared [OF p]
  have ne: "pp_path p \<noteq> []" and kinds: "map fp_kind (pp_path p) = ?stages"
    using wf length_resolveVisibleStages [of role visible] by (auto simp: wfPath_def)
  have "fp_kind (last (pp_path p)) \<noteq> k" using kinds ne assms(3) by (metis last_map)
  then have "\<not> idOfKind k (fp_id (last (pp_path p)))" using wfPath_ofKind [OF wf] ne by auto
  then have "filter (\<lambda>m. idOfKind k (fp_id m)) (butlast (pp_path p)) = filter (\<lambda>m. idOfKind k (fp_id m)) (pp_path p)"
    by (rule filter_butlast [OF ne])
  also have "\<dots> = filter (\<lambda>m. fp_kind m = k) (pp_path p)"
    using wfPath_ofKind [OF wf] by (intro filter_cong) auto
  finally have "length (filter (\<lambda>(s, t). idOfKind k (fp_id s)) (pathSteps (pp_path p))) = 1"
    using length_filter_fst [of "\<lambda>m. idOfKind k (fp_id m)" "pathSteps (pp_path p)"]
      length_filter_kind [OF wf distinct_resolveVisibleStages assms(2)]
    by (simp add: steps_fst)
  then show "of_nat (length (filter (\<lambda>(s, t). idOfKind k (fp_id s)) (pathSteps (pp_path p)))) * pathValue metric p =
      pathValue metric p" by simp
qed

lemma link_ends:
  assumes "l \<in> set (fg_links (buildFlowGraph env rows metric role palette visible ctx options))"
  shows "\<exists>p \<in> set (prepareFlowPaths env rows metric (resolveVisibleStages role visible) ctx options).
    \<exists>(s, t) \<in> set (pathSteps (pp_path p)). dl_source l = fp_id s \<and> dl_target l = fp_id t"
proof -
  let ?ps = "prepareFlowPaths env rows metric (resolveVisibleStages role visible) ctx options"
  obtain colorOf where core: "mset (map linkCore (fg_links (buildFlowGraph env rows metric role palette visible ctx options))) =
      mset (map (\<lambda>(_, v). linkCore v) (snd (fold (addFlowPath metric colorOf) ?ps ([], []))))"
    using flowGraph_core by blast
  have "linkCore l \<in># mset (map linkCore (fg_links (buildFlowGraph env rows metric role palette visible ctx options)))"
    using assms by simp
  then obtain k v where v: "(k, v) \<in> set (snd (fold (addFlowPath metric colorOf) ?ps ([], [])))" "linkCore v = linkCore l"
    unfolding core by auto
  then have "dl_source l = dl_source v" "dl_target l = dl_target v" by (auto simp: linkCore_def)
  with built_link_entry [OF v(1)] show ?thesis by fastforce
qed

lemma rootIds_first:
  assumes "l \<in> set (fg_links (buildFlowGraph env rows metric role palette visible ctx options))"
  shows "dl_source l \<in> set (rootIds (prepareFlowPaths env rows metric (resolveVisibleStages role visible) ctx options))
    \<longleftrightarrow> idOfKind (hd (resolveVisibleStages role visible)) (dl_source l)"
proof -
  let ?stages = "resolveVisibleStages role visible"
  let ?ps = "prepareFlowPaths env rows metric ?stages ctx options"
  have path: "pp_path p \<noteq> [] \<and> fp_kind (hd (pp_path p)) = hd ?stages \<and> distinct (map fp_kind (pp_path p))"
    if "p \<in> set ?ps" for p
  proof -
    have kinds: "map fp_kind (pp_path p) = ?stages" using wfPath_prepared [OF that] by (simp add: wfPath_def)
    moreover have "pp_path p \<noteq> []" using kinds length_resolveVisibleStages [of role visible] by auto
    ultimately show ?thesis using distinct_resolveVisibleStages [of role visible] by (metis hd_map)
  qed
  have ofKind: "idOfKind (hd ?stages) (fp_id (hd (pp_path p)))" if "p \<in> set ?ps" for p
    using path [OF that] wfPath_ofKind [OF wfPath_prepared [OF that]] by simp
  have ids: "set (rootIds ?ps) = (\<lambda>p. fp_id (hd (pp_path p))) ` set ?ps"
  proof -
    have "fp_id (hd (pp_path p)) \<noteq> []" if "p \<in> set ?ps" for p
      using ofKind [OF that] by (auto simp: idOfKind_def)
    with path show ?thesis
      by (force simp: rootIds_def List.map_filter_def split: list.splits)
  qed
  obtain p s t where p: "p \<in> set ?ps" "(s, t) \<in> set (pathSteps (pp_path p))" "dl_source l = fp_id s"
    using link_ends [OF assms] by blast
  have "fp_id s = fp_id (hd (pp_path p))" if "idOfKind (hd ?stages) (fp_id s)"
  proof -
    have "fp_kind s = fp_kind (hd (pp_path p))"
      using that wfPath_ofKind [OF wfPath_prepared [OF p(1)]] set_pathSteps [OF p(2)] path [OF p(1)] by simp
    then have "s = hd (pp_path p)"
      using path [OF p(1)] set_pathSteps [OF p(2)] by (simp add: distinct_map inj_on_def)
    then show ?thesis by simp
  qed
  with p ids ofKind show ?thesis by auto
qed

lemma link_source_kind:
  assumes "l \<in> set (fg_links (buildFlowGraph env rows metric role palette visible ctx options))"
  shows "\<exists>k \<in> set (butlast (resolveVisibleStages role visible)). idOfKind k (dl_source l)"
proof -
  obtain p s t where p: "p \<in> set (prepareFlowPaths env rows metric (resolveVisibleStages role visible) ctx options)"
    "(s, t) \<in> set (pathSteps (pp_path p))" "dl_source l = fp_id s"
    using link_ends [OF assms] by blast
  note wf = wfPath_prepared [OF p(1)]
  have "s \<in> set (butlast (pp_path p))"
    using p(2) steps_fst [of "pp_path p"] by (metis fst_conv image_eqI list.set_map)
  then have "fp_kind s \<in> set (map fp_kind (butlast (pp_path p)))" by simp
  then have "fp_kind s \<in> set (butlast (resolveVisibleStages role visible))"
    using wf by (simp add: map_butlast wfPath_def)
  moreover have "idOfKind (fp_kind s) (fp_id s)"
    using wfPath_ofKind [OF wf] set_pathSteps [OF p(2)] by blast
  ultimately show ?thesis using p(3) by auto
qed

lemma sum_list_divide: "(\<Sum>x\<leftarrow>xs. f x / (c :: rat)) = (\<Sum>x\<leftarrow>xs. f x) / c"
  by (induction xs) (auto simp: add_divide_distrib)

text \<open>Values are sums of non-negative metrics.\<close>

lemma link_value_nonneg:
  assumes "\<forall>row \<in> set rows. 0 \<le> metricValue (rowMetrics row) metric"
    and "l \<in> set (fg_links (buildFlowGraph env rows metric role palette visible ctx options))"
  shows "0 \<le> dl_value l"
proof -
  let ?ps = "prepareFlowPaths env rows metric (resolveVisibleStages role visible) ctx options"
  obtain colorOf where core: "mset (map linkCore (fg_links (buildFlowGraph env rows metric role palette visible ctx options))) =
      mset (map (\<lambda>(_, v). linkCore v) (snd (fold (addFlowPath metric colorOf) ?ps ([], []))))"
    using flowGraph_core by blast
  have "linkCore l \<in># mset (map linkCore (fg_links (buildFlowGraph env rows metric role palette visible ctx options)))"
    using assms(2) by simp
  then obtain k v where v: "(k, v) \<in> set (snd (fold (addFlowPath metric colorOf) ?ps ([], [])))" "linkCore v = linkCore l"
    unfolding core by auto
  then have get: "om_get (fold (\<lambda>(k, d) m. om_set k (linkUpd metric k d (om_get m k)) m) (linkContribs colorOf ?ps) []) k = Some v"
    by (simp add: built_links om_get_iff [OF om.distinct_keys_fold])
  have "0 \<le> metricValue (fst (snd d)) metric" if "(k, d) \<in> set (linkContribs colorOf ?ps)" for k d
    using that assms(1)
    by (auto simp: linkContribs_def prepareFlowPaths_def List.map_filter_def Let_def split: option.splits)
  then have "0 \<le> dl_value v"
    by (intro om.get_fold_invariant [where P = "\<lambda>v. 0 \<le> dl_value v" and f = "linkUpd metric", OF _ _ get])
      (simp_all add: linkUpd_value)
  with v(2) show ?thesis by (simp add: linkCore_def)
qed


section \<open>Masking\<close>

definition hidden :: "string \<Rightarrow> bool" where
  "hidden label \<longleftrightarrow> label = [] \<or> label = FLOW_MASK_TEXT"

lemma hidden_mask: "hidden (maskFlowLabel label)"
  by (simp add: hidden_def maskFlowLabel_def)

lemma isMasked_label [simp]: "isMasked (n\<lparr>dn_label := x\<rparr>) = isMasked n"
  by (simp add: isMasked_def)

lemma mask_node:
  "(k, n) \<in> set (fst (maskFlowGraphLabels N L)) \<Longrightarrow> isMasked n \<Longrightarrow> hidden (dn_label n)"
  by (auto simp: maskFlowGraphLabels_def Let_def hidden_mask split: if_splits)

definition maskedIds :: "(string, DashboardFlowNode) omap \<Rightarrow> (string, string) omap" where
  "maskedIds N = fold (\<lambda>(_, node) m.
     if isMasked node then om_set (dn_id node) (maskFlowLabel (dn_label node)) m else m) N []"

lemma maskedIds_snoc:
  "maskedIds (N @ [(k, n)]) =
   (if isMasked n then om_set (dn_id n) (maskFlowLabel (dn_label n)) (maskedIds N) else maskedIds N)"
  by (simp add: maskedIds_def)

lemma maskedIds_none:
  "om_get (maskedIds N) i = None \<longleftrightarrow> (\<forall>(k, n) \<in> set N. isMasked n \<longrightarrow> dn_id n \<noteq> i)"
proof (induction N rule: rev_induct)
  case (snoc e N)
  then show ?case by (cases e) (auto simp: maskedIds_snoc om.get_put)
qed (simp add: maskedIds_def om.get_empty)

lemma maskedIds_some: "om_get (maskedIds N) i = Some x \<Longrightarrow> hidden x"
proof (induction N rule: rev_induct)
  case (snoc e N)
  then show ?case by (cases e) (auto simp: maskedIds_snoc om.get_put hidden_mask split: if_splits)
qed (simp add: maskedIds_def om.get_empty)

definition maskLink :: "(string, string) omap \<Rightarrow> DashboardFlowLink \<Rightarrow> DashboardFlowLink" where
  "maskLink ids l =
     (let link' = (case om_get ids (dl_source l) of Some s \<Rightarrow> l\<lparr>dl_sourceLabel := s\<rparr> | None \<Rightarrow> l) in
      case om_get ids (dl_target link') of Some t \<Rightarrow> link'\<lparr>dl_targetLabel := t\<rparr> | None \<Rightarrow> link')"

lemma maskLink_fields:
  "dl_source (maskLink ids l) = dl_source l" "dl_target (maskLink ids l) = dl_target l"
  "dl_sourceLabel (maskLink ids l) = (case om_get ids (dl_source l) of Some s \<Rightarrow> s | None \<Rightarrow> dl_sourceLabel l)"
  "dl_targetLabel (maskLink ids l) = (case om_get ids (dl_target l) of Some t \<Rightarrow> t | None \<Rightarrow> dl_targetLabel l)"
  by (cases "om_get ids (dl_source l)"; cases "om_get ids (dl_target l)"; simp add: maskLink_def Let_def)+

lemma maskFlowGraph_links:
  "maskedIds N \<noteq> [] \<Longrightarrow> snd (maskFlowGraphLabels N L) = map (\<lambda>(k, l). (k, maskLink (maskedIds N) l)) L"
  by (simp add: maskFlowGraphLabels_def Let_def maskLink_def flip: maskedIds_def)

lemma mask_link:
  assumes "(k, l) \<in> set (snd (maskFlowGraphLabels N L))" and "(k', n) \<in> set N" and "isMasked n"
  shows "dn_id n = dl_source l \<Longrightarrow> hidden (dl_sourceLabel l)" and "dn_id n = dl_target l \<Longrightarrow> hidden (dl_targetLabel l)"
proof -
  obtain x where some: "om_get (maskedIds N) (dn_id n) = Some x"
    using maskedIds_none [of N "dn_id n"] assms(2,3) by fastforce
  then have "maskedIds N \<noteq> []" by (auto simp: om.get_empty)
  then obtain l0 where l: "l = maskLink (maskedIds N) l0"
    using assms(1) by (auto simp: maskFlowGraph_links)
  show "hidden (dl_sourceLabel l)" if "dn_id n = dl_source l"
    using some that maskedIds_some [OF some] by (simp add: l maskLink_fields)
  show "hidden (dl_targetLabel l)" if "dn_id n = dl_target l"
    using some that maskedIds_some [OF some] by (simp add: l maskLink_fields)
qed

lemma list_all2_in2: "list_all2 P xs ys \<Longrightarrow> y \<in> set ys \<Longrightarrow> \<exists>x \<in> set xs. P x y"
  by (metis in_set_conv_nth list_all2_conv_all_nth)

lemma highlight_entries:
  "(k, n) \<in> set (fst (applyFlowHighlights N L h)) \<Longrightarrow>
    \<exists>n0. (k, n0) \<in> set N \<and> n = n0\<lparr>dn_highlighted := dn_highlighted n, dn_dimmed := dn_dimmed n\<rparr>"
  "(k, l) \<in> set (snd (applyFlowHighlights N L h)) \<Longrightarrow>
    \<exists>l0. (k, l0) \<in> set L \<and> l = l0\<lparr>dl_highlighted := dl_highlighted l, dl_dimmed := dl_dimmed l\<rparr>"
proof -
  have n: "highlightNode hs n0 =
      n0\<lparr>dn_highlighted := dn_highlighted (highlightNode hs n0), dn_dimmed := dn_dimmed (highlightNode hs n0)\<rparr>" for hs n0
    by (simp add: highlightNode_def)
  have l: "highlightLink hs l0 =
      l0\<lparr>dl_highlighted := dl_highlighted (highlightLink hs l0), dl_dimmed := dl_dimmed (highlightLink hs l0)\<rparr>" for hs l0
    by (simp add: highlightLink_def)
  show "\<exists>n0. (k, n0) \<in> set N \<and> n = n0\<lparr>dn_highlighted := dn_highlighted n, dn_dimmed := dn_dimmed n\<rparr>"
    if "(k, n) \<in> set (fst (applyFlowHighlights N L h))"
  proof (cases h)
    case None
    with that show ?thesis by (intro exI [of _ n]) (simp add: applyFlowHighlights_def)
  next
    case (Some hs)
    with that obtain n0 where "(k, n0) \<in> set N" "n = highlightNode hs n0" by (auto simp: applyFlowHighlights_def)
    with n show ?thesis by blast
  qed
  show "\<exists>l0. (k, l0) \<in> set L \<and> l = l0\<lparr>dl_highlighted := dl_highlighted l, dl_dimmed := dl_dimmed l\<rparr>"
    if "(k, l) \<in> set (snd (applyFlowHighlights N L h))"
  proof (cases h)
    case None
    with that show ?thesis by (intro exI [of _ l]) (simp add: applyFlowHighlights_def)
  next
    case (Some hs)
    with that obtain l0 where "(k, l0) \<in> set L" "l = highlightLink hs l0" by (auto simp: applyFlowHighlights_def)
    with l show ?thesis by blast
  qed
qed

lemma marked_node:
  assumes "n \<in> set (fg_nodes (buildFlowGraph env rows metric role palette visible ctx options))"
  shows "\<exists>k n0. (k, n0) \<in> set (fst (flowMasked env rows metric role palette visible ctx options)) \<and>
    n = n0\<lparr>dn_highlighted := dn_highlighted n, dn_dimmed := dn_dimmed n\<rparr>"
proof -
  obtain k where "(k, n) \<in> set (fst (flowMarked env rows metric role palette visible ctx options))"
    using assms unfolding buildFlowGraph_marked set_js_sort by (auto simp: om_values_def)
  from highlight_entries(1) [OF this [unfolded flowMarked_def Let_def]] show ?thesis by blast
qed

lemma marked_link:
  assumes "l \<in> set (fg_links (buildFlowGraph env rows metric role palette visible ctx options))"
  shows "\<exists>k l1. (k, l1) \<in> set (snd (flowMarked env rows metric role palette visible ctx options)) \<and> restyled l1 l"
proof -
  let ?marked = "flowMarked env rows metric role palette visible ctx options"
  have "\<exists>l1 \<in> set (js_sort (linkOrder env) (om_values (snd ?marked))). restyled l1 l"
    using list_all2_in2 [OF flowGraph_links assms] by blast
  then obtain l1 where "l1 \<in> snd ` set (snd ?marked)" "restyled l1 l" by (auto simp: om_values_def)
  then show ?thesis by force
qed

lemma masked_link:
  assumes "l \<in> set (fg_links (buildFlowGraph env rows metric role palette visible ctx options))"
  shows "\<exists>k l0. (k, l0) \<in> set (snd (flowMasked env rows metric role palette visible ctx options)) \<and>
    dl_source l = dl_source l0 \<and> dl_target l = dl_target l0 \<and>
    dl_sourceLabel l = dl_sourceLabel l0 \<and> dl_targetLabel l = dl_targetLabel l0"
proof -
  obtain k l1 where l1: "(k, l1) \<in> set (snd (flowMarked env rows metric role palette visible ctx options))" "restyled l1 l"
    using marked_link [OF assms] by blast
  obtain l0 where "(k, l0) \<in> set (snd (flowMasked env rows metric role palette visible ctx options))"
    "l1 = l0\<lparr>dl_highlighted := dl_highlighted l1, dl_dimmed := dl_dimmed l1\<rparr>"
    using highlight_entries(2) [OF l1(1) [unfolded flowMarked_def Let_def]] by blast
  moreover from this(2) have "dl_source l1 = dl_source l0 \<and> dl_target l1 = dl_target l0 \<and>
      dl_sourceLabel l1 = dl_sourceLabel l0 \<and> dl_targetLabel l1 = dl_targetLabel l0"
    by (cases l0; cases l1) simp
  ultimately show ?thesis using restyled_fields [OF l1(2)] by auto
qed

lemma mask_id: "map (\<lambda>(k, n). (k, dn_id n, dn_kind n)) (fst (maskFlowGraphLabels N L)) = map (\<lambda>(k, n). (k, dn_id n, dn_kind n)) N"
  by (auto simp: maskFlowGraphLabels_def Let_def)

lemma built_endpoint:
  assumes "p \<in> set (prepareFlowPaths env rows metric (resolveVisibleStages role visible) ctx options)"
    and "m \<in> set (pp_path p)"
  shows "\<exists>k n. (k, n) \<in> set (fst (flowBuilt env rows metric role palette visible ctx options)) \<and>
    dn_id n = fp_id m \<and> dn_kind n = fp_kind m"
proof -
  obtain n where n: "n \<in> set (fg_nodes (buildFlowGraph env rows metric role palette visible ctx options))"
    "dn_id n = fp_id m" "dn_kind n = fp_kind m"
    using nodes_cover [OF assms] by blast
  have "nodeCore n \<in># mset (map nodeCore (fg_nodes (buildFlowGraph env rows metric role palette visible ctx options)))"
    using n(1) by simp
  then obtain k v where "(k, v) \<in> set (fst (flowBuilt env rows metric role palette visible ctx options))" "nodeCore v = nodeCore n"
    unfolding flowGraph_nodes by auto
  with n(2,3) show ?thesis by (auto simp: nodeCore_def)
qed


section \<open>Highlighting\<close>

lemma highlight_fold:
  "hs_nodes (fold (\<lambda>prepared sets.
      let path = pp_path prepared in
      if \<not> matchesPath an al path then sets
      else \<lparr>hs_nodes = foldl os_add (hs_nodes sets) (map fp_id path),
            hs_links = foldl os_add (hs_links sets) (map (\<lambda>(s, t). pathLinkKey s t) (pathSteps path))\<rparr>) ps S) =
   foldl os_add (hs_nodes S) (concat (map (map fp_id) (filter (matchesPath an al) (map pp_path ps))))"
  "hs_links (fold (\<lambda>prepared sets.
      let path = pp_path prepared in
      if \<not> matchesPath an al path then sets
      else \<lparr>hs_nodes = foldl os_add (hs_nodes sets) (map fp_id path),
            hs_links = foldl os_add (hs_links sets) (map (\<lambda>(s, t). pathLinkKey s t) (pathSteps path))\<rparr>) ps S) =
   foldl os_add (hs_links S) (concat (map (\<lambda>path. map (\<lambda>(s, t). pathLinkKey s t) (pathSteps path))
     (filter (matchesPath an al) (map pp_path ps))))"
  by (induction ps arbitrary: S) (simp_all add: Let_def)

text \<open>A selection is active when a link is selected or a node of a visible column, and some path matches.\<close>

definition selectionActive :: "FlowNodeFilter option \<Rightarrow> FlowLinkSelection option \<Rightarrow> FlowNodeKind list \<Rightarrow> bool" where
  "selectionActive an al stages \<longleftrightarrow> (\<exists>f. an = Some f \<and> nf_kind f \<in> set stages) \<or> al \<noteq> None"

lemma highlightSets_iff:
  assumes "\<forall>p \<in> set ps. pp_path p \<noteq> []"
  shows "buildFlowHighlightSets ps an al stages = None \<longleftrightarrow>
      \<not> (selectionActive an al stages \<and> (\<exists>p \<in> set ps. matchesPath an al (pp_path p)))"
    and "buildFlowHighlightSets ps an al stages = Some h \<Longrightarrow>
      set (hs_nodes h) = (\<Union>p \<in> {p \<in> set ps. matchesPath an al (pp_path p)}. fp_id ` set (pp_path p)) \<and>
      set (hs_links h) = (\<Union>p \<in> {p \<in> set ps. matchesPath an al (pp_path p)}.
        (\<lambda>(s, t). pathLinkKey s t) ` set (pathSteps (pp_path p)))"
proof -
  define S where "S = fold (\<lambda>prepared sets.
      let path = pp_path prepared in
      if \<not> matchesPath an al path then sets
      else \<lparr>hs_nodes = foldl os_add (hs_nodes sets) (map fp_id path),
            hs_links = foldl os_add (hs_links sets) (map (\<lambda>(s, t). pathLinkKey s t) (pathSteps path))\<rparr>)
     ps \<lparr>hs_nodes = [], hs_links = []\<rparr>"
  have active: "(case an of Some f \<Rightarrow> nf_kind f \<in> set stages | None \<Rightarrow> False) \<or> al \<noteq> None \<longleftrightarrow> selectionActive an al stages"
    by (cases an) (auto simp: selectionActive_def)
  have def: "buildFlowHighlightSets ps an al stages =
      (if selectionActive an al stages then if hs_nodes S = [] then None else Some S else None)"
    unfolding buildFlowHighlightSets_def Let_def active [symmetric] S_def by auto
  have nodes: "set (hs_nodes S) = (\<Union>p \<in> {p \<in> set ps. matchesPath an al (pp_path p)}. fp_id ` set (pp_path p))"
    unfolding S_def highlight_fold by auto
  have links: "set (hs_links S) = (\<Union>p \<in> {p \<in> set ps. matchesPath an al (pp_path p)}.
      (\<lambda>(s, t). pathLinkKey s t) ` set (pathSteps (pp_path p)))"
    unfolding S_def highlight_fold by auto
  have "hs_nodes S = [] \<longleftrightarrow> \<not> (\<exists>p \<in> set ps. matchesPath an al (pp_path p))"
    using assms nodes set_empty [of "hs_nodes S"] by auto
  then show "buildFlowHighlightSets ps an al stages = None \<longleftrightarrow>
      \<not> (selectionActive an al stages \<and> (\<exists>p \<in> set ps. matchesPath an al (pp_path p)))"
    by (simp add: def)
  show "set (hs_nodes h) = (\<Union>p \<in> {p \<in> set ps. matchesPath an al (pp_path p)}. fp_id ` set (pp_path p)) \<and>
      set (hs_links h) = (\<Union>p \<in> {p \<in> set ps. matchesPath an al (pp_path p)}.
        (\<lambda>(s, t). pathLinkKey s t) ` set (pathSteps (pp_path p)))"
    if "buildFlowHighlightSets ps an al stages = Some h"
    using that nodes links by (auto simp: def split: if_splits)
qed

lemma linkKey_inject: "nul \<notin> set s \<Longrightarrow> nul \<notin> set s' \<Longrightarrow> linkKey s t = linkKey s' t' \<longleftrightarrow> s = s' \<and> t = t'"
  by (metis linkKey_parts)

text \<open>C24. A selection marks exactly the paths through it: while a link or a node of a visible column is
  selected and some path matches the selection, a node is highlighted when a matching path goes
  through it and dimmed otherwise, and a link is highlighted when a matching path takes that step and
  dimmed otherwise.\<close>

theorem flow_highlighting:
  fixes env rows metric role palette visible ctx options
  defines "g \<equiv> buildFlowGraph env rows metric role palette visible ctx options"
    and "ps \<equiv> prepareFlowPaths env rows metric (resolveVisibleStages role visible) ctx options"
    and "sel \<equiv> matchesPath (go_activeNode options) (go_activeLink options)"
  assumes "\<forall>row \<in> set rows. cleanRow row"
    and "selectionActive (go_activeNode options) (go_activeLink options) (resolveVisibleStages role visible)"
    and "\<exists>p \<in> set ps. sel (pp_path p)"
  shows "(\<forall>n \<in> set (fg_nodes g).
      let on = (\<exists>p \<in> set ps. sel (pp_path p) \<and> dn_id n \<in> fp_id ` set (pp_path p)) in
      dn_highlighted n = Some on \<and> dn_dimmed n = Some (\<not> on)) \<and>
    (\<forall>l \<in> set (fg_links g).
      let on = (\<exists>p \<in> set ps. sel (pp_path p) \<and>
        (\<exists>(s, t) \<in> set (pathSteps (pp_path p)). dl_source l = fp_id s \<and> dl_target l = fp_id t)) in
      dl_highlighted l = Some on \<and> dl_dimmed l = Some (\<not> on))"
proof -
  let ?stages = "resolveVisibleStages role visible"
  have "pp_path p \<noteq> []" if "p \<in> set ps" for p
    using wfPath_prepared [OF that [unfolded ps_def]] length_resolveVisibleStages [of role visible]
    by (auto simp: wfPath_def)
  then have ne: "\<forall>p \<in> set ps. pp_path p \<noteq> []" by blast
  obtain h where h: "buildFlowHighlightSets ps (go_activeNode options) (go_activeLink options) ?stages = Some h"
    using highlightSets_iff(1) [OF ne] assms(5,6) unfolding sel_def by (meson not_Some_eq)
  note sets = highlightSets_iff(2) [OF ne h, folded sel_def]
  have marked: "flowMarked env rows metric role palette visible ctx options =
      (map (\<lambda>(k, n). (k, highlightNode h n)) (fst (flowMasked env rows metric role palette visible ctx options)),
       map (\<lambda>(k, l). (k, highlightLink h l)) (snd (flowMasked env rows metric role palette visible ctx options)))"
    by (simp add: flowMarked_def applyFlowHighlights_def h [unfolded ps_def] Let_def)
  have "dn_highlighted n = Some (dn_id n \<in> set (hs_nodes h)) \<and> dn_dimmed n = Some (dn_id n \<notin> set (hs_nodes h))"
    if "n \<in> set (fg_nodes g)" for n
    using that unfolding g_def buildFlowGraph_marked marked by (auto simp: om_values_def highlightNode_def)
  then have nodes: "let on = (\<exists>p \<in> set ps. sel (pp_path p) \<and> dn_id n \<in> fp_id ` set (pp_path p)) in
      dn_highlighted n = Some on \<and> dn_dimmed n = Some (\<not> on)" if "n \<in> set (fg_nodes g)" for n
    using that sets by (auto simp: Let_def)
  have key: "linkStableKey l \<in> set (hs_links h) \<longleftrightarrow> (\<exists>p \<in> set ps. sel (pp_path p) \<and>
        (\<exists>(s, t) \<in> set (pathSteps (pp_path p)). dl_source l = fp_id s \<and> dl_target l = fp_id t))"
    if "l \<in> set (fg_links g)" for l
  proof -
    have clean: "nul \<notin> set (fp_id s)" if "p \<in> set ps" "(s, t) \<in> set (pathSteps (pp_path p))" for p s t
      using clean_prepared [OF that(1) [unfolded ps_def] _ assms(4)] set_pathSteps [OF that(2)] by blast
    have "nul \<notin> set (dl_source l)"
      using link_ends [OF that [unfolded g_def], folded ps_def] clean by fastforce
    then have "linkStableKey l = pathLinkKey s t \<longleftrightarrow> dl_source l = fp_id s \<and> dl_target l = fp_id t"
      if "p \<in> set ps" "(s, t) \<in> set (pathSteps (pp_path p))" for p s t
      using clean [OF that] by (simp add: linkStableKey_def pathLinkKey_def linkKey_inject)
    then show ?thesis using sets by fastforce
  qed
  have "dl_highlighted l = Some (linkStableKey l \<in> set (hs_links h)) \<and> dl_dimmed l = Some (linkStableKey l \<notin> set (hs_links h))"
    if "l \<in> set (fg_links g)" for l
    using marked_link [OF that [unfolded g_def], unfolded marked]
    by (auto simp: highlightLink_def restyled_fields linkStableKey_def)
  with key nodes show ?thesis by (simp add: Let_def)
qed

end
