(* ===== verification/Flow_Examples.thy ===== *)
theory Flow_Examples
  imports Flow_Top "HOL-Library.List_Lexorder"
begin

text \<open>
  A small dashboard on which the laws of the flow graph are applied: three rows of one user, with the
  byte order of strings as the collation.
\<close>

definition byteCompare :: "string \<Rightarrow> string \<Rightarrow> int" where
  "byteCompare = by_key (map (of_char :: char \<Rightarrow> nat))"

interpretation byte_order: signed_comparator byteCompare
  unfolding byteCompare_def by (rule signed_comparator_by_key)

definition demoEnv :: FlowEnv where
  "demoEnv = \<lparr>fe_colors = (\<lambda>n. replicate n ''#112233''), fe_compare = byteCompare, fe_format = (\<lambda>_. [])\<rparr>"

definition demoRow :: "string \<Rightarrow> string \<Rightarrow> string \<Rightarrow> rat \<Rightarrow> FlowQuotaDataItem" where
  "demoRow tok grp mdl q =
     \<lparr>user_id = None, row_username = None, node_name = None, use_group = Some grp, token_id = None,
      token_name = Some tok, channel_id = None, channel_name = None, model_name = Some mdl,
      token_used = None, row_count = Some 1, row_quota = Some q\<rparr>"

definition demoRows :: "FlowQuotaDataItem list" where
  "demoRows = [demoRow ''a'' ''g'' ''m'' 7, demoRow ''b'' ''g'' ''n'' 3, demoRow ''c'' ''h'' ''n'' 2]"

definition demoOptions :: "jsnum option \<Rightarrow> FlowGraphOptions" where
  "demoOptions limit =
     \<lparr>go_topNodeLimit = limit, go_overflowMode = None, go_otherNodeLabel = None,
      go_activeNode = Some \<lparr>nf_kind = GroupKind, nf_id = ''group:h''\<rparr>, go_activeLink = None,
      go_maskSensitive = False\<rparr>"

definition demoGraph :: "jsnum option \<Rightarrow> DashboardFlowGraph" where
  "demoGraph limit = buildFlowGraph demoEnv demoRows QuotaMetric UserRole None None None (demoOptions limit)"

lemma demo_stages: "resolveVisibleStages UserRole None = [TokenKind, GroupKind, ModelKind]"
  by (simp add: resolveVisibleStages_def)

lemma demo_total: "summaryValue (buildSummary demoRows) QuotaMetric = 12"
  by (simp add: buildSummary_sum demoRows_def demoRow_def rowMetrics_def metricValue_def numberValue_def)

lemma demo_clean: "row \<in> set demoRows \<Longrightarrow> cleanRow row \<and> 0 \<le> metricValue (rowMetrics row) QuotaMetric"
  by (auto simp: demoRows_def demoRow_def cleanRow_def cleanString_def nul_def rowMetrics_def metricValue_def
      numberValue_def)

lemma demo_paths:
  "prepareFlowPaths env demoRows QuotaMetric [TokenKind, GroupKind, ModelKind] None
     (demoOptions None\<lparr>go_maskSensitive := b\<rparr>) =
   map (\<lambda>row. \<lparr>pp_path = flowPathForStages row [TokenKind, GroupKind, ModelKind] None, pp_metrics = rowMetrics row\<rparr>)
     demoRows"
  by (simp add: prepareFlowPaths_def demoOptions_def normalizeTopNodeLimit_def buildTopNodeSets_def
      applyTopNodeLimit_def List.map_filter_def comp_def)

lemma demo_options_mask: "demoOptions None\<lparr>go_maskSensitive := False\<rparr> = demoOptions None"
  by (simp add: demoOptions_def)

lemma demo_path:
  assumes "t \<noteq> []" and "g \<noteq> []" and "m \<noteq> []"
  shows "flowPathForStages (demoRow t g m q) [TokenKind, GroupKind, ModelKind] None =
    [\<lparr>fp_id = ''token:'' @ t, fp_label = t, fp_kind = TokenKind\<rparr>,
     \<lparr>fp_id = ''group:'' @ g, fp_label = g, fp_kind = GroupKind\<rparr>,
     \<lparr>fp_id = ''model:'' @ m, fp_label = m, fp_kind = ModelKind\<rparr>]"
  using assms
  by (simp add: flowPathForStages_def demoRow_def tokenNode_def groupNode_def modelNode_def str_or_def numberValue_def
      Let_def)

text \<open>The groups of the example are nodes of its graph.\<close>

lemma demo_group_node:
  assumes "i = ''g'' \<or> i = ''h''"
  shows "\<exists>n \<in> set (fg_nodes (buildFlowGraph demoEnv demoRows QuotaMetric UserRole None None None
      (demoOptions None\<lparr>go_maskSensitive := b\<rparr>))). dn_id n = ''group:'' @ i \<and> dn_kind n = GroupKind"
proof -
  define row where "row = (if i = ''g'' then demoRow ''a'' ''g'' ''m'' 7 else demoRow ''c'' ''h'' ''n'' 2)"
  define p where "p = \<lparr>pp_path = flowPathForStages row [TokenKind, GroupKind, ModelKind] None, pp_metrics = rowMetrics row\<rparr>"
  have "p \<in> set (prepareFlowPaths demoEnv demoRows QuotaMetric (resolveVisibleStages UserRole None) None
      (demoOptions None\<lparr>go_maskSensitive := b\<rparr>))"
    unfolding demo_stages demo_paths by (simp add: p_def row_def demoRows_def)
  moreover have "\<lparr>fp_id = ''group:'' @ i, fp_label = i, fp_kind = GroupKind\<rparr> \<in> set (pp_path p)"
    using assms by (auto simp: p_def row_def demo_path)
  ultimately show ?thesis using nodes_cover [of p _ _ _ _ _ _ _ "\<lparr>fp_id = ''group:'' @ i, fp_label = i, fp_kind = GroupKind\<rparr>"]
    by fastforce
qed

theorem flow_column_total_witness:
  "(\<Sum>n\<leftarrow>filter (\<lambda>n. dn_kind n = GroupKind) (fg_nodes (demoGraph (Some (Fin 1)))). dn_value n) = 12"
  unfolding demoGraph_def
  using flow_column_total [of "demoOptions (Some (Fin 1))" GroupKind UserRole None demoEnv demoRows QuotaMetric None None]
  by (simp add: demo_stages demo_total) (simp add: demoOptions_def)

theorem flow_node_balance_witness:
  "\<exists>n \<in> set (fg_nodes (demoGraph None)). dn_id n = ''group:g'' \<and>
     (\<Sum>l\<leftarrow>filter (\<lambda>l. dl_source l = dn_id n) (fg_links (demoGraph None)). dl_value l) = dn_value n \<and>
     (\<Sum>l\<leftarrow>filter (\<lambda>l. dl_target l = dn_id n) (fg_links (demoGraph None)). dl_value l) = dn_value n"
proof -
  obtain n where n: "n \<in> set (fg_nodes (demoGraph None))" "dn_id n = ''group:g''" "dn_kind n = GroupKind"
    using demo_group_node [of "''g''" False] unfolding demoGraph_def demo_options_mask by auto
  have "\<forall>row \<in> set demoRows. cleanRow row" using demo_clean by blast
  from flow_node_balance [OF this n(1) [unfolded demoGraph_def], folded demoGraph_def] n show ?thesis
    by (auto simp: demo_stages)
qed




theorem flow_highlighting_witness:
  "\<exists>n \<in> set (fg_nodes (demoGraph None)). dn_id n = ''group:g'' \<and> dn_highlighted n = Some False \<and> dn_dimmed n = Some True"
proof -
  let ?ps = "prepareFlowPaths demoEnv demoRows QuotaMetric (resolveVisibleStages UserRole None) None (demoOptions None)"
  let ?sel = "matchesPath (go_activeNode (demoOptions None)) (go_activeLink (demoOptions None))"
  have ps: "?ps = map (\<lambda>row. \<lparr>pp_path = flowPathForStages row [TokenKind, GroupKind, ModelKind] None,
      pp_metrics = rowMetrics row\<rparr>) demoRows"
    using demo_paths [of demoEnv False] by (simp add: demo_stages demo_options_mask)
  have sel: "?sel (pp_path p) \<longleftrightarrow> ''group:g'' \<notin> fp_id ` set (pp_path p)" if "p \<in> set ?ps" for p
    using that unfolding ps
    by (auto simp: matchesPath_def demoOptions_def pathContainsFlowNode_def demoRows_def demo_path)
  have "\<exists>p \<in> set ?ps. ?sel (pp_path p)"
    unfolding ps by (simp add: demoRows_def matchesPath_def demoOptions_def pathContainsFlowNode_def demo_path)
  moreover have "\<forall>row \<in> set demoRows. cleanRow row" using demo_clean by blast
  moreover have "selectionActive (go_activeNode (demoOptions None)) (go_activeLink (demoOptions None))
      (resolveVisibleStages UserRole None)"
    by (simp add: selectionActive_def demoOptions_def demo_stages)
  ultimately have *: "\<forall>n \<in> set (fg_nodes (demoGraph None)).
      let on = (\<exists>p \<in> set ?ps. ?sel (pp_path p) \<and> dn_id n \<in> fp_id ` set (pp_path p)) in
      dn_highlighted n = Some on \<and> dn_dimmed n = Some (\<not> on)"
    using flow_highlighting [of demoRows "demoOptions None" UserRole None demoEnv QuotaMetric None None]
    unfolding demoGraph_def by blast
  have off: "\<not> (\<exists>p \<in> set ?ps. ?sel (pp_path p) \<and> ''group:g'' \<in> fp_id ` set (pp_path p))"
    using sel by blast
  obtain n where n: "n \<in> set (fg_nodes (demoGraph None))" "dn_id n = ''group:g''"
    using demo_group_node [of "''g''" False] unfolding demoGraph_def demo_options_mask by auto
  with * off show ?thesis by (intro bexI [of _ n]) (auto simp: Let_def)
qed

end
