(* ===== verification/Flow_Options.thy ===== *)
theory Flow_Options
  imports Flow_Examples
begin

text \<open>
  The entry points of \<open>web/src/features/dashboard/lib/flow.ts\<close>: the filter options of the dashboard,
  \<open>buildDashboardFlowData\<close>, which filters the rows and builds summary, graph and options from them,
  and the order in which the chart draws the links; and the helpers of \<open>flow-selection.ts\<close>.
\<close>

section \<open>Data\<close>

record FlowUserFilterOption =
  uo_value :: string
  uo_label :: string
  uo_valueLabel :: string
  uo_valueRaw :: rat
  uo_color :: string

record FlowNodeFilterOption =
  no_kind :: FlowNodeKind
  no_value :: string
  no_label :: string
  no_valueLabel :: string
  no_valueRaw :: rat
  no_color :: string

record FlowFilterOptions =
  fo_users :: "FlowUserFilterOption list"
  fo_nodes :: "FlowNodeFilterOption list"

record ProcessedFlowData =
  pd_summary :: FlowSummary
  pd_flow :: DashboardFlowGraph
  pd_filterOptions :: FlowFilterOptions

record FlowBuildOptions =
  bo_role :: "FlowRole option"
  bo_selectedUsers :: "string list option"
  bo_selectedNodes :: "FlowNodeFilter list option"
  bo_activeNode :: "FlowNodeFilter option"
  bo_activeLink :: "FlowLinkSelection option"
  bo_colorPalette :: "string list option"
  bo_visibleStages :: "FlowNodeKind list option"
  bo_topNodeLimit :: "jsnum option"
  bo_overflowMode :: "FlowOverflowMode option"
  bo_maskSensitive :: bool
  bo_deletedTokenLabel :: FlowPathContext
  bo_otherNodeLabel :: OtherNodeLabel

section \<open>Filter options\<close>

record user_total =
  ut_label :: string
  ut_value :: rat
  ut_color :: string

definition hasUser :: "FlowQuotaDataItem \<Rightarrow> bool" where
  "hasUser row \<longleftrightarrow> \<not> ((user_id row = None \<or> user_id row = Some 0) \<and> (row_username row = None \<or> row_username row = Some []))"

definition addUserTotal ::
  "FlowEnv \<Rightarrow> FlowMetric \<Rightarrow> (string, string) omap \<Rightarrow> string list option \<Rightarrow> FlowQuotaDataItem \<Rightarrow>
   (string, user_total) omap \<Rightarrow> (string, user_total) omap" where
  "addUserTotal env metric colors palette row users =
     (let user = userNode row in
      if \<not> hasUser row then users
      else
        let val = metricValue (rowMetrics row) metric;
            current = (case om_get users (fp_id user) of
                Some c \<Rightarrow> c
              | None \<Rightarrow> \<lparr>ut_label = fp_label user, ut_value = 0,
                  ut_color = (case om_get colors (fp_id user) of Some c \<Rightarrow> c | None \<Rightarrow> colorAt env 0 palette)\<rparr>) in
        om_set (fp_id user) (current\<lparr>ut_value := ut_value current + val\<rparr>) users)"

definition buildUserFilterOptions ::
  "FlowEnv \<Rightarrow> FlowQuotaDataItem list \<Rightarrow> FlowMetric \<Rightarrow> string list option \<Rightarrow> FlowUserFilterOption list" where
  "buildUserFilterOptions env rows metric palette =
     (let colors = stableColorMap env (js_sort (fe_compare env) (map (\<lambda>row. fp_id (userNode row)) rows)) palette;
          users = fold (addUserTotal env metric colors palette) rows [] in
      js_sort (\<lambda>a b. cmp_or (by_key_desc uo_valueRaw a b) (fe_compare env (uo_label a) (uo_label b)))
        (map (\<lambda>(v, user). \<lparr>uo_value = v, uo_label = ut_label user, uo_valueLabel = fe_format env (ut_value user),
           uo_valueRaw = ut_value user, uo_color = ut_color user\<rparr>) users))"

definition nodeFilterKey :: "FlowNodeFilter \<Rightarrow> string" where
  "nodeFilterKey f = kindName (nf_kind f) @ [nul] @ nf_id f"

definition addOptionTotal ::
  "FlowMetric \<Rightarrow> FlowPathContext \<Rightarrow> FlowNodeKind \<Rightarrow> FlowQuotaDataItem \<Rightarrow> stage_totals \<Rightarrow> stage_totals" where
  "addOptionTotal metric ctx stage row totals =
     (let val = metricValue (rowMetrics row) metric;
          node = NODE_BUILDERS stage row ctx;
          key = nodeFilterKey \<lparr>nf_kind = fp_kind node, nf_id = fp_id node\<rparr>;
          current = (case om_get totals key of Some r \<Rightarrow> r | None \<Rightarrow> \<lparr>rk_node = node, rk_value = 0\<rparr>) in
      om_set key (current\<lparr>rk_value := rk_value current + val\<rparr>) totals)"

definition stageOptions ::
  "FlowEnv \<Rightarrow> FlowQuotaDataItem list \<Rightarrow> FlowMetric \<Rightarrow> FlowNodeKind list \<Rightarrow> (string, string) omap \<Rightarrow>
   string list option \<Rightarrow> FlowPathContext \<Rightarrow> FlowNodeFilter list option \<Rightarrow> FlowNodeKind \<Rightarrow>
   FlowNodeFilterOption list" where
  "stageOptions env rows metric stages colors palette ctx selectedNodes stage =
     (let candidateRows = filterRowsByNodes rows (selectedNodeFiltersExceptKind selectedNodes stage) stages ctx;
          totals = fold (addOptionTotal metric ctx stage) candidateRows [] in
      map (\<lambda>rank. \<lparr>no_kind = fp_kind (rk_node rank), no_value = fp_id (rk_node rank),
          no_label = fp_label (rk_node rank), no_valueLabel = fe_format env (rk_value rank),
          no_valueRaw = rk_value rank,
          no_color = (case om_get colors (fp_id (rk_node rank)) of Some c \<Rightarrow> c | None \<Rightarrow> colorAt env 0 palette)\<rparr>)
        (om_values totals))"

definition stageOrder :: "FlowNodeKind list \<Rightarrow> FlowNodeKind \<Rightarrow> nat" where
  "stageOrder stages k =
     (case om_get (fold (\<lambda>(index, stage) m. om_set stage index m) (enumerate 0 stages) []) k of
        Some index \<Rightarrow> index
      | None \<Rightarrow> 0)"

definition buildNodeFilterOptions ::
  "FlowEnv \<Rightarrow> FlowQuotaDataItem list \<Rightarrow> FlowMetric \<Rightarrow> FlowRole \<Rightarrow> FlowNodeKind list option \<Rightarrow>
   string list option \<Rightarrow> FlowPathContext \<Rightarrow> FlowNodeFilter list option \<Rightarrow> FlowNodeFilterOption list" where
  "buildNodeFilterOptions env rows metric role visibleStages palette ctx selectedNodes =
     (let stages = resolveVisibleStages role visibleStages;
          colorIds = os_of (concat (map (\<lambda>row. map fp_id (flowPathForStages row stages ctx)) rows));
          colors = stableColorMap env (js_sort (fe_compare env) colorIds) palette;
          options = concat (map (stageOptions env rows metric stages colors palette ctx selectedNodes) stages) in
      js_sort (\<lambda>a b.
          cmp_or (by_key (\<lambda>x. stageOrder stages (no_kind x)) a b)
            (cmp_or (by_key_desc no_valueRaw a b)
              (cmp_or (fe_compare env (no_label a) (no_label b)) (fe_compare env (no_value a) (no_value b))))) options)"

definition buildFlowFilterOptions ::
  "FlowEnv \<Rightarrow> FlowQuotaDataItem list \<Rightarrow> FlowMetric \<Rightarrow> string list option \<Rightarrow> FlowRole \<Rightarrow>
   FlowNodeKind list option \<Rightarrow> FlowNodeFilter list option \<Rightarrow> FlowFilterOptions" where
  "buildFlowFilterOptions env rows metric palette role visibleStages selectedNodes =
     \<lparr>fo_users = buildUserFilterOptions env rows metric palette,
      fo_nodes = buildNodeFilterOptions env rows metric role visibleStages palette None selectedNodes\<rparr>"

section \<open>The data of the dashboard\<close>

definition graphOptions :: "FlowBuildOptions \<Rightarrow> FlowGraphOptions" where
  "graphOptions options =
     \<lparr>go_topNodeLimit = bo_topNodeLimit options, go_overflowMode = bo_overflowMode options,
      go_otherNodeLabel = bo_otherNodeLabel options, go_activeNode = bo_activeNode options,
      go_activeLink = bo_activeLink options, go_maskSensitive = bo_maskSensitive options\<rparr>"

definition flowRole :: "FlowBuildOptions \<Rightarrow> FlowRole" where
  "flowRole options = (case bo_role options of Some r \<Rightarrow> r | None \<Rightarrow> UserRole)"

definition buildDashboardFlowData ::
  "FlowEnv \<Rightarrow> FlowQuotaDataItem list \<Rightarrow> FlowMetric \<Rightarrow> FlowBuildOptions \<Rightarrow> ProcessedFlowData" where
  "buildDashboardFlowData env rows metric options =
     (let role = flowRole options;
          palette = bo_colorPalette options;
          ctx = bo_deletedTokenLabel options;
          stages = resolveVisibleStages role (bo_visibleStages options);
          userFilteredRows = filterRows rows (bo_selectedUsers options);
          filteredRows = filterRowsByNodes userFilteredRows (bo_selectedNodes options) stages ctx in
      \<lparr>pd_summary = buildSummary filteredRows,
       pd_flow = buildFlowGraph env filteredRows metric role palette (bo_visibleStages options) ctx
         (graphOptions options),
       pd_filterOptions =
         \<lparr>fo_users = buildUserFilterOptions env rows metric palette,
          fo_nodes = buildNodeFilterOptions env userFilteredRows metric role (bo_visibleStages options) palette ctx
            (bo_selectedNodes options)\<rparr>\<rparr>)"

section \<open>The links of the chart\<close>

definition linkZIndex :: "DashboardFlowLink \<Rightarrow> nat \<Rightarrow> nat" where
  "linkZIndex link index =
     (if dl_highlighted link = Some True then 1000000 + index
      else if dl_dimmed link = Some True then index
      else 100000 + index)"

definition sankeyLinks :: "FlowEnv \<Rightarrow> DashboardFlowGraph \<Rightarrow> (DashboardFlowLink \<times> nat) list" where
  "sankeyLinks env flow =
     map (\<lambda>(index, link). (link, linkZIndex link index))
       (enumerate 0 (js_sort (byLinkDrawPriority env) (filter (\<lambda>link. 0 < dl_value link) (fg_links flow))))"

section \<open>Selection helpers\<close>

datatype FlowDisplayState = LoadingState | ErrorState | EmptyState | ChartState

record FlowResponse =
  fr_success :: bool
  fr_data :: "FlowQuotaDataItem list option"
  fr_message :: "string option"

definition requireSuccessfulFlowRows :: "FlowResponse \<Rightarrow> string \<Rightarrow> string + FlowQuotaDataItem list" where
  "requireSuccessfulFlowRows response fallbackMessage =
     (if \<not> fr_success response then Inl (str_or (fr_message response) fallbackMessage)
      else Inr (case fr_data response of Some rows \<Rightarrow> rows | None \<Rightarrow> []))"

definition flowDisplayState :: "bool \<Rightarrow> bool \<Rightarrow> nat \<Rightarrow> bool \<Rightarrow> FlowDisplayState" where
  "flowDisplayState isLoading isError linkCount themeReady =
     (if isLoading then LoadingState
      else if isError then ErrorState
      else if linkCount = 0 then EmptyState
      else if \<not> themeReady then LoadingState
      else ChartState)"

definition compactFlowSelectionLabel :: "nat \<Rightarrow> string" where
  "compactFlowSelectionLabel n = (if 0 < n then nat_str n else ''*'')"

definition visibleFlowUsers :: "FlowUserFilterOption list \<Rightarrow> string list \<Rightarrow> FlowUserFilterOption list" where
  "visibleFlowUsers users selectedUsers =
     (if selectedUsers = [] then users
      else let selected = os_of selectedUsers in filter (\<lambda>user. uo_value user \<in> set selected) users)"

section \<open>What the filters keep\<close>

lemma selected_filter_iff:
  assumes "row \<in> set rows"
  shows "row \<in> set (filterRowsByNodes rows (Some fs) stages ctx) \<longleftrightarrow>
    (\<forall>k \<in> set stages. (\<exists>f \<in> set fs. nf_kind f = k) \<longrightarrow>
      \<lparr>nf_kind = k, nf_id = fp_id (NODE_BUILDERS k row ctx)\<rparr> \<in> set fs)"
proof -
  let ?F = "normalizeSelectedNodeFilters (Some fs) stages"
  have entry: "(k, ids) \<in> set ?F \<longleftrightarrow> om_get ?F k = Some ids" for k ids
    using om_get_iff [OF normalizeSelected_keys] by blast
  have ids: "i \<in> set ids \<longleftrightarrow> \<lparr>nf_kind = k, nf_id = i\<rparr> \<in> set fs \<and> k \<in> set stages" if "om_get ?F k = Some ids" for k i ids
  proof -
    have "(\<exists>f \<in> set fs. nf_kind f = k \<and> nf_id f = i) \<longleftrightarrow> \<lparr>nf_kind = k, nf_id = i\<rparr> \<in> set fs"
    proof -
      have "f = \<lparr>nf_kind = nf_kind f, nf_id = nf_id f\<rparr>" for f :: FlowNodeFilter by simp
      then show ?thesis by (metis FlowNodeFilter.select_convs)
    qed
    with normalizeSelected_iff [of fs stages k i] that show ?thesis by auto
  qed
  have some: "(\<exists>ids. om_get ?F k = Some ids) \<longleftrightarrow> k \<in> set stages \<and> (\<exists>f \<in> set fs. nf_kind f = k)" for k
  proof
    assume "\<exists>ids. om_get ?F k = Some ids"
    then obtain ids where get: "om_get ?F k = Some ids" by blast
    then have "hd ids \<in> set ids" using normalizeSelected_nonempty by auto
    with get show "k \<in> set stages \<and> (\<exists>f \<in> set fs. nf_kind f = k)"
      using normalizeSelected_iff [of fs stages k "hd ids"] by blast
  next
    assume "k \<in> set stages \<and> (\<exists>f \<in> set fs. nf_kind f = k)"
    then show "\<exists>ids. om_get ?F k = Some ids" using normalizeSelected_iff [of fs stages k] by blast
  qed
  have path: "(\<exists>n \<in> set (flowPathForStages row stages ctx). fp_kind n = k \<and> fp_id n \<in> set ids) \<longleftrightarrow>
      k \<in> set stages \<and> fp_id (NODE_BUILDERS k row ctx) \<in> set ids" for k ids
    by (auto simp: flowPathForStages_def)
  have "row \<in> set (filterRowsByNodes rows (Some fs) stages ctx) \<longleftrightarrow>
      (\<forall>(k, ids) \<in> set ?F. k \<in> set stages \<and> fp_id (NODE_BUILDERS k row ctx) \<in> set ids)"
    using assms by (auto simp: filterRowsByNodes_def Let_def pathMatches_iff path)
  also have "\<dots> \<longleftrightarrow> (\<forall>k ids. om_get ?F k = Some ids \<longrightarrow> \<lparr>nf_kind = k, nf_id = fp_id (NODE_BUILDERS k row ctx)\<rparr> \<in> set fs)"
  proof -
    have "(\<forall>(k, ids) \<in> set ?F. k \<in> set stages \<and> fp_id (NODE_BUILDERS k row ctx) \<in> set ids) \<longleftrightarrow>
        (\<forall>k ids. om_get ?F k = Some ids \<longrightarrow> k \<in> set stages \<and> fp_id (NODE_BUILDERS k row ctx) \<in> set ids)"
      using entry by blast
    also have "\<dots> \<longleftrightarrow> (\<forall>k ids. om_get ?F k = Some ids \<longrightarrow>
        \<lparr>nf_kind = k, nf_id = fp_id (NODE_BUILDERS k row ctx)\<rparr> \<in> set fs)"
      using ids some by blast
    finally show ?thesis .
  qed
  also have "\<dots> \<longleftrightarrow> (\<forall>k \<in> set stages. (\<exists>f \<in> set fs. nf_kind f = k) \<longrightarrow>
      \<lparr>nf_kind = k, nf_id = fp_id (NODE_BUILDERS k row ctx)\<rparr> \<in> set fs)"
    using some by blast
  finally show ?thesis .
qed

text \<open>C25. A row passes the node filters exactly when in every visible column that has a selected node
  the row's own node is among the selected ones; columns without a selection, and selections in
  columns that are not visible, do not restrict the rows.\<close>

theorem flow_node_filters:
  "set (filterRowsByNodes rows (Some fs) stages ctx) =
   {row \<in> set rows. \<forall>k \<in> set stages. (\<exists>f \<in> set fs. nf_kind f = k) \<longrightarrow>
      \<lparr>nf_kind = k, nf_id = fp_id (NODE_BUILDERS k row ctx)\<rparr> \<in> set fs}"
proof -
  have "set (filterRowsByNodes rows (Some fs) stages ctx) \<subseteq> set rows"
    by (auto simp: filterRowsByNodes_def Let_def)
  with selected_filter_iff [of _ rows fs stages ctx] show ?thesis by blast
qed

theorem flow_node_filters_witness:
  "set (filterRowsByNodes demoRows (Some [\<lparr>nf_kind = GroupKind, nf_id = ''group:h''\<rparr>]) [GroupKind, ModelKind] None) =
   {demoRow ''c'' ''h'' ''n'' 2}"
  unfolding flow_node_filters
  by (auto simp: demoRows_def demoRow_def groupNode_def str_or_def Let_def)

section \<open>Totals of the filter options\<close>

definition optionContrib :: "FlowMetric \<Rightarrow> FlowPathContext \<Rightarrow> FlowNodeKind \<Rightarrow> FlowQuotaDataItem \<Rightarrow> string \<times> FlowPathNode \<times> rat" where
  "optionContrib metric ctx stage row =
     (nodeFilterKey \<lparr>nf_kind = stage, nf_id = fp_id (NODE_BUILDERS stage row ctx)\<rparr>,
      NODE_BUILDERS stage row ctx, metricValue (rowMetrics row) metric)"

lemma addOptionTotal_upd:
  "addOptionTotal metric ctx stage row m =
   (case optionContrib metric ctx stage row of (i, d) \<Rightarrow> om_set i (rankUpd i d (om_get m i)) m)"
  unfolding addOptionTotal_def optionContrib_def rankUpd_def Let_def
  by (simp split: option.split)

lemma fold_addOptionTotal:
  "fold (addOptionTotal metric ctx stage) rows m =
   fold (\<lambda>(i, d) m. om_set i (rankUpd i d (om_get m i)) m) (map (optionContrib metric ctx stage) rows) m"
  by (induction rows arbitrary: m) (simp_all add: addOptionTotal_upd split: prod.split)

lemma rankUpd_value:
  "rk_value (rankUpd i d None) = snd d" "rk_value (rankUpd i d (Some r)) = rk_value r + snd d"
  by (simp_all add: rankUpd_def Let_def)

lemma stageOptions_sum:
  "(\<Sum>x\<leftarrow>stageOptions env rows metric stages colors palette ctx sel stage. no_valueRaw x) =
   summaryValue (buildSummary (filterRowsByNodes rows (selectedNodeFiltersExceptKind sel stage) stages ctx)) metric"
proof -
  let ?rows = "filterRowsByNodes rows (selectedNodeFiltersExceptKind sel stage) stages ctx"
  let ?totals = "fold (addOptionTotal metric ctx stage) ?rows []"
  have "(\<Sum>x\<leftarrow>stageOptions env rows metric stages colors palette ctx sel stage. no_valueRaw x) =
      (\<Sum>(k, v)\<leftarrow>filter (\<lambda>(k, _). True) ?totals. rk_value v)"
    by (simp add: stageOptions_def Let_def comp_def om_values_def case_prod_beta')
  also have "\<dots> = (\<Sum>(k, d)\<leftarrow>filter (\<lambda>(k, _). True) (map (optionContrib metric ctx stage) ?rows). snd d)"
    unfolding fold_addOptionTotal by (rule om_sum_fold [OF rankUpd_value])
  also have "\<dots> = (\<Sum>row\<leftarrow>?rows. metricValue (rowMetrics row) metric)"
    by (simp add: comp_def optionContrib_def case_prod_beta')
  finally show ?thesis by (simp add: buildSummary_sum)
qed

lemma stageOptions_kind:
  assumes "x \<in> set (stageOptions env rows metric stages colors palette ctx sel stage)"
  shows "no_kind x = stage"
proof -
  let ?cs = "map (optionContrib metric ctx stage) (filterRowsByNodes rows (selectedNodeFiltersExceptKind sel stage) stages ctx)"
  let ?m = "fold (\<lambda>(i, d) m. om_set i (rankUpd i d (om_get m i)) m) ?cs []"
  from assms obtain k r where r: "(k, r) \<in> set ?m" "no_kind x = fp_kind (rk_node r)"
    by (auto simp: stageOptions_def Let_def fold_addOptionTotal om_values_def)
  have "om_get ?m k = Some r" using r(1) by (simp add: om_get_iff [OF om.distinct_keys_fold])
  then have "fp_kind (rk_node r) = stage"
    by (rule om.get_fold_invariant [where P = "\<lambda>r. fp_kind (rk_node r) = stage" and f = rankUpd, rotated -1])
      (auto simp: rankUpd_def optionContrib_def Let_def)
  with r(2) show ?thesis by simp
qed

lemma nodeOptions_sum:
  assumes "k \<in> set (resolveVisibleStages role visible)"
  shows "(\<Sum>x\<leftarrow>filter (\<lambda>x. no_kind x = k) (buildNodeFilterOptions env rows metric role visible palette ctx sel). no_valueRaw x) =
    summaryValue (buildSummary (filterRowsByNodes rows (selectedNodeFiltersExceptKind sel k)
      (resolveVisibleStages role visible) ctx)) metric"
proof -
  let ?stages = "resolveVisibleStages role visible"
  obtain colors cmp where opts: "buildNodeFilterOptions env rows metric role visible palette ctx sel =
      js_sort cmp (concat (map (stageOptions env rows metric ?stages colors palette ctx sel) ?stages))"
    by (simp add: buildNodeFilterOptions_def Let_def)
  have sorted: "(\<Sum>x\<leftarrow>filter P (js_sort cmp xs). no_valueRaw x) = (\<Sum>x\<leftarrow>filter P xs. no_valueRaw x)" for P xs
    by (metis mset_filter mset_js_sort mset_map sum_mset_sum_list)
  have part: "filter (\<lambda>x. no_kind x = k) (concat (map (stageOptions env rows metric ?stages colors palette ctx sel) ss)) =
      (if k \<in> set ss then stageOptions env rows metric ?stages colors palette ctx sel k else [])" if "distinct ss" for ss
    using that
  proof (induction ss)
    case (Cons s ss)
    have "filter (\<lambda>x. no_kind x = k) (stageOptions env rows metric ?stages colors palette ctx sel s) =
        (if s = k then stageOptions env rows metric ?stages colors palette ctx sel s else [])"
      using stageOptions_kind [of _ env rows metric ?stages colors palette ctx sel s]
      by (auto simp: filter_empty_conv intro: filter_True)
    with Cons show ?case by auto
  qed simp
  show ?thesis
    unfolding opts sorted part [OF distinct_resolveVisibleStages] using assms by (simp add: stageOptions_sum)
qed

lemma filter_without_kind:
  assumes "\<forall>f \<in> set fs. nf_kind f \<noteq> k"
  shows "filterRowsByNodes rows (selectedNodeFiltersExceptKind (Some fs) k) stages ctx = filterRowsByNodes rows (Some fs) stages ctx"
proof -
  have "filter (\<lambda>f. nf_kind f \<noteq> k) fs = fs" using assms by (auto intro: filter_True)
  then show ?thesis
    by (cases "fs = []")
      (simp_all add: selectedNodeFiltersExceptKind_def Let_def filterRowsByNodes_def normalizeSelectedNodeFilters_def)
qed


definition demoBuild :: FlowBuildOptions where
  "demoBuild =
     \<lparr>bo_role = None, bo_selectedUsers = None,
      bo_selectedNodes = Some [\<lparr>nf_kind = GroupKind, nf_id = ''group:h''\<rparr>],
      bo_activeNode = None, bo_activeLink = None, bo_colorPalette = None, bo_visibleStages = None,
      bo_topNodeLimit = Some (Fin 1), bo_overflowMode = None, bo_maskSensitive = True,
      bo_deletedTokenLabel = None, bo_otherNodeLabel = None\<rparr>"


section \<open>Drawing order\<close>

text \<open>The chart draws dimmed links below the others and highlighted links above them: with at most
  a hundred thousand links, no two links have the same \<open>zIndex\<close>, a dimmed link stays below a hundred
  thousand, a highlighted one starts at a million and any other lies between.\<close>

theorem flow_draw_order:
  assumes "length (fg_links flow) \<le> 100000"
  shows "distinct (map snd (sankeyLinks env flow)) \<and>
    (\<forall>(l, z) \<in> set (sankeyLinks env flow).
      if dl_highlighted l = Some True then 1000000 \<le> z \<and> z < 1100000
      else if dl_dimmed l = Some True then z < 100000
      else 100000 \<le> z \<and> z < 200000)"
proof -
  define ls where "ls = js_sort (byLinkDrawPriority env) (filter (\<lambda>link. 0 < dl_value link) (fg_links flow))"
  have len: "length ls \<le> 100000"
    unfolding ls_def length_js_sort by (rule order_trans [OF length_filter_le assms])
  have links: "sankeyLinks env flow = map (\<lambda>(i, l). (l, linkZIndex l i)) (enumerate 0 ls)"
    by (simp add: sankeyLinks_def ls_def)
  have "linkZIndex l i \<noteq> linkZIndex l' j" if "i < 100000" "j < 100000" "i \<noteq> j" for l l' i j
    using that by (auto simp: linkZIndex_def)
  then have "distinct (map snd (sankeyLinks env flow))"
    using len by (auto simp: links distinct_conv_nth nth_enumerate_eq)
  moreover have "if dl_highlighted l = Some True then 1000000 \<le> z \<and> z < 1100000
      else if dl_dimmed l = Some True then z < 100000
      else 100000 \<le> z \<and> z < 200000" if "(l, z) \<in> set (sankeyLinks env flow)" for l z
    using that len by (auto simp: links in_set_enumerate_eq linkZIndex_def)
  ultimately show ?thesis by blast
qed

definition demoLink :: "string \<Rightarrow> bool option \<Rightarrow> DashboardFlowLink" where
  "demoLink t on =
     \<lparr>dl_source = ''user:1'', dl_target = t, dl_value = 1, dl_requests = 1, dl_quota = 1, dl_tokens = 0,
      dl_sourceLabel = [], dl_targetLabel = [], dl_color = [], dl_linkColor = [], dl_linkAlpha = 1,
      dl_hoverColor = [], dl_colorKey = [], dl_share = 1, dl_highlighted = on, dl_dimmed = map_option Not on\<rparr>"

theorem flow_draw_order_witness:
  "distinct (map snd (sankeyLinks demoEnv \<lparr>fg_nodes = [], fg_links = [demoLink ''b'' (Some True), demoLink ''a'' None]\<rparr>))"
  using flow_draw_order [of "\<lparr>fg_nodes = [], fg_links = [demoLink ''b'' (Some True), demoLink ''a'' None]\<rparr>" demoEnv]
  by simp

end
