(* ===== verification/Js_Json.thy ===== *)
theory Js_Json
  imports Js_Collections
begin

text \<open>
  \<open>JSON.parse\<close> and \<open>JSON.stringify\<close>, as the sources use them: the parser of the JSON grammar over the
  bytes of a text, the order of the keys of the object it builds (array indices first, ascending, then
  the others as inserted), and the printer with its indentation.  The parser recurses on fuel; a text
  as long as itself is enough fuel, since every step consumes a character.
\<close>

section \<open>Characters and strings\<close>

definition json_ws :: "char \<Rightarrow> bool" where
  "json_ws c \<longleftrightarrow> c \<in> {CHR '' '', CHR 0x09, CHR 0x0A, CHR 0x0D}"

definition skip_ws :: "string \<Rightarrow> string" where
  "skip_ws = dropWhile json_ws"

definition hex_digit :: "char \<Rightarrow> nat option" where
  "hex_digit c =
     (let n = of_char c in
      if 48 \<le> n \<and> n \<le> 57 then Some (n - 48)
      else if 97 \<le> n \<and> n \<le> 102 then Some (n - 87)
      else if 65 \<le> n \<and> n \<le> 70 then Some (n - 55)
      else None)"

text \<open>The UTF-8 bytes of a code point; a surrogate that stands alone keeps its three bytes.\<close>

definition utf8 :: "nat \<Rightarrow> string" where
  "utf8 n =
     (if n < 128 then [char_of n]
      else if n < 2048 then [char_of (192 + n div 64), char_of (128 + n mod 64)]
      else if n < 65536 then
        [char_of (224 + n div 4096), char_of (128 + n div 64 mod 64), char_of (128 + n mod 64)]
      else
        [char_of (240 + n div 262144), char_of (128 + n div 4096 mod 64), char_of (128 + n div 64 mod 64),
         char_of (128 + n mod 64)])"

fun hex4 :: "string \<Rightarrow> (nat \<times> string) option" where
  "hex4 (a # b # c # d # s) =
     (case (hex_digit a, hex_digit b, hex_digit c, hex_digit d) of
        (Some w, Some x, Some y, Some z) \<Rightarrow> Some (4096 * w + 256 * x + 16 * y + z, s)
      | _ \<Rightarrow> None)"
| "hex4 _ = None"

text \<open>The value of an escape after its backslash, and the rest of the text.\<close>

fun json_escape :: "string \<Rightarrow> (string \<times> string) option" where
  "json_escape [] = None"
| "json_escape (c # s) =
     (if c = CHR 0x22 \<or> c = CHR 0x5C \<or> c = CHR ''/'' then Some ([c], s)
      else if c = CHR ''b'' then Some ([CHR 0x08], s)
      else if c = CHR ''f'' then Some ([CHR 0x0C], s)
      else if c = CHR ''n'' then Some ([CHR 0x0A], s)
      else if c = CHR ''r'' then Some ([CHR 0x0D], s)
      else if c = CHR ''t'' then Some ([CHR 0x09], s)
      else if c = CHR ''u'' then
        (case hex4 s of
           None \<Rightarrow> None
         | Some (hi, s1) \<Rightarrow>
             (if 0xD800 \<le> hi \<and> hi < 0xDC00 then
                (case s1 of
                   x # y # s2 \<Rightarrow>
                     (if x = CHR 0x5C \<and> y = CHR ''u'' then
                        (case hex4 s2 of
                           Some (lo, s3) \<Rightarrow>
                             (if 0xDC00 \<le> lo \<and> lo < 0xE000
                              then Some (utf8 (0x10000 + (hi - 0xD800) * 0x400 + (lo - 0xDC00)), s3)
                              else Some (utf8 hi, s1))
                         | None \<Rightarrow> Some (utf8 hi, s1))
                      else Some (utf8 hi, s1))
                 | _ \<Rightarrow> Some (utf8 hi, s1))
              else Some (utf8 hi, s1)))
      else None)"

lemma hex4_length: "hex4 s = Some (n, r) \<Longrightarrow> length r < length s"
  by (cases s rule: hex4.cases) (auto split: option.splits)

lemma json_escape_length: "json_escape s = Some (v, r) \<Longrightarrow> length r < length s"
  by (cases s)
    (auto split: if_splits option.splits list.splits prod.splits dest!: hex4_length)

text \<open>The contents of a string literal after its opening quote.\<close>

function json_string :: "string \<Rightarrow> (string \<times> string) option" where
  "json_string [] = None"
| "json_string (c # s) =
     (if c = CHR 0x22 then Some ([], s)
      else if c = CHR 0x5C then
        (case json_escape s of
           None \<Rightarrow> None
         | Some (v, r) \<Rightarrow> map_option (\<lambda>(t, r'). (v @ t, r')) (json_string r))
      else if of_char c < (32 :: nat) then None
      else map_option (\<lambda>(t, r'). (c # t, r')) (json_string s))"
  by pat_completeness auto
termination
  by (relation "measure length") (auto dest: json_escape_length)

lemma json_string_length: "json_string s = Some (v, r) \<Longrightarrow> length r < length s"
proof (induction s arbitrary: v r rule: json_string.induct)
  case (2 c s)
  then show ?case by (fastforce split: if_splits option.splits dest: json_escape_length)
qed simp

section \<open>Numbers\<close>

definition span_digits :: "string \<Rightarrow> string \<times> string" where
  "span_digits s = (takeWhile is_digit s, dropWhile is_digit s)"

text \<open>A decimal number, its fraction given by its digits, and a power of ten.\<close>

definition dec_value :: "string \<Rightarrow> string \<Rightarrow> int \<Rightarrow> rat" where
  "dec_value ds fs e =
     (of_nat (digits_val ds) + of_nat (digits_val fs) / 10 ^ length fs) *
       (if 0 \<le> e then 10 ^ nat e else 1 / 10 ^ nat (- e))"

text \<open>The exponent part, if the text starts with one.\<close>

definition exp_part :: "string \<Rightarrow> int \<times> string" where
  "exp_part s =
     (case s of
        c # r \<Rightarrow>
          if c = CHR ''e'' \<or> c = CHR ''E'' then
            let neg = (r \<noteq> [] \<and> hd r = CHR ''-'');
                r' = (if r \<noteq> [] \<and> (hd r = CHR ''-'' \<or> hd r = CHR ''+'') then tl r else r);
                (es, r'') = span_digits r' in
            if es = [] then (0, s) else ((if neg then - 1 else 1) * int (digits_val es), r'')
          else (0, s)
      | [] \<Rightarrow> (0, s))"

definition json_exp_ok :: "string \<Rightarrow> bool" where
  "json_exp_ok s \<longleftrightarrow> s = [] \<or> (hd s \<noteq> CHR ''e'' \<and> hd s \<noteq> CHR ''E'') \<or> snd (exp_part s) \<noteq> s"

definition json_number :: "string \<Rightarrow> (rat \<times> string) option" where
  "json_number s =
     (let neg = (s \<noteq> [] \<and> hd s = CHR ''-'');
          (ds, r) = span_digits (if neg then tl s else s);
          sign = (if neg then - 1 else 1) in
      if ds = [] \<or> (hd ds = CHR ''0'' \<and> tl ds \<noteq> []) then None
      else if r \<noteq> [] \<and> hd r = CHR ''.'' then
        (let (fs, r2) = span_digits (tl r) in
         if fs = [] \<or> \<not> json_exp_ok r2 then None
         else let (e, r3) = exp_part r2 in Some (sign * dec_value ds fs e, r3))
      else if \<not> json_exp_ok r then None
      else let (e, r3) = exp_part r in Some (sign * dec_value ds [] e, r3))"

lemma exp_part_length: "length (snd (exp_part s)) \<le> length s"
  by (auto simp: exp_part_def span_digits_def Let_def split: list.split
      intro: le_trans [OF length_dropWhile_le])

lemma span_digits_length: "length (snd (span_digits s)) \<le> length s"
  by (simp add: span_digits_def length_dropWhile_le)

lemma span_digits_shorter: "fst (span_digits s) \<noteq> [] \<Longrightarrow> length (snd (span_digits s)) < length s"
  by (cases s) (auto simp: span_digits_def length_dropWhile_le less_Suc_eq_le split: if_splits)

lemma json_number_length: "json_number s = Some (v, r) \<Longrightarrow> length r < length s"
proof -
  assume num: "json_number s = Some (v, r)"
  define s' where "s' = (if s \<noteq> [] \<and> hd s = CHR ''-'' then tl s else s)"
  have "length s' \<le> length s" by (simp add: s'_def)
  moreover obtain ds r1 where span: "span_digits s' = (ds, r1)" by fastforce
  moreover have "ds \<noteq> []" using num span by (auto simp: json_number_def s'_def Let_def split: if_splits)
  ultimately have r1: "length r1 < length s" using span_digits_shorter [of s'] by simp
  have "length r \<le> length r1"
    using num span exp_part_length [of r1] exp_part_length [of "snd (span_digits (tl r1))"]
      span_digits_length [of "tl r1"]
    by (auto simp: json_number_def s'_def [symmetric] Let_def split: if_splits prod.splits)
  with r1 show ?thesis by simp
qed

section \<open>Objects\<close>

text \<open>The keys of an object: array indices in ascending order, then the others in insertion order.\<close>

definition is_array_index :: "string \<Rightarrow> bool" where
  "is_array_index k \<longleftrightarrow> k = nat_str (digits_val k) \<and> digits_val k < 2 ^ 32 - 1"

definition js_object :: "(string \<times> jsval) list \<Rightarrow> jsval" where
  "js_object fs =
     (let m = fold (\<lambda>(k, v) m. om_set k v m) fs [] in
      JObj (js_sort (by_key (\<lambda>(k, _). digits_val k)) (filter (\<lambda>(k, _). is_array_index k) m) @
        filter (\<lambda>(k, _). \<not> is_array_index k) m))"

section \<open>The parser\<close>

definition lit :: "string \<Rightarrow> string \<Rightarrow> string option" where
  "lit w s = (if prefix w s then Some (drop (length w) s) else None)"

fun parse_value :: "nat \<Rightarrow> string \<Rightarrow> (jsval \<times> string) option"
  and parse_elements :: "nat \<Rightarrow> string \<Rightarrow> (jsval list \<times> string) option"
  and parse_members :: "nat \<Rightarrow> string \<Rightarrow> ((string \<times> jsval) list \<times> string) option"
where
  "parse_value 0 s = None"
| "parse_value (Suc n) [] = None"
| "parse_value (Suc n) (c # s) =
     (if c = CHR ''{'' then
        (case skip_ws s of
           d # r \<Rightarrow>
             (if d = CHR ''}'' then Some (JObj [], r)
              else map_option (\<lambda>(fs, r'). (js_object fs, r')) (parse_members n (d # r)))
         | [] \<Rightarrow> None)
      else if c = CHR ''['' then
        (case skip_ws s of
           d # r \<Rightarrow>
             (if d = CHR '']'' then Some (JArr [], r)
              else map_option (\<lambda>(vs, r'). (JArr vs, r')) (parse_elements n (d # r)))
         | [] \<Rightarrow> None)
      else if c = CHR 0x22 then map_option (\<lambda>(t, r). (JStr t, r)) (json_string s)
      else if c = CHR ''t'' then map_option (\<lambda>r. (JBool True, r)) (lit ''true'' (c # s))
      else if c = CHR ''f'' then map_option (\<lambda>r. (JBool False, r)) (lit ''false'' (c # s))
      else if c = CHR ''n'' then map_option (\<lambda>r. (JNull, r)) (lit ''null'' (c # s))
      else map_option (\<lambda>(x, r). (JNum (Fin x), r)) (json_number (c # s)))"
| "parse_elements 0 s = None"
| "parse_elements (Suc n) s =
     (case parse_value n s of
        None \<Rightarrow> None
      | Some (v, r) \<Rightarrow>
          (case skip_ws r of
             d # r' \<Rightarrow>
               (if d = CHR '']'' then Some ([v], r')
                else if d = CHR '','' then map_option (\<lambda>(vs, r''). (v # vs, r'')) (parse_elements n (skip_ws r'))
                else None)
           | [] \<Rightarrow> None))"
| "parse_members 0 s = None"
| "parse_members (Suc n) s =
     (case s of
        q # s1 \<Rightarrow>
          (if q \<noteq> CHR 0x22 then None
           else
             (case json_string s1 of
                None \<Rightarrow> None
              | Some (k, r) \<Rightarrow>
                  (case skip_ws r of
                     colon # r1 \<Rightarrow>
                       (if colon \<noteq> CHR '':'' then None
                        else
                          (case parse_value n (skip_ws r1) of
                             None \<Rightarrow> None
                           | Some (v, r2) \<Rightarrow>
                               (case skip_ws r2 of
                                  d # r3 \<Rightarrow>
                                    (if d = CHR ''}'' then Some ([(k, v)], r3)
                                     else if d = CHR '','' then
                                       map_option (\<lambda>(fs, r4). ((k, v) # fs, r4)) (parse_members n (skip_ws r3))
                                     else None)
                                | [] \<Rightarrow> None)))
                   | [] \<Rightarrow> None)))
      | [] \<Rightarrow> None)"

text \<open>\<open>JSON.parse\<close>; the \<open>SyntaxError\<close> it throws is \<open>None\<close>.\<close>

definition json_parse :: "string \<Rightarrow> jsval option" where
  "json_parse s =
     (case parse_value (2 * length s + 1) (skip_ws s) of
        None \<Rightarrow> None
      | Some (v, r) \<Rightarrow> if skip_ws r = [] then Some v else None)"

section \<open>Every step consumes a character\<close>

lemma skip_ws_length: "length (skip_ws s) \<le> length s"
  by (simp add: skip_ws_def length_dropWhile_le)

lemma skip_ws_Cons_length: "skip_ws s = d # r \<Longrightarrow> length r < length s"
  using skip_ws_length [of s] by simp

lemma lit_length: "lit (c # w) s = Some r \<Longrightarrow> length r < length s"
  by (auto simp: lit_def prefix_def split: if_splits)

lemma parse_consumes:
  "parse_value n s = Some (v, r) \<Longrightarrow> length r < length s"
  "parse_elements n s = Some (vs, r) \<Longrightarrow> length r < length s"
  "parse_members n s = Some (fs, r) \<Longrightarrow> length r < length s"
proof (induction n s and n s and n s arbitrary: v r and vs r and fs r
    rule: parse_value_parse_elements_parse_members.induct)
  case (3 n c s)
  show ?case
  proof (cases "skip_ws s")
    case Nil
    with 3(3) show ?thesis
      by (auto split: if_splits dest!: json_string_length lit_length json_number_length)
  next
    case (Cons d r')
    then have r': "length r' < length s" by (rule skip_ws_Cons_length)
    from Cons 3(3) 3(1) [OF _ Cons] 3(2) [OF _ _ Cons] r' show ?thesis
      by (auto split: if_splits dest!: json_string_length lit_length json_number_length)
  qed
next
  case (5 n s)
  then obtain v r1 where v: "parse_value n s = Some (v, r1)" by (auto split: option.splits)
  then have r1: "length r1 < length s" using 5(1) by blast
  obtain d r' where d: "skip_ws r1 = d # r'" using 5(3) v by (auto split: list.splits)
  have r': "length r' < length r1" using d by (rule skip_ws_Cons_length)
  show ?case
  proof (cases "d = CHR '']''")
    case True
    with 5(3) v d r1 r' show ?thesis by simp
  next
    case False
    then obtain vs' where "parse_elements n (skip_ws r') = Some (vs', r)"
      using 5(3) v d by (auto split: if_splits)
    with 5(2) [OF v refl d False] have "length r < length (skip_ws r')"
      using 5(3) v d False by (auto split: if_splits)
    with skip_ws_length [of r'] r' r1 show ?thesis by linarith
  qed
next
  case (7 n s)
  then obtain s1 k r0 where s1: "s = CHR 0x22 # s1" "json_string s1 = Some (k, r0)"
    by (auto split: list.splits if_splits option.splits)
  then have r0: "length r0 < length s" using json_string_length [of s1] by simp
  obtain r1 where r1: "skip_ws r0 = CHR '':'' # r1" using 7(3) s1 by (auto split: list.splits if_splits)
  have l1: "length r1 < length r0" using r1 by (rule skip_ws_Cons_length)
  obtain v r2 where v: "parse_value n (skip_ws r1) = Some (v, r2)" using 7(3) s1 r1 by (auto split: option.splits)
  have l2: "length r2 < length (skip_ws r1)"
    using 7(1) [OF s1(1) _ s1(2) refl r1 _ v] v 7(1) s1 r1 by auto
  obtain d r3 where d: "skip_ws r2 = d # r3" using 7(3) s1 r1 v by (auto split: list.splits)
  have l3: "length r3 < length r2" using d by (rule skip_ws_Cons_length)
  show ?case
  proof (cases "d = CHR ''}''")
    case True
    with 7(3) s1 r1 v d r0 l1 l2 l3 skip_ws_length [of r1] show ?thesis by simp
  next
    case False
    then obtain fs' where fs': "parse_members n (skip_ws r3) = Some (fs', r)" "d = CHR '',''"
      using 7(3) s1 r1 v d by (auto split: if_splits)
    have "length r < length (skip_ws r3)"
      using 7(2) s1 r1 v d False fs' by auto
    with skip_ws_length [of r3] skip_ws_length [of r1] l1 l2 l3 r0 show ?thesis by linarith
  qed
qed auto

text \<open>Twice the length of the text is enough fuel: whatever some fuel finds, it finds.\<close>

lemma parse_fuel:
  "parse_value n s = Some x \<Longrightarrow> 2 * length s \<le> m \<Longrightarrow> parse_value m s = Some x"
  "parse_elements n s = Some y \<Longrightarrow> 2 * length s + 1 \<le> m \<Longrightarrow> parse_elements m s = Some y"
  "parse_members n s = Some z \<Longrightarrow> 2 * length s + 1 \<le> m \<Longrightarrow> parse_members m s = Some z"
proof (induction n s and n s and n s arbitrary: x m and y m and z m
    rule: parse_value_parse_elements_parse_members.induct)
  case (3 n c s)
  from 3(4) obtain m' where m: "m = Suc m'" "2 * length s + 1 \<le> m'" by (cases m) auto
  show ?case
  proof (cases "skip_ws s")
    case Nil
    with 3(3) m(1) show ?thesis by (simp split: if_splits)
  next
    case (Cons d r)
    then have "2 * length (d # r) + 1 \<le> m'" using skip_ws_length [of s] m(2) by simp
    then have mem: "parse_members m' (d # r) = Some z'"
      if "parse_members n (d # r) = Some z'" "c = CHR ''{''" "d \<noteq> CHR ''}''" for z'
      by (intro 3(1) [OF that(2) Cons that(3,1)]) simp_all
    have ele: "parse_elements m' (d # r) = Some y'"
      if "parse_elements n (d # r) = Some y'" "c \<noteq> CHR ''{''" "c = CHR ''[''" "d \<noteq> CHR '']''" for y'
      by (intro 3(2) [OF that(2,3) Cons that(4,1)]) (use Cons skip_ws_length [of s] m(2) in simp_all)
    show ?thesis
    proof (cases "c = CHR ''{'' \<or> c = CHR ''[''")
      case True
      with 3(3) Cons mem ele m(1) show ?thesis by (auto split: if_splits)
    next
      case False
      with 3(3) m(1) show ?thesis by simp
    qed
  qed
next
  case (5 n s)
  from 5(4) obtain m' where m: "m = Suc m'" "2 * length s \<le> m'" by (cases m) auto
  obtain v r1 where v: "parse_value n s = Some (v, r1)" using 5(3) by (auto split: option.splits)
  then have v': "parse_value m' s = Some (v, r1)" using 5(1) m(2) by blast
  have r1: "length r1 < length s" using parse_consumes(1) [OF v] .
  obtain d r' where d: "skip_ws r1 = d # r'" using 5(3) v by (auto split: list.splits)
  have "2 * length (skip_ws r') + 1 \<le> m'"
    using skip_ws_Cons_length [OF d] skip_ws_length [of r'] r1 m(2) by simp
  then have "parse_elements m' (skip_ws r') = Some y'"
    if "parse_elements n (skip_ws r') = Some y'" "d \<noteq> CHR '']''" "d = CHR '',''" for y'
    by (intro 5(2) [OF v refl d that(2,3,1)]) simp_all
  with 5(3) v v' d m(1) show ?case by (auto split: if_splits)
next
  case (7 n s)
  from 7(4) obtain m' where m: "m = Suc m'" "2 * length s \<le> m'" by (cases m) auto
  obtain s1 k r0 where s1: "s = CHR 0x22 # s1" "json_string s1 = Some (k, r0)"
    using 7(3) by (auto split: list.splits if_splits option.splits)
  then have r0: "length r0 < length s" using json_string_length [of s1] by simp
  obtain r1 where r1: "skip_ws r0 = CHR '':'' # r1" using 7(3) s1 by (auto split: list.splits if_splits)
  have l1: "length (skip_ws r1) < length r0"
    using skip_ws_Cons_length [OF r1] skip_ws_length [of r1] by simp
  obtain v r2 where v: "parse_value n (skip_ws r1) = Some (v, r2)" using 7(3) s1 r1 by (auto split: option.splits)
  have v': "parse_value m' (skip_ws r1) = Some (v, r2)"
    by (rule 7(1) [OF s1(1) _ s1(2) refl r1 _ v]) (use l1 r0 m(2) in simp_all)
  obtain d r3 where d: "skip_ws r2 = d # r3" using 7(3) s1 r1 v by (auto split: list.splits)
  have "2 * length (skip_ws r3) + 1 \<le> m'"
    using skip_ws_Cons_length [OF d] skip_ws_length [of r3] parse_consumes(1) [OF v] l1 r0 m(2) by simp
  then have "parse_members m' (skip_ws r3) = Some z'"
    if "parse_members n (skip_ws r3) = Some z'" "d \<noteq> CHR ''}''" "d = CHR '',''" for z'
    by (intro 7(2) [OF s1(1) _ s1(2) refl r1 _ v refl d that(2,3,1)]) simp_all
  with 7(3) s1 r1 v v' d m(1) show ?case by (auto split: if_splits)
qed auto

declare parse_value.simps [simp del] parse_elements.simps [simp del] parse_members.simps [simp del]

lemma json_parse_fuel:
  assumes "parse_value n (skip_ws s) = Some (v, r)" and "skip_ws r = []"
  shows "json_parse s = Some v"
proof -
  have "2 * length (skip_ws s) \<le> 2 * length s + 1" using skip_ws_length [of s] by simp
  from parse_fuel(1) [OF assms(1) this] assms(2) show ?thesis by (simp add: json_parse_def)
qed

section \<open>The printer\<close>

definition hex_char :: "nat \<Rightarrow> char" where
  "hex_char n = char_of (if n < 10 then 48 + n else 87 + n)"

definition json_esc :: "char \<Rightarrow> string" where
  "json_esc c =
     (if c = CHR 0x22 then [CHR 0x5C, CHR 0x22]
      else if c = CHR 0x5C then [CHR 0x5C, CHR 0x5C]
      else if c = CHR 0x08 then [CHR 0x5C, CHR ''b'']
      else if c = CHR 0x0C then [CHR 0x5C, CHR ''f'']
      else if c = CHR 0x0A then [CHR 0x5C, CHR ''n'']
      else if c = CHR 0x0D then [CHR 0x5C, CHR ''r'']
      else if c = CHR 0x09 then [CHR 0x5C, CHR ''t'']
      else if of_char c < (32 :: nat)
        then [CHR 0x5C, CHR ''u'', CHR ''0'', CHR ''0'', hex_char (of_char c div 16), hex_char (of_char c mod 16)]
      else [c])"

definition json_quote :: "string \<Rightarrow> string" where
  "json_quote s = [CHR 0x22] @ concat (map json_esc s) @ [CHR 0x22]"

text \<open>The decimal numeral of a number: the shortest fraction of at most twenty digits.\<close>

definition frac_len :: "rat \<Rightarrow> nat" where
  "frac_len x = (case find (\<lambda>k. of_int \<lfloor>x * 10 ^ k\<rfloor> = x * 10 ^ k) [0..<20] of Some k \<Rightarrow> k | None \<Rightarrow> 20)"

definition num_str :: "rat \<Rightarrow> string" where
  "num_str x =
     (let a = \<bar>x\<bar>; k = frac_len a; n = nat \<lfloor>a * 10 ^ k\<rfloor>; fs = nat_str (n mod 10 ^ k) in
      (if x < 0 then ''-'' else []) @ nat_str (n div 10 ^ k) @
      (if k = 0 then [] else ''.'' @ replicate (k - length fs) (CHR ''0'') @ fs))"

definition layout :: "string \<Rightarrow> string \<Rightarrow> string \<Rightarrow> string \<Rightarrow> string list \<Rightarrow> string" where
  "layout gap ind op cl items =
     (if items = [] then op @ cl
      else if gap = [] then op @ join_with '','' items @ cl
      else op @ [CHR 0x0A] @ ind @ gap @ join_with ('','' @ [CHR 0x0A] @ ind @ gap) items @ [CHR 0x0A] @ ind @ cl)"

fun json_print :: "string \<Rightarrow> string \<Rightarrow> jsval \<Rightarrow> string" where
  "json_print gap ind JUndef = ''null''"
| "json_print gap ind JNull = ''null''"
| "json_print gap ind (JBool b) = (if b then ''true'' else ''false'')"
| "json_print gap ind (JNum (Fin x)) = num_str x"
| "json_print gap ind (JNum _) = ''null''"
| "json_print gap ind (JStr s) = json_quote s"
| "json_print gap ind (JArr vs) = layout gap ind ''['' '']'' (map (json_print gap (ind @ gap)) vs)"
| "json_print gap ind (JObj fs) =
     layout gap ind ''{'' ''}''
       (map (\<lambda>(k, v). json_quote k @ '':'' @ (if gap = [] then [] else '' '') @ json_print gap (ind @ gap) v)
         (filter (\<lambda>(k, v). v \<noteq> JUndef) fs))"

text \<open>\<open>JSON.stringify(v)\<close> and \<open>JSON.stringify(v, null, 2)\<close> of a value other than \<open>undefined\<close>.\<close>

definition json_stringify :: "jsval \<Rightarrow> string" where
  "json_stringify v = json_print [] [] v"

definition json_pretty :: "jsval \<Rightarrow> string" where
  "json_pretty v = json_print ''  '' [] v"

section \<open>Parsing what was printed\<close>

text \<open>The values of JSON: numbers are integers, objects have distinct keys in the order of JavaScript.\<close>

fun json_wf :: "jsval \<Rightarrow> bool" where
  "json_wf JUndef = False"
| "json_wf JNull = True"
| "json_wf (JBool b) = True"
| "json_wf (JNum (Fin x)) = (of_int \<lfloor>x\<rfloor> = x)"
| "json_wf (JNum _) = False"
| "json_wf (JStr s) = True"
| "json_wf (JArr vs) = (\<forall>v \<in> set vs. json_wf v)"
| "json_wf (JObj fs) = (js_object fs = JObj fs \<and> (\<forall>(k, v) \<in> set fs. json_wf v))"

lemma hex_digit_hex_char: "n < 16 \<Longrightarrow> hex_digit (hex_char n) = Some n"
  by (auto simp: hex_digit_def hex_char_def Let_def)

lemma json_string_esc:
  "json_string (json_esc c @ s) = map_option (\<lambda>(t, r). (c # t, r)) (json_string s)"
proof (cases "of_char c < (32 :: nat) \<and> c \<notin> {CHR 0x08, CHR 0x0C, CHR 0x0A, CHR 0x0D, CHR 0x09}")
  case True
  define n where "n = (of_char c :: nat)"
  have n: "n < 32" using True by (simp add: n_def)
  let ?t = "CHR ''0'' # CHR ''0'' # hex_char (n div 16) # hex_char (n mod 16) # s"
  have "n div 16 < 16" "n mod 16 < 16" using n by simp_all
  then have hex: "hex4 ?t = Some (n, s)"
    using hex_digit_hex_char [of "n div 16"] hex_digit_hex_char [of "n mod 16"]
    by (simp add: hex_digit_def [of "CHR ''0''"])
  have "utf8 n = [c]" using n by (simp add: utf8_def n_def)
  with hex n have esc: "json_escape (CHR ''u'' # ?t) = Some ([c], s)" by (simp del: hex4.simps)
  have "json_esc c @ s = CHR 0x5C # CHR ''u'' # ?t"
  proof -
    have "c \<noteq> CHR 0x22" "c \<noteq> CHR 0x5C" using n by (auto simp: n_def)
    with True show ?thesis by (simp add: json_esc_def n_def)
  qed
  then show ?thesis by (simp add: esc del: json_escape.simps)
next
  case False
  then show ?thesis by (auto simp: json_esc_def)
qed

lemma json_string_quote: "json_string (concat (map json_esc s) @ CHR 0x22 # r) = Some (s, r)"
  by (induction s) (simp_all add: json_string_esc)

definition stops :: "string \<Rightarrow> bool" where
  "stops r \<longleftrightarrow> r = [] \<or> hd r \<in> {CHR '','', CHR '']'', CHR ''}'', CHR 0x0A}"

lemma span_digits_append:
  "\<forall>c \<in> set ds. is_digit c \<Longrightarrow> r = [] \<or> \<not> is_digit (hd r) \<Longrightarrow> span_digits (ds @ r) = (ds, r)"
  by (cases r) (auto simp: span_digits_def takeWhile_append2 dropWhile_append2 takeWhile_append1)

lemma nat_str_no_leading_zero: "tl (nat_str n) \<noteq> [] \<Longrightarrow> hd (nat_str n) \<noteq> CHR ''0''"
proof (induction n rule: nat_str.induct)
  case (1 n)
  show ?case
  proof (cases "n < 10")
    case True
    with 1(2) show ?thesis by (simp add: nat_str.simps [of n])
  next
    case False
    have zero: "nat_str m = [CHR ''0''] \<Longrightarrow> m = 0" for m
      using digits_val_nat_str [of m] by (simp add: digits_val_def digit_val_def)
    from False have "n div 10 \<noteq> 0" by simp
    with zero [of "n div 10"] 1(1) False have "hd (nat_str (n div 10)) \<noteq> CHR ''0''"
      by (metis list.collapse nat_str_nonempty)
    with False show ?thesis by (simp add: nat_str.simps [of n] hd_append)
  qed
qed

lemma json_number_int:
  assumes "stops r"
  shows "json_number (int_str i @ r) = Some (of_int i, r)"
proof -
  have r: "r = [] \<or> \<not> is_digit (hd r)" "(r \<noteq> [] \<and> hd r = CHR ''.'') = False" "json_exp_ok r" "exp_part r = (0, r)"
    using assms by (auto simp: stops_def is_digit_def json_exp_ok_def exp_part_def split: list.split)
  have span: "span_digits (nat_str n @ r) = (nat_str n, r)" for n
    using nat_str_digits r(1) by (intro span_digits_append) auto
  have lead: "\<not> (hd (nat_str n) = CHR ''0'' \<and> tl (nat_str n) \<noteq> [])" for n
    using nat_str_no_leading_zero by blast
  have minus: "hd (nat_str n @ r) \<noteq> CHR ''-''" for n
    using nat_str_digits [of "hd (nat_str n)" n] not_digits by (auto simp: hd_append)
  have val: "dec_value (nat_str n) [] 0 = of_nat n" for n
    by (simp add: dec_value_def digits_val_def [of "[]"])
  show ?thesis
  proof (cases "0 \<le> i")
    case True
    then have "int_str i = nat_str (nat i)" by (simp add: int_str_def)
    with True span [of "nat i"] lead [of "nat i"] minus [of "nat i"] r val [of "nat i"] show ?thesis
      by (auto simp: json_number_def)
  next
    case False
    then have "int_str i = CHR ''-'' # nat_str (nat (- i))" by (simp add: int_str_def)
    with False span [of "nat (- i)"] lead [of "nat (- i)"] r val [of "nat (- i)"] show ?thesis
      by (auto simp: json_number_def)
  qed
qed

lemma num_str_int: "num_str (of_int i) = int_str i"
proof -
  have "frac_len \<bar>of_int i\<bar> = 0"
    by (simp add: frac_len_def upt_conv_Cons flip: of_int_abs)
  then show ?thesis
    by (auto simp: num_str_def int_str_def Let_def simp flip: of_int_abs)
qed

definition blank :: "string \<Rightarrow> bool" where
  "blank w \<longleftrightarrow> (\<forall>c \<in> set w. json_ws c)"

lemma skip_ws_blank: "blank w \<Longrightarrow> skip_ws (w @ s) = skip_ws s"
  by (auto simp: blank_def skip_ws_def dropWhile_append2)

lemma skip_ws_solid: "s \<noteq> [] \<Longrightarrow> \<not> json_ws (hd s) \<Longrightarrow> skip_ws s = s"
  by (cases s) (auto simp: skip_ws_def)

text \<open>A parser reads back a printed item, whatever follows it.\<close>

definition reads :: "string \<Rightarrow> jsval \<Rightarrow> bool" where
  "reads t v \<longleftrightarrow> t \<noteq> [] \<and> \<not> json_ws (hd t) \<and> hd t \<notin> {CHR '']'', CHR ''}''} \<and>
     (\<forall>r. stops r \<longrightarrow> parse_value (2 * length (t @ r)) (t @ r) = Some (v, r))"

lemma readsI:
  assumes "t \<noteq> []" and "\<not> json_ws (hd t)" and "hd t \<notin> {CHR '']'', CHR ''}''}"
    and "\<And>r. stops r \<Longrightarrow> \<exists>n. parse_value n (t @ r) = Some (v, r)"
  shows "reads t v"
  using assms parse_fuel(1) unfolding reads_def by blast

lemma readsD: "reads t v \<Longrightarrow> stops r \<Longrightarrow> 2 * length (t @ r) \<le> m \<Longrightarrow> parse_value m (t @ r) = Some (v, r)"
  using parse_fuel(1) unfolding reads_def by blast

lemma reads_hd: "reads t v \<Longrightarrow> t \<noteq> [] \<and> \<not> json_ws (hd t) \<and> hd t \<notin> {CHR '']'', CHR ''}''}"
  by (simp add: reads_def)

lemma hd_join_items: "ts \<noteq> [] \<Longrightarrow> hd ts \<noteq> [] \<Longrightarrow> join_with d ts @ r \<noteq> [] \<and> hd (join_with d ts @ r) = hd (hd ts)"
  by (cases ts) (auto simp: join_with_Cons)

lemma stops_Cons [simp]: "stops (c # r) \<longleftrightarrow> c \<in> {CHR '','', CHR '']'', CHR ''}'', CHR 0x0A}"
  by (simp add: stops_def)

lemma parse_elements_last:
  "parse_value m s = Some (v, r) \<Longrightarrow> skip_ws r = CHR '']'' # r' \<Longrightarrow> parse_elements (Suc m) s = Some ([v], r')"
  by (simp add: parse_elements.simps)

lemma parse_elements_more:
  "parse_value m s = Some (v, r) \<Longrightarrow> skip_ws r = CHR '','' # r' \<Longrightarrow>
   parse_elements m (skip_ws r') = Some (vs, r'') \<Longrightarrow> parse_elements (Suc m) s = Some (v # vs, r'')"
  by (simp add: parse_elements.simps)

lemma parse_elements_print:
  assumes "list_all2 reads ts vs" and "ts \<noteq> []" and "blank w" and "blank w2" and "stops (w2 @ '']'')"
  shows "\<exists>n. parse_elements n (join_with (CHR '','' # w) ts @ w2 @ CHR '']'' # r) = Some (vs, r)"
  using assms(1,2)
proof (induction ts vs rule: list_all2_induct)
  case (Cons t ts v vs)
  show ?case
  proof (cases "ts = []")
    case True
    then have vs: "vs = []" using Cons(2) by simp
    have stop: "stops (w2 @ CHR '']'' # r)" using assms(5) by (cases w2) auto
    have "skip_ws (w2 @ CHR '']'' # r) = CHR '']'' # r"
      using skip_ws_blank [OF assms(4)] by (simp add: skip_ws_solid json_ws_def)
    with parse_elements_last [OF readsD [OF Cons(1) stop order.refl]]
    have "\<exists>n. parse_elements n (t @ w2 @ CHR '']'' # r) = Some ([v], r)" by blast
    with True vs show ?thesis by simp
  next
    case False
    let ?rest = "join_with (CHR '','' # w) ts @ w2 @ CHR '']'' # r"
    obtain n where n: "parse_elements n ?rest = Some (vs, r)" using Cons(3) False by blast
    have join: "join_with (CHR '','' # w) (t # ts) = t @ CHR '','' # w @ join_with (CHR '','' # w) ts"
      using False by (simp add: join_with_Cons)
    have "reads (hd ts) (hd vs)" using Cons(2) False by (cases ts; cases vs) auto
    then have "skip_ws ?rest = ?rest"
      using hd_join_items [OF False, of "CHR '','' # w" "w2 @ CHR '']'' # r"] reads_hd [of "hd ts" "hd vs"]
      by (intro skip_ws_solid) auto
    then have skip: "skip_ws (w @ ?rest) = ?rest" using skip_ws_blank [OF assms(3)] by simp
    let ?m = "max (2 * length (t @ CHR '','' # w @ ?rest)) (2 * length ?rest + 1)"
    have "parse_elements (Suc ?m) (t @ CHR '','' # w @ ?rest) = Some (v # vs, r)"
    proof (rule parse_elements_more)
      show "parse_value ?m (t @ CHR '','' # w @ ?rest) = Some (v, CHR '','' # w @ ?rest)"
        by (rule readsD [OF Cons(1)]) auto
      show "skip_ws (CHR '','' # w @ ?rest) = CHR '','' # w @ ?rest" by (rule skip_ws_solid) (auto simp: json_ws_def)
      show "parse_elements ?m (skip_ws (w @ ?rest)) = Some (vs, r)"
        unfolding skip by (rule parse_fuel(2) [OF n]) simp
    qed
    then have "\<exists>n. parse_elements n (t @ CHR '','' # w @ ?rest) = Some (v # vs, r)" by blast
    then show ?thesis unfolding join by simp
  qed
qed simp

lemma parse_members_last:
  "s = CHR 0x22 # s1 \<Longrightarrow> json_string s1 = Some (k, r0) \<Longrightarrow> skip_ws r0 = CHR '':'' # r1 \<Longrightarrow>
   parse_value m (skip_ws r1) = Some (v, r) \<Longrightarrow> skip_ws r = CHR ''}'' # r' \<Longrightarrow>
   parse_members (Suc m) s = Some ([(k, v)], r')"
  by (simp add: parse_members.simps)

lemma parse_members_more:
  "s = CHR 0x22 # s1 \<Longrightarrow> json_string s1 = Some (k, r0) \<Longrightarrow> skip_ws r0 = CHR '':'' # r1 \<Longrightarrow>
   parse_value m (skip_ws r1) = Some (v, r) \<Longrightarrow> skip_ws r = CHR '','' # r' \<Longrightarrow>
   parse_members m (skip_ws r') = Some (fs, r'') \<Longrightarrow> parse_members (Suc m) s = Some ((k, v) # fs, r'')"
  by (simp add: parse_members.simps)

definition member_text :: "string \<Rightarrow> string \<times> string \<Rightarrow> string" where
  "member_text sp m = json_quote (fst m) @ CHR '':'' # sp @ snd m"

lemma json_string_member:
  "json_quote k @ s = CHR 0x22 # concat (map json_esc k) @ CHR 0x22 # s"
  by (simp add: json_quote_def)

lemma parse_members_print:
  assumes "list_all2 (\<lambda>(k, t) (k', v). k = k' \<and> reads t v) ts fs" and "ts \<noteq> []" and "blank sp" and "blank w"
    and "blank w2" and "stops (w2 @ ''}'')"
  shows "\<exists>n. parse_members n (join_with (CHR '','' # w) (map (member_text sp) ts) @ w2 @ CHR ''}'' # r) = Some (fs, r)"
  using assms(1,2)
proof (induction ts fs rule: list_all2_induct)
  case (Cons kt ts kv fs)
  obtain k t v where kt: "kt = (k, t)" "kv = (k, v)" and v: "reads t v" using Cons(1) by (cases kt; cases kv) auto
  have colon: "skip_ws (CHR '':'' # x) = CHR '':'' # x" for x by (rule skip_ws_solid) (auto simp: json_ws_def)
  have skip_t: "skip_ws (sp @ t @ x) = t @ x" for x
    using reads_hd [OF v] skip_ws_blank [OF assms(3)] by (simp add: skip_ws_solid)
  have form: "member_text sp kt @ x = CHR 0x22 # concat (map json_esc k) @ CHR 0x22 # CHR '':'' # sp @ t @ x" for x
    by (simp add: member_text_def kt json_quote_def)
  show ?case
  proof (cases "ts = []")
    case True
    then have fs: "fs = []" using Cons(2) by simp
    have stop: "stops (w2 @ CHR ''}'' # r)" using assms(6) by (cases w2) auto
    have "skip_ws (w2 @ CHR ''}'' # r) = CHR ''}'' # r"
      using skip_ws_blank [OF assms(5)] by (simp add: skip_ws_solid json_ws_def)
    with parse_members_last [OF form json_string_quote colon]
    have "\<exists>n. parse_members n (member_text sp kt @ w2 @ CHR ''}'' # r) = Some ([(k, v)], r)"
      unfolding skip_t using readsD [OF v stop order.refl] by blast
    with True fs kt show ?thesis by simp
  next
    case False
    let ?rest = "join_with (CHR '','' # w) (map (member_text sp) ts) @ w2 @ CHR ''}'' # r"
    obtain n where n: "parse_members n ?rest = Some (fs, r)" using Cons(3) False by blast
    have join: "join_with (CHR '','' # w) (map (member_text sp) (kt # ts)) =
        member_text sp kt @ CHR '','' # w @ join_with (CHR '','' # w) (map (member_text sp) ts)"
      using False by (simp add: join_with_Cons)
    have "skip_ws ?rest = ?rest"
      using hd_join_items [of "map (member_text sp) ts" "CHR '','' # w" "w2 @ CHR ''}'' # r"] False
      by (intro skip_ws_solid) (auto simp: hd_map member_text_def json_quote_def json_ws_def)
    then have skip: "skip_ws (w @ ?rest) = ?rest" using skip_ws_blank [OF assms(4)] by simp
    let ?m = "max (2 * length (t @ CHR '','' # w @ ?rest)) (2 * length ?rest + 1)"
    have "parse_members (Suc ?m) (member_text sp kt @ CHR '','' # w @ ?rest) = Some ((k, v) # fs, r)"
    proof (rule parse_members_more [OF form json_string_quote colon])
      show "parse_value ?m (skip_ws (sp @ t @ CHR '','' # w @ ?rest)) = Some (v, CHR '','' # w @ ?rest)"
        unfolding skip_t by (rule readsD [OF v]) auto
      show "skip_ws (CHR '','' # w @ ?rest) = CHR '','' # w @ ?rest" by (rule skip_ws_solid) (auto simp: json_ws_def)
      show "parse_members ?m (skip_ws (w @ ?rest)) = Some (fs, r)"
        unfolding skip by (rule parse_fuel(3) [OF n]) simp
    qed
    then have "\<exists>n. parse_members n (member_text sp kt @ CHR '','' # w @ ?rest) = Some ((k, v) # fs, r)" by blast
    then show ?thesis using join by (simp add: kt)
  qed
qed simp

lemma parse_value_array:
  "skip_ws s = d # s' \<Longrightarrow> d \<noteq> CHR '']'' \<Longrightarrow> parse_elements n (d # s') = Some (vs, r) \<Longrightarrow>
   parse_value (Suc n) (CHR ''['' # s) = Some (JArr vs, r)"
  by (simp add: parse_value.simps)

lemma parse_value_object:
  "skip_ws s = d # s' \<Longrightarrow> d \<noteq> CHR ''}'' \<Longrightarrow> parse_members n (d # s') = Some (fs, r) \<Longrightarrow>
   parse_value (Suc n) (CHR ''{'' # s) = Some (js_object fs, r)"
  by (simp add: parse_value.simps)

lemma blank_append [simp]: "blank (u @ v) \<longleftrightarrow> blank u \<and> blank v"
  by (auto simp: blank_def)

lemma blank_simps [simp]: "blank []" "blank (c # w) \<longleftrightarrow> json_ws c \<and> blank w"
  by (auto simp: blank_def)

lemma skip_blank_Cons: "blank w \<Longrightarrow> t \<noteq> [] \<Longrightarrow> \<not> json_ws (hd t) \<Longrightarrow> skip_ws (w @ t) = hd t # tl t"
  by (simp add: skip_ws_blank skip_ws_solid)

text \<open>The layout of a list of items: blanks around the items joined with a comma and blanks.\<close>

lemma layout_form:
  assumes "items \<noteq> []" and "blank gap" and "blank ind"
  obtains w1 w w2 where "layout gap ind op cl items = op @ w1 @ join_with (CHR '','' # w) items @ w2 @ cl"
    and "blank w1" and "blank w" and "blank w2" and "w2 = [] \<or> hd w2 = CHR 0x0A"
proof (cases "gap = []")
  case True
  show ?thesis by (rule that [of "[]" "[]" "[]"]) (use True assms in \<open>auto simp: layout_def\<close>)
next
  case False
  show ?thesis
    by (rule that [of "CHR 0x0A # ind @ gap" "CHR 0x0A # ind @ gap" "CHR 0x0A # ind"])
      (use False assms in \<open>auto simp: layout_def json_ws_def\<close>)
qed

lemma reads_layout_array:
  assumes "list_all2 reads ts vs" and "blank gap" and "blank ind"
  shows "reads (layout gap ind ''['' '']'' ts) (JArr vs)"
proof (cases "ts = []")
  case True
  then have "vs = []" using assms(1) by simp
  have "parse_value 1 (''[]'' @ r) = Some (JArr [], r)" for r
    by (simp add: parse_value.simps skip_ws_def json_ws_def)
  then show ?thesis
    unfolding True \<open>vs = []\<close> layout_def by (intro readsI) (auto simp: json_ws_def)
next
  case False
  obtain w1 w w2 where form: "layout gap ind ''['' '']'' ts = ''['' @ w1 @ join_with (CHR '','' # w) ts @ w2 @ '']''"
    and blank: "blank w1" "blank w" "blank w2" "w2 = [] \<or> hd w2 = CHR 0x0A"
    using layout_form [OF False assms(2,3)] by blast
  have first: "reads (hd ts) (hd vs)" using assms(1) False by (cases ts; cases vs) auto
  show ?thesis
  proof (rule readsI)
    fix r
    have "stops (w2 @ '']'')" using blank(4) by (cases w2) auto
    then obtain n where n: "parse_elements n (join_with (CHR '','' # w) ts @ w2 @ CHR '']'' # r) = Some (vs, r)"
      using parse_elements_print [OF assms(1) False blank(2,3)] by blast
    let ?t = "join_with (CHR '','' # w) ts @ w2 @ CHR '']'' # r"
    have hd: "?t \<noteq> []" "hd ?t = hd (hd ts)"
      using hd_join_items [OF False] reads_hd [OF first] by blast+
    then have "skip_ws (w1 @ ?t) = hd ?t # tl ?t"
      using reads_hd [OF first] by (intro skip_blank_Cons [OF blank(1)]) simp_all
    moreover have "hd ?t \<noteq> CHR '']''" using hd(2) reads_hd [OF first] by simp
    moreover have "parse_elements n (hd ?t # tl ?t) = Some (vs, r)" using n hd(1) by simp
    ultimately have "parse_value (Suc n) (CHR ''['' # w1 @ ?t) = Some (JArr vs, r)" by (rule parse_value_array)
    then show "\<exists>n. parse_value n (layout gap ind ''['' '']'' ts @ r) = Some (JArr vs, r)"
      unfolding form by auto
  qed (auto simp: form json_ws_def)
qed

lemma reads_layout_object:
  assumes "list_all2 (\<lambda>(k, t) (k', v). k = k' \<and> reads t v) ts fs" and "js_object fs = JObj fs"
    and "blank sp" and "blank gap" and "blank ind"
  shows "reads (layout gap ind ''{'' ''}'' (map (member_text sp) ts)) (JObj fs)"
proof (cases "ts = []")
  case True
  then have "fs = []" using assms(1) by simp
  have "parse_value 1 (''{}'' @ r) = Some (JObj [], r)" for r
    by (simp add: parse_value.simps skip_ws_def json_ws_def)
  then show ?thesis
    unfolding True \<open>fs = []\<close> layout_def by (intro readsI) (auto simp: json_ws_def)
next
  case False
  let ?items = "map (member_text sp) ts"
  obtain w1 w w2 where form: "layout gap ind ''{'' ''}'' ?items = ''{'' @ w1 @ join_with (CHR '','' # w) ?items @ w2 @ ''}''"
    and blank: "blank w1" "blank w" "blank w2" "w2 = [] \<or> hd w2 = CHR 0x0A"
    using layout_form [of ?items] False assms(4,5) by blast
  show ?thesis
  proof (rule readsI)
    fix r
    have "stops (w2 @ ''}'')" using blank(4) by (cases w2) auto
    then obtain n where n: "parse_members n (join_with (CHR '','' # w) ?items @ w2 @ CHR ''}'' # r) = Some (fs, r)"
      using parse_members_print [OF assms(1) False assms(3) blank(2,3)] by blast
    let ?t = "join_with (CHR '','' # w) ?items @ w2 @ CHR ''}'' # r"
    have hd: "?t \<noteq> []" "hd ?t = CHR 0x22"
      using hd_join_items [of ?items] False by (auto simp: hd_map member_text_def json_quote_def)
    then have "skip_ws (w1 @ ?t) = hd ?t # tl ?t"
      by (intro skip_blank_Cons [OF blank(1)]) (simp_all add: json_ws_def)
    moreover have "hd ?t \<noteq> CHR ''}''" using hd(2) by simp
    moreover have "parse_members n (hd ?t # tl ?t) = Some (fs, r)" using n hd(1) by simp
    ultimately have "parse_value (Suc n) (CHR ''{'' # w1 @ ?t) = Some (js_object fs, r)" by (rule parse_value_object)
    then show "\<exists>n. parse_value n (layout gap ind ''{'' ''}'' ?items @ r) = Some (JObj fs, r)"
      unfolding form assms(2) by auto
  qed (auto simp: form json_ws_def)
qed

lemma json_wf_defined: "json_wf v \<Longrightarrow> v \<noteq> JUndef"
  by auto

lemma reads_print:
  assumes "json_wf v" and "blank gap" and "blank ind"
  shows "reads (json_print gap ind v) v"
  using assms
proof (induction gap ind v rule: json_print.induct)
  case (3 gap ind b)
  have "parse_value 1 (json_print gap ind (JBool b) @ r) = Some (JBool b, r)" for r
    by (simp add: parse_value.simps lit_def)
  then show ?case by (intro readsI) (auto simp: json_ws_def simp del: One_nat_def, blast+)
next
  case (2 gap ind)
  have "parse_value 1 (''null'' @ r) = Some (JNull, r)" for r
    by (simp add: parse_value.simps lit_def)
  then show ?case by (intro readsI) (auto simp: json_ws_def)
next
  case (4 gap ind x)
  then obtain i where x: "x = of_int i" by (metis json_wf.simps(4))
  have c: "hd (int_str i) = CHR ''-'' \<or> is_digit (hd (int_str i))" "int_str i \<noteq> []"
    using nat_str_digits [OF hd_in_set [OF nat_str_nonempty]] by (auto simp: int_str_def)
  then have first: "hd (int_str i) \<notin> {CHR ''{'', CHR ''['', CHR 0x22, CHR ''t'', CHR ''f'', CHR ''n'', CHR '']'', CHR ''}''}"
    "\<not> json_ws (hd (int_str i))"
    by (auto simp: is_digit_def json_ws_def)
  have "parse_value 1 (int_str i @ r) = Some (JNum (Fin (of_int i)), r)" if "stops r" for r
    using json_number_int [OF that, of i] first(1) c(2) by (cases "int_str i") (auto simp: parse_value.simps)
  then show ?case using first c(2) by (intro readsI) (auto simp: x num_str_int)
next
  case (6 gap ind s)
  have "parse_value 1 (json_quote s @ r) = Some (JStr s, r)" for r
    by (simp add: json_quote_def parse_value.simps json_string_quote)
  then show ?case by (intro readsI) (auto simp: json_quote_def json_ws_def)
next
  case (7 gap ind vs)
  then have "list_all2 reads (map (json_print gap (ind @ gap)) vs) vs"
    by (auto simp: list_all2_map1 intro!: list.rel_refl_strong)
  then show ?case using 7(3,4) by (simp add: reads_layout_array)
next
  case (8 gap ind fs)
  let ?sp = "if gap = [] then [] else '' ''"
  let ?ts = "map (\<lambda>(k, v). (k, json_print gap (ind @ gap) v)) fs"
  have "filter (\<lambda>(k, v). v \<noteq> JUndef) fs = fs"
    using 8(2) by (intro filter_True) (auto dest: json_wf_defined)
  then have pr: "json_print gap ind (JObj fs) = layout gap ind ''{'' ''}'' (map (member_text ?sp) ?ts)"
    by (simp add: member_text_def comp_def case_prod_beta')
  have rel: "list_all2 (\<lambda>(k, t) (k', v). k = k' \<and> reads t v) ?ts fs"
    using 8 by (fastforce simp: list_all2_map1 dest: json_wf_defined intro!: list.rel_refl_strong)
  show ?case unfolding pr
    using 8(2-4) by (intro reads_layout_object [OF rel]) (auto simp: json_ws_def)
qed auto

text \<open>A printed value is read back, with or without indentation.\<close>

lemma json_parse_print:
  assumes "json_wf v" and "blank gap"
  shows "json_parse (json_print gap [] v) = Some v"
proof -
  have reads: "reads (json_print gap [] v) v" using assms by (simp add: reads_print)
  then have "skip_ws (json_print gap [] v) = json_print gap [] v" using reads_hd by (simp add: skip_ws_solid)
  moreover have "skip_ws [] = []" by (simp add: skip_ws_def)
  ultimately show ?thesis
    using readsD [OF reads, of "[]" "2 * length (json_print gap [] v)"]
      json_parse_fuel [of "2 * length (json_print gap [] v)" "json_print gap [] v" v "[]"]
    by (simp add: stops_def)
qed

lemma json_parse_stringify: "json_wf v \<Longrightarrow> json_parse (json_stringify v) = Some v"
  by (simp add: json_stringify_def json_parse_print)

lemma json_parse_pretty: "json_wf v \<Longrightarrow> json_parse (json_pretty v) = Some v"
  by (simp add: json_pretty_def json_parse_print json_ws_def)

end
