(* ===== verification/Js_Coerce.thy ===== *)
theory Js_Coerce
  imports Js_Json
begin

text \<open>
  Conversions between dynamic values: \<open>String(v)\<close>, \<open>Number(v)\<close>, the relational operators on
  numbers and \<open>toLowerCase\<close>.  An object converts to \<open>[object Object]\<close>: the objects of the sources
  come from \<open>JSON.parse\<close> or from literals and have the inherited \<open>toString\<close>.  Lower case is that of
  the ASCII letters; the bytes of other characters are kept.
\<close>

section \<open>Strings\<close>

fun js_str :: "jsval \<Rightarrow> string" where
  "js_str JUndef = ''undefined''"
| "js_str JNull = ''null''"
| "js_str (JBool b) = (if b then ''true'' else ''false'')"
| "js_str (JNum (Fin x)) = num_str x"
| "js_str (JNum PosInf) = ''Infinity''"
| "js_str (JNum NegInf) = ''-Infinity''"
| "js_str (JNum NaN) = ''NaN''"
| "js_str (JStr s) = s"
| "js_str (JArr vs) = join_with '','' (map (\<lambda>v. if v = JUndef \<or> v = JNull then [] else js_str v) vs)"
| "js_str (JObj fs) = ''[object Object]''"

definition lower_char :: "char \<Rightarrow> char" where
  "lower_char c = (if 65 \<le> (of_char c :: nat) \<and> (of_char c :: nat) \<le> 90 then char_of (of_char c + 32 :: nat) else c)"

definition js_lower :: "string \<Rightarrow> string" where
  "js_lower s = map lower_char s"

lemma lower_char_idem [simp]: "lower_char (lower_char c) = lower_char c"
  by (auto simp: lower_char_def)

lemma js_lower_idem [simp]: "js_lower (js_lower s) = js_lower s"
  by (simp add: js_lower_def)

text \<open>\<open>s.includes(t)\<close>.\<close>

fun js_includes :: "string \<Rightarrow> string \<Rightarrow> bool" where
  "js_includes t [] = (t = [])"
| "js_includes t (c # s) = (prefix t (c # s) \<or> js_includes t s)"

lemma js_includes_sublist: "js_includes t s \<longleftrightarrow> sublist t s"
  by (induction t s rule: js_includes.induct) (auto simp: sublist_Cons_right)

section \<open>Numbers\<close>

definition digits_in_base :: "nat \<Rightarrow> string \<Rightarrow> jsnum" where
  "digits_in_base b s =
     (if s = [] \<or> (\<exists>c \<in> set s. case hex_digit c of None \<Rightarrow> True | Some d \<Rightarrow> b \<le> d) then NaN
      else Fin (of_nat (foldl (\<lambda>n c. n * b + (case hex_digit c of None \<Rightarrow> 0 | Some d \<Rightarrow> d)) 0 s)))"

definition js_decimal :: "string \<Rightarrow> jsnum" where
  "js_decimal s =
     (let (ds, r) = span_digits s in
      if r \<noteq> [] \<and> hd r = CHR ''.'' then
        (let (fs, r2) = span_digits (tl r); (e, r3) = exp_part r2 in
         if (ds = [] \<and> fs = []) \<or> r3 \<noteq> [] then NaN else Fin (dec_value ds fs e))
      else
        (let (e, r3) = exp_part r in
         if ds = [] \<or> r3 \<noteq> [] then NaN else Fin (dec_value ds [] e)))"

fun num_neg :: "jsnum \<Rightarrow> jsnum" where
  "num_neg (Fin x) = Fin (- x)"
| "num_neg PosInf = NegInf"
| "num_neg NegInf = PosInf"
| "num_neg NaN = NaN"

definition js_unsigned :: "string \<Rightarrow> jsnum" where
  "js_unsigned s = (if s = ''Infinity'' then PosInf else js_decimal s)"

definition string_to_number :: "string \<Rightarrow> jsnum" where
  "string_to_number s =
     (let t = js_trim s in
      if t = [] then Fin 0
      else if prefix ''0x'' t \<or> prefix ''0X'' t then digits_in_base 16 (drop 2 t)
      else if prefix ''0o'' t \<or> prefix ''0O'' t then digits_in_base 8 (drop 2 t)
      else if prefix ''0b'' t \<or> prefix ''0B'' t then digits_in_base 2 (drop 2 t)
      else if hd t = CHR ''-'' then num_neg (js_unsigned (tl t))
      else if hd t = CHR ''+'' then js_unsigned (tl t)
      else js_unsigned t)"

fun js_number :: "jsval \<Rightarrow> jsnum" where
  "js_number JUndef = NaN"
| "js_number JNull = Fin 0"
| "js_number (JBool b) = Fin (if b then 1 else 0)"
| "js_number (JNum n) = n"
| "js_number (JStr s) = string_to_number s"
| "js_number (JArr vs) = string_to_number (js_str (JArr vs))"
| "js_number (JObj fs) = NaN"

text \<open>\<open>a < b\<close> and \<open>a <= b\<close> on numbers: false when one of them is \<open>NaN\<close>.\<close>

fun num_less :: "jsnum \<Rightarrow> jsnum \<Rightarrow> bool" where
  "num_less (Fin x) (Fin y) = (x < y)"
| "num_less NegInf (Fin y) = True"
| "num_less (Fin x) PosInf = True"
| "num_less NegInf PosInf = True"
| "num_less _ _ = False"

fun num_le :: "jsnum \<Rightarrow> jsnum \<Rightarrow> bool" where
  "num_le (Fin x) (Fin y) = (x \<le> y)"
| "num_le NegInf b = (b \<noteq> NaN)"
| "num_le a PosInf = (a \<noteq> NaN)"
| "num_le _ _ = False"

lemma digits_span: "\<forall>c \<in> set ds. is_digit c \<Longrightarrow> span_digits ds = (ds, [])"
  by (simp add: span_digits_def)

lemma exp_part_Nil [simp]: "exp_part [] = (0, [])"
  by (simp add: exp_part_def)

lemma js_decimal_digits: "ds \<noteq> [] \<Longrightarrow> \<forall>c \<in> set ds. is_digit c \<Longrightarrow> js_decimal ds = Fin (of_nat (digits_val ds))"
  by (simp add: js_decimal_def digits_span dec_value_def digits_val_def)

text \<open>\<open>Number\<close> reads the numeral of a natural number back.\<close>

lemma js_trim_digits: "\<forall>c \<in> set s. is_digit c \<Longrightarrow> js_trim s = s"
  by (cases "s = []") (auto intro!: js_trim_solid is_digit_solid)

lemma string_to_number_digits:
  assumes "s \<noteq> []" and digits: "\<forall>c \<in> set s. is_digit c"
  shows "string_to_number s = Fin (of_nat (digits_val s))"
proof -
  have "hd s \<noteq> CHR ''-''" "hd s \<noteq> CHR ''+''" "s \<noteq> ''Infinity''"
    using digits bspec [OF digits hd_in_set [OF assms(1)]] by (auto simp: is_digit_def)
  moreover have "\<not> prefix [CHR ''0'', c] s" if "\<not> is_digit c" for c
    using that digits by (auto simp: prefix_def)
  ultimately show ?thesis
    using assms by (simp add: string_to_number_def js_trim_digits js_unsigned_def js_decimal_digits is_digit_def)
qed

lemma string_to_number_nat_str [simp]: "string_to_number (nat_str n) = Fin (of_nat n)"
  using nat_str_digits by (simp add: string_to_number_digits)

section \<open>Objects with plain keys\<close>

text \<open>A key that does not start with a digit is no array index; an object with such keys keeps their order.\<close>

lemma not_array_index: "\<not> is_digit (hd k) \<Longrightarrow> \<not> is_array_index k"
  unfolding is_array_index_def by (metis hd_in_set nat_str_digits nat_str_nonempty)

lemma om_set_new: "k \<notin> fst ` set m \<Longrightarrow> om_set k v m = m @ [(k, v)]"
  by (induction k v m rule: om_set.induct) auto

lemma fold_om_set_distinct:
  "distinct (map fst (acc @ fs)) \<Longrightarrow> fold (\<lambda>(k, v) m. om_set k v m) fs acc = acc @ fs"
proof (induction fs arbitrary: acc)
  case (Cons e fs)
  obtain k v where e: "e = (k, v)" by (cases e)
  have "k \<notin> fst ` set acc" using Cons(2) by (auto simp: e)
  then show ?case using Cons(1) [of "acc @ [(k, v)]"] Cons(2) by (simp add: e om_set_new)
qed simp

lemma js_object_plain:
  assumes "distinct (map fst fs)" and "\<forall>(k, _) \<in> set fs. \<not> is_digit (hd k)"
  shows "js_object fs = JObj fs"
proof -
  have "filter (\<lambda>(k, _). is_array_index k) fs = []" "filter (\<lambda>(k, _). \<not> is_array_index k) fs = fs"
    using assms(2) not_array_index by (auto simp: filter_empty_conv intro!: filter_True)
  then show ?thesis using fold_om_set_distinct [of "[]" fs] assms(1) by (simp add: js_object_def)
qed

lemma json_wf_jprop: "json_wf v \<Longrightarrow> jprop v k = JUndef \<or> json_wf (jprop v k)"
  by (cases v) (auto split: option.split dest!: map_of_SomeD)

text \<open>The order of the keys of an object, and that setting a plain key or deleting a key keeps it.\<close>

definition index_before :: "string \<Rightarrow> string \<Rightarrow> bool" where
  "index_before a b \<longleftrightarrow> (is_array_index b \<longrightarrow> is_array_index a \<and> digits_val a \<le> digits_val b)"

definition key_order :: "string list \<Rightarrow> bool" where
  "key_order ks \<longleftrightarrow> distinct ks \<and> sorted_wrt index_before ks"

interpretation index_order: signed_comparator "by_key (\<lambda>(k :: string, _ :: jsval). digits_val k)"
  by (rule signed_comparator_by_key)

lemma key_order_snoc: "key_order ks \<Longrightarrow> k \<notin> set ks \<Longrightarrow> \<not> is_array_index k \<Longrightarrow> key_order (ks @ [k])"
  by (auto simp: key_order_def sorted_wrt_append index_before_def)

lemma key_order_filter: "key_order ks \<Longrightarrow> key_order (filter P ks)"
  by (simp add: key_order_def sorted_wrt_filter)

lemma index_partition:
  "sorted_wrt index_before (map fst fs) \<Longrightarrow>
   fs = filter (\<lambda>(k, _). is_array_index k) fs @ filter (\<lambda>(k, _). \<not> is_array_index k) fs"
proof (induction fs)
  case (Cons e fs)
  show ?case
  proof (cases "is_array_index (fst e)")
    case False
    with Cons.prems have "\<not> is_array_index k" if "(k, v) \<in> set fs" for k v
      using that by (force simp: index_before_def)
    then have "filter (\<lambda>(k, _). is_array_index k) fs = []" "filter (\<lambda>(k, _). \<not> is_array_index k) fs = fs"
      by (auto simp: filter_empty_conv intro!: filter_True)
    then show ?thesis using False by (simp add: case_prod_beta')
  qed (use Cons in \<open>auto simp: case_prod_beta'\<close>)
qed simp

lemma distinct_fold_om_set:
  "distinct (map fst acc) \<Longrightarrow> distinct (map fst (fold (\<lambda>(k, v) m. om_set k v m) gs acc))"
proof (induction gs arbitrary: acc)
  case (Cons g gs)
  then show ?case
    using distinct_om_set [of acc "fst g" "snd g"] by (simp add: om_keys_def case_prod_beta')
qed simp

lemma js_object_iff: "js_object fs = JObj fs \<longleftrightarrow> key_order (map fst fs)"
proof
  let ?cmp = "by_key (\<lambda>(k :: string, _ :: jsval). digits_val k)"
  assume L: "js_object fs = JObj fs"
  define m where "m = fold (\<lambda>(k, v) m. om_set k v m) fs []"
  define A where "A = js_sort ?cmp (filter (\<lambda>(k, _). is_array_index k) m)"
  define B where "B = filter (\<lambda>(k, _). \<not> is_array_index k) m"
  have fs: "fs = A @ B" using L by (simp add: js_object_def m_def A_def B_def Let_def)
  have dm: "distinct (map fst m)" by (simp add: m_def distinct_fold_om_set)
  have A: "\<forall>x \<in> set A. is_array_index (fst x)" "distinct (map fst A)"
    using dm by (auto simp: A_def distinct_map_filter)
  have B: "\<forall>x \<in> set B. \<not> is_array_index (fst x)" "distinct (map fst B)"
    using dm by (auto simp: B_def distinct_map_filter)
  have "sorted_wrt (\<lambda>x y. ?cmp x y \<le> 0) A" unfolding A_def by (rule index_order.sorted_js_sort)
  then have "sorted_wrt (\<lambda>x y. index_before (fst x) (fst y)) A"
    by (rule sorted_wrt_mono_rel [rotated]) (use A(1) in \<open>auto simp: index_before_def by_key_def case_prod_beta'\<close>)
  moreover have "sorted_wrt (\<lambda>x y. index_before (fst x) (fst y)) B"
    by (rule sorted_wrt_mono_rel [of B "\<lambda>_ _. True"]) (use B(1) in \<open>auto simp: index_before_def\<close>)
  ultimately show "key_order (map fst fs)"
    using A B unfolding key_order_def fs by (fastforce simp: sorted_wrt_append sorted_wrt_map index_before_def)
next
  let ?cmp = "by_key (\<lambda>(k :: string, _ :: jsval). digits_val k)"
  assume R: "key_order (map fst fs)"
  then have "fold (\<lambda>(k, v) m. om_set k v m) fs [] = fs"
    using fold_om_set_distinct [of "[]" fs] by (simp add: key_order_def)
  moreover have "sorted_wrt (\<lambda>x y. index_before (fst x) (fst y)) (filter (\<lambda>(k, _). is_array_index k) fs)"
    using R by (simp add: key_order_def sorted_wrt_map sorted_wrt_filter)
  then have "sorted_wrt (\<lambda>x y. ?cmp x y \<le> 0) (filter (\<lambda>(k, _). is_array_index k) fs)"
    by (rule sorted_wrt_mono_rel [rotated]) (auto simp: index_before_def by_key_def)
  then have "js_sort ?cmp (filter (\<lambda>(k, _). is_array_index k) fs) = filter (\<lambda>(k, _). is_array_index k) fs"
    by (rule index_order.js_sort_sorted)
  moreover have "fs = filter (\<lambda>(k, _). is_array_index k) fs @ filter (\<lambda>(k, _). \<not> is_array_index k) fs"
    using R by (intro index_partition) (simp add: key_order_def)
  ultimately show "js_object fs = JObj fs" by (simp add: js_object_def)
qed

end
