(* ===== verification/Model_Mapping.thy ===== *)
theory Model_Mapping
  imports Js_Coerce
begin

text \<open>
  The model list and the model mapping of a channel: \<open>channels/lib/model-mapping-validation.ts\<close>,
  the guard rail of \<open>channel-mutate-drawer.tsx\<close> and the selection of \<open>fetch-models-dialog.tsx\<close>.
  The mapping is the text of a JSON object from the models clients ask for (the sources) to the
  models of the upstream (the targets); the list is a comma-separated text.
\<close>

section \<open>The library\<close>

definition parseModelsString :: "string \<Rightarrow> string list" where
  "parseModelsString modelsStr =
     (if modelsStr \<noteq> [] then filter (\<lambda>m. m \<noteq> []) (map js_trim (split_on (CHR '','') modelsStr)) else [])"

definition formatModelsArray :: "string list \<Rightarrow> string" where
  "formatModelsArray models = join_with '','' (os_of models)"

definition normalizeModelName :: "string \<Rightarrow> string" where
  "normalizeModelName model = js_trim model"

text \<open>The fields of a parsed object; everything else the sources treat alike.\<close>

fun object_fields :: "jsval option \<Rightarrow> (string \<times> jsval) list option" where
  "object_fields (Some (JObj fs)) = Some fs"
| "object_fields _ = None"

definition extractMappingSourceModels :: "string \<Rightarrow> string list" where
  "extractMappingSourceModels modelMapping =
     (let trimmed = js_trim modelMapping in
      if trimmed = [] then []
      else
        (case object_fields (json_parse trimmed) of
           None \<Rightarrow> []
         | Some fs \<Rightarrow> os_of (filter (\<lambda>key. key \<noteq> []) (map (\<lambda>(key, _). js_trim key) fs))))"

fun target_name :: "jsval \<Rightarrow> string option" where
  "target_name (JStr v) = Some (js_trim v)"
| "target_name _ = None"

definition extractRedirectModels :: "string \<Rightarrow> string list" where
  "extractRedirectModels modelMapping =
     (let trimmed = js_trim modelMapping in
      if trimmed = [] then []
      else
        (case object_fields (json_parse trimmed) of
           None \<Rightarrow> []
         | Some fs \<Rightarrow> os_of (filter (\<lambda>value. value \<noteq> []) (List.map_filter (\<lambda>(_, value). target_name value) fs))))"

definition hasModelConfigChanged :: "string list \<Rightarrow> string \<Rightarrow> string list \<Rightarrow> string \<Rightarrow> bool" where
  "hasModelConfigChanged currentModels currentModelMapping initialModels initialModelMapping =
     (if length initialModels = 0 \<and> initialModelMapping = [] then True
      else if length currentModels \<noteq> length initialModels then True
      else if list_ex (\<lambda>i. currentModels ! i \<noteq> initialModels ! i) [0..<length currentModels] then True
      else js_trim currentModelMapping \<noteq> js_trim initialModelMapping)"

definition findMissingModelsInMapping :: "string \<Rightarrow> string list \<Rightarrow> string list" where
  "findMissingModelsInMapping modelMapping currentModels =
     (if modelMapping = [] \<or> js_trim modelMapping = [] then []
      else
        (case object_fields (json_parse modelMapping) of
           None \<Rightarrow> []
         | Some fs \<Rightarrow>
             (let modelSet = os_of (map normalizeModelName currentModels);
                  missingModels = filter (\<lambda>key. key \<noteq> [] \<and> key \<notin> set modelSet)
                    (map (\<lambda>(key, _). normalizeModelName key) fs) in
              os_of missingModels)))"

datatype MappingValidation = MappingValid | MappingError string

definition validateModelMappingJson :: "string \<Rightarrow> MappingValidation" where
  "validateModelMappingJson modelMapping =
     (if modelMapping = [] \<or> js_trim modelMapping = [] then MappingValid
      else
        (case json_parse modelMapping of
           None \<Rightarrow> MappingError ''Model mapping must be valid JSON format''
         | Some parsed \<Rightarrow>
             (case object_fields (Some parsed) of
                None \<Rightarrow> MappingError ''Model mapping must be a valid JSON object''
              | Some fs \<Rightarrow>
                  if list_ex (\<lambda>(_, value). \<not> is_string value) fs
                  then MappingError ''Model mapping values must be strings''
                  else MappingValid)))"

definition findExposedTargetModels :: "string \<Rightarrow> string list \<Rightarrow> string list" where
  "findExposedTargetModels modelMapping currentModels =
     (let redirectModels = extractRedirectModels modelMapping in
      if redirectModels = [] then []
      else
        (let modelSet = os_of (map normalizeModelName currentModels) in
         filter (\<lambda>model. normalizeModelName model \<in> set modelSet) redirectModels))"

record ModelCategories =
  normalizedCurrentModels :: "string list"
  normalizedRedirectModels :: "string list"
  classificationSet :: "string list"
  redirectOnlySet :: "string list"

definition categorizeModelsWithRedirect :: "string list \<Rightarrow> string list \<Rightarrow> ModelCategories" where
  "categorizeModelsWithRedirect currentModels redirectModels =
     (let current = os_of (filter (\<lambda>m. m \<noteq> []) (map normalizeModelName currentModels));
          redirect = os_of (filter (\<lambda>m. m \<noteq> []) (map normalizeModelName redirectModels)) in
      \<lparr>normalizedCurrentModels = current, normalizedRedirectModels = redirect,
       classificationSet = os_of (current @ redirect),
       redirectOnlySet = os_of (filter (\<lambda>m. m \<notin> set current) redirect)\<rparr>)"

section \<open>The guard rail of the editor\<close>

record ModelMappingGuardrail =
  invalidJson :: bool
  guardEntries :: "(string \<times> string) list"
  missingSourceModels :: "string list"
  exposedTargetModels :: "string list"

definition createEmptyModelMappingGuardrail :: ModelMappingGuardrail where
  "createEmptyModelMappingGuardrail =
     \<lparr>invalidJson = False, guardEntries = [], missingSourceModels = [], exposedTargetModels = []\<rparr>"

definition guardrailEntries :: "(string \<times> jsval) list \<Rightarrow> (string \<times> string) list" where
  "guardrailEntries fs =
     foldl (\<lambda>acc (rawSource, rawTarget).
       let source = js_trim rawSource;
           tgt = js_trim (js_str (if rawTarget = JNull \<or> rawTarget = JUndef then JStr [] else rawTarget)) in
       if source = [] \<or> tgt = [] then acc else acc @ [(source, tgt)]) [] fs"

definition modelMappingGuardrail :: "string option \<Rightarrow> string list \<Rightarrow> ModelMappingGuardrail" where
  "modelMappingGuardrail currentModelMapping currentModelsArray =
     (case currentModelMapping of
        None \<Rightarrow> createEmptyModelMappingGuardrail
      | Some mapping \<Rightarrow>
          if js_trim mapping = [] then createEmptyModelMappingGuardrail
          else
            (case object_fields (json_parse mapping) of
               None \<Rightarrow> createEmptyModelMappingGuardrail\<lparr>invalidJson := True\<rparr>
             | Some fs \<Rightarrow>
                 (let entries = guardrailEntries fs in
                  \<lparr>invalidJson = False, guardEntries = entries,
                   missingSourceModels =
                     os_of (map fst (filter (\<lambda>(source, _). source \<noteq> [] \<and> source \<notin> set currentModelsArray) entries)),
                   exposedTargetModels =
                     os_of (map snd (filter (\<lambda>(_, tgt). tgt \<noteq> [] \<and> tgt \<in> set currentModelsArray) entries))\<rparr>)))"

text \<open>The first three entries, or a sample, and how many are not shown.\<close>

definition mappingPreviewPairs :: "ModelMappingGuardrail \<Rightarrow> (string \<times> string) list" where
  "mappingPreviewPairs g =
     (if 0 < length (guardEntries g) then take 3 (guardEntries g) else [(''client-model'', ''upstream-model'')])"

definition remainingMappingCount :: "ModelMappingGuardrail \<Rightarrow> nat" where
  "remainingMappingCount g = (if 3 < length (guardEntries g) then length (guardEntries g) - 3 else 0)"

section \<open>The dialog that fetches the models of the upstream\<close>

definition normalizeModelNameList :: "string list \<Rightarrow> string list" where
  "normalizeModelNameList models = os_of (filter (\<lambda>m. m \<noteq> []) (map normalizeModelName models))"

definition removedModels :: "string list \<Rightarrow> string list \<Rightarrow> string \<Rightarrow> string list \<Rightarrow> string list" where
  "removedModels fetchedModels redirectSourceModels searchKeyword selectedModels =
     (let kw = js_trim (js_lower searchKeyword);
          fetchedModelSet = normalizeModelNameList fetchedModels;
          redirectSourceKeysSet = normalizeModelNameList redirectSourceModels in
      filter (\<lambda>model.
          if model \<in> set fetchedModelSet then False
          else if model \<in> set redirectSourceKeysSet then False
          else if kw = [] then True
          else js_includes kw (js_lower model))
        (normalizeModelNameList selectedModels))"

definition filteredModels :: "string list \<Rightarrow> string \<Rightarrow> string list" where
  "filteredModels fetchedModels searchKeyword =
     (if searchKeyword = [] then fetchedModels
      else filter (\<lambda>model. js_includes (js_lower searchKeyword) (js_lower model)) fetchedModels)"

definition splitByClassification :: "string list \<Rightarrow> string list \<Rightarrow> string list \<times> string list" where
  "splitByClassification classification models =
     foldl (\<lambda>(newModels, existingFilteredModels) model.
       if normalizeModelName model \<in> set classification
       then (newModels, existingFilteredModels @ [model])
       else (newModels @ [model], existingFilteredModels)) ([], []) models"

definition toggleModel :: "string list \<Rightarrow> string \<Rightarrow> string list" where
  "toggleModel prev model = (if model \<in> set prev then filter (\<lambda>m. m \<noteq> model) prev else prev @ [model])"

definition toggleCategory :: "string list \<Rightarrow> string list \<Rightarrow> bool \<Rightarrow> string list" where
  "toggleCategory prev categoryModels isChecked =
     (if isChecked
      then foldl (\<lambda>newSelected model. if model \<notin> set newSelected then newSelected @ [model] else newSelected)
        prev categoryModels
      else filter (\<lambda>m. m \<notin> set categoryModels) prev)"

definition isCategorySelected :: "string list \<Rightarrow> string list \<Rightarrow> bool" where
  "isCategorySelected selectedModels categoryModels = list_all (\<lambda>m. m \<in> set selectedModels) categoryModels"

section \<open>Model lists\<close>

text \<open>A clean name survives being written into the list and read back.\<close>

definition cleanName :: "string \<Rightarrow> bool" where
  "cleanName m \<longleftrightarrow> m \<noteq> [] \<and> js_trim m = m \<and> CHR '','' \<notin> set m"

lemma set_js_trim: "set (js_trim s) \<subseteq> set s"
proof -
  have "suffix (trim_start t) t" for t
    by (induction t rule: trim_start.induct)
      (subst trim_start.simps, auto split: option.split dest: suffix_order.trans intro: suffix_drop)
  then have "set (trim_start s) \<subseteq> set s" by (rule set_mono_suffix)
  moreover have "set (js_trim s) \<subseteq> set (trim_start s)"
    unfolding js_trim_def by (rule set_mono_prefix [OF prefix_trim_end])
  ultimately show ?thesis by blast
qed

lemma parseModelsString_clean: "m \<in> set (parseModelsString s) \<Longrightarrow> cleanName m"
  using split_on_pieces set_js_trim by (auto simp: parseModelsString_def cleanName_def split: if_splits) blast

lemma parseModelsString_join:
  assumes "\<forall>m \<in> set ms. cleanName m"
  shows "parseModelsString (join_with '','' ms) = ms"
proof (cases "ms = []")
  case False
  then have "split_on (CHR '','') (join_with '','' ms) = ms"
    using assms by (intro split_on_join) (auto simp: cleanName_def)
  moreover have "join_with '','' ms \<noteq> []"
    using False assms by (subst join_with_eq_Nil) (auto simp: cleanName_def)
  moreover have "filter (\<lambda>m. m \<noteq> []) (map js_trim ms) = ms"
    using assms by (induction ms) (auto simp: cleanName_def)
  ultimately show ?thesis by (simp add: parseModelsString_def)
qed (simp add: parseModelsString_def)

lemma parse_formatModelsArray:
  "\<forall>m \<in> set ms. cleanName m \<Longrightarrow> parseModelsString (formatModelsArray ms) = os_of ms"
  by (simp add: formatModelsArray_def parseModelsString_join)

text \<open>
  The model list of a channel survives being written and read back: reading a text, writing the
  models and reading again gives the models of the first reading without repetitions, and a text
  written from a reading is a fixed point.
\<close>

theorem model_list_roundtrip:
  "parseModelsString (formatModelsArray (parseModelsString s)) = os_of (parseModelsString s) \<and>
   formatModelsArray (parseModelsString (formatModelsArray (parseModelsString s))) =
     formatModelsArray (parseModelsString s)"
  using parseModelsString_clean by (simp add: parse_formatModelsArray) (simp add: formatModelsArray_def)


section \<open>Mappings\<close>

lemma object_fields_SomeD: "object_fields r = Some fs \<Longrightarrow> r = Some (JObj fs)"
  by (cases r rule: object_fields.cases) auto

lemma validateModelMappingJson_valid:
  "validateModelMappingJson m = MappingValid \<longleftrightarrow>
     js_trim m = [] \<or> (\<exists>fs. json_parse m = Some (JObj fs) \<and> (\<forall>(_, v) \<in> set fs. is_string v))"
proof (cases "json_parse m")
  case (Some v)
  then show ?thesis by (cases v) (auto simp: validateModelMappingJson_def list_ex_iff)
qed (auto simp: validateModelMappingJson_def)

lemma findMissing_fields:
  assumes "js_trim m \<noteq> []" and "object_fields (json_parse m) = Some fs"
  shows "findMissingModelsInMapping m cur =
    os_of (filter (\<lambda>k. k \<noteq> [] \<and> k \<notin> normalizeModelName ` set cur) (map (\<lambda>(k, _). normalizeModelName k) fs))"
  using assms by (auto simp: findMissingModelsInMapping_def Let_def)

lemma findMissing_blank: "js_trim m = [] \<Longrightarrow> findMissingModelsInMapping m cur = []"
  by (simp add: findMissingModelsInMapping_def)

lemma findMissing_no_object: "object_fields (json_parse m) = None \<Longrightarrow> findMissingModelsInMapping m cur = []"
  by (simp add: findMissingModelsInMapping_def)

lemma findMissing_cases:
  obtains "\<And>cur. findMissingModelsInMapping m cur = []"
  | fs where "js_trim m \<noteq> []" and "object_fields (json_parse m) = Some fs"
  using findMissing_blank findMissing_no_object by (metis not_None_eq)

lemma findMissing_names:
  assumes "k \<in> set (findMissingModelsInMapping m cur)"
  shows "k \<noteq> []" and "js_trim k = k" and "k \<notin> normalizeModelName ` set cur"
proof -
  show "k \<noteq> []" "js_trim k = k" "k \<notin> normalizeModelName ` set cur"
    using assms by (cases rule: findMissing_cases [of m]; auto simp: findMissing_fields normalizeModelName_def)+
qed

lemma findMissing_mono:
  assumes "normalizeModelName ` set cur \<union> set (findMissingModelsInMapping m cur) \<subseteq> normalizeModelName ` set new"
  shows "findMissingModelsInMapping m new = []"
proof (cases rule: findMissing_cases [of m])
  case (2 fs)
  have False if "k \<in> set (findMissingModelsInMapping m new)" for k
  proof -
    have "k \<in> set (findMissingModelsInMapping m cur)"
      using that assms 2 by (auto simp: findMissing_fields)
    then show False using assms findMissing_names(3) [OF that] by blast
  qed
  then show ?thesis by (cases "findMissingModelsInMapping m new") auto
qed

text \<open>The guard rail warns of a subset of the sources that are missing.\<close>

lemma guardrailEntries_trimmed:
  "(a, b) \<in> set (guardrailEntries fs) \<Longrightarrow> a \<noteq> [] \<and> b \<noteq> [] \<and> a \<in> (\<lambda>(k, _). js_trim k) ` set fs"
  unfolding guardrailEntries_def
  by (induction fs rule: rev_induct) (auto simp: Let_def split: if_splits prod.splits)

lemma guardrail_missing:
  assumes "\<forall>c \<in> set cur. js_trim c = c"
  shows "set (missingSourceModels (modelMappingGuardrail (Some m) cur)) \<subseteq> set (findMissingModelsInMapping m cur)"
proof (cases "js_trim m = [] \<or> object_fields (json_parse m) = None")
  case False
  then obtain fs where fs: "js_trim m \<noteq> []" "object_fields (json_parse m) = Some fs" by blast
  have im: "normalizeModelName ` set cur = set cur" using assms by (auto simp: normalizeModelName_def image_iff)
  show ?thesis
    using fs guardrailEntries_trimmed [of _ _ fs] unfolding findMissing_fields [OF fs] im
    by (auto simp: modelMappingGuardrail_def Let_def normalizeModelName_def)
qed (auto simp: modelMappingGuardrail_def createEmptyModelMappingGuardrail_def)

section \<open>Categories and tabs\<close>

lemma foldl_os_add_filter: "foldl os_add ys xs = ys @ filter (\<lambda>x. x \<notin> set ys) (os_of xs)" if "distinct xs"
  using that by (induction xs arbitrary: ys) (auto simp: os_add_def intro!: filter_cong)

lemma splitByClassification_eq:
  "splitByClassification cs ms =
     (filter (\<lambda>m. normalizeModelName m \<notin> set cs) ms, filter (\<lambda>m. normalizeModelName m \<in> set cs) ms)"
  unfolding splitByClassification_def by (induction ms rule: rev_induct) auto

lemma classificationSet_eq:
  "classificationSet (categorizeModelsWithRedirect cur red) =
     normalizedCurrentModels (categorizeModelsWithRedirect cur red) @
     redirectOnlySet (categorizeModelsWithRedirect cur red)"
  by (simp add: categorizeModelsWithRedirect_def Let_def os_of_def [of "os_of _ @ os_of _"] foldl_os_add_distinct
      foldl_os_add_filter)

lemma set_classificationSet:
  "set (classificationSet (categorizeModelsWithRedirect cur red)) =
     normalizeModelName ` (set cur \<union> set red) - {[]}"
  by (auto simp: categorizeModelsWithRedirect_def Let_def)

text \<open>
  The dialog that fetches models files every model under exactly one tab.  The classification is
  the models of the channel followed by the redirect targets it lacks, without repetitions; a fetched
  model is new exactly when its trimmed name is blank or in neither list; and without a keyword the
  removed models are the selected ones that were neither fetched nor are sources of the mapping.
\<close>

theorem model_categories:
  "let c = categorizeModelsWithRedirect cur red in
     classificationSet c = normalizedCurrentModels c @ redirectOnlySet c \<and>
     distinct (classificationSet c) \<and>
     set (classificationSet c) = normalizeModelName ` (set cur \<union> set red) - {[]} \<and>
     (case splitByClassification (classificationSet c) (filteredModels fetched kw) of
        (new, old) \<Rightarrow>
          mset new + mset old = mset (filteredModels fetched kw) \<and>
          new = filter (\<lambda>m. js_trim m \<notin> js_trim ` (set cur \<union> set red) - {[]}) (filteredModels fetched kw)) \<and>
     set (removedModels fetched sources [] selected) =
       normalizeModelName ` set selected - {[]} - normalizeModelName ` set fetched - normalizeModelName ` set sources"
proof -
  let ?c = "categorizeModelsWithRedirect cur red"
  have "distinct (classificationSet ?c)"
    by (simp add: categorizeModelsWithRedirect_def Let_def)
  moreover have "set (removedModels fetched sources [] selected) =
       normalizeModelName ` set selected - {[]} - normalizeModelName ` set fetched - normalizeModelName ` set sources"
    by (auto simp: removedModels_def normalizeModelNameList_def Let_def js_lower_def)
  moreover have "(js_trim m \<notin> set (classificationSet ?c)) = (js_trim m \<notin> js_trim ` (set cur \<union> set red) - {[]})" for m
    by (simp add: set_classificationSet normalizeModelName_def)
  ultimately show ?thesis
    unfolding Let_def
    by (simp add: classificationSet_eq [symmetric] set_classificationSet splitByClassification_eq normalizeModelName_def
        flip: mset_append) (simp add: multiset_partition)
qed

lemma foldl_os_add_extends: "\<exists>xs. foldl os_add sel cat = sel @ xs \<and> set xs \<subseteq> set cat"
proof (induction cat arbitrary: sel)
  case (Cons c cat)
  show ?case using Cons [of "os_add sel c"] by (auto simp: os_add_def split: if_splits)
qed simp

lemma toggle_on: "foldl (\<lambda>xs m. if m \<notin> set xs then xs @ [m] else xs) prev ms = foldl os_add prev ms"
  by (induction ms arbitrary: prev) (auto simp: os_add_def)

text \<open>
  Checking a category selects all of it and keeps the selection and its order; unchecking it
  afterwards leaves the selection without the models of the category; toggling a model twice keeps
  the selected set.
\<close>

theorem fetch_selection:
  "isCategorySelected (toggleCategory sel cat True) cat \<and>
   set (toggleCategory sel cat True) = set sel \<union> set cat \<and>
   take (length sel) (toggleCategory sel cat True) = sel \<and>
   toggleCategory (toggleCategory sel cat True) cat False = filter (\<lambda>m. m \<notin> set cat) sel \<and>
   set (toggleModel (toggleModel sel m) m) = set sel"
proof -
  have on: "toggleCategory sel cat True = foldl os_add sel cat"
    by (simp add: toggleCategory_def toggle_on)
  obtain xs where xs: "foldl os_add sel cat = sel @ xs" "set xs \<subseteq> set cat"
    using foldl_os_add_extends [of sel cat] by auto
  then have none: "filter (\<lambda>m. m \<notin> set cat) xs = []" by (auto simp: filter_empty_conv)
  show ?thesis
  proof (intro conjI)
    show "isCategorySelected (toggleCategory sel cat True) cat"
      by (simp add: on isCategorySelected_def list_all_iff)
    show "set (toggleCategory sel cat True) = set sel \<union> set cat" by (simp add: on)
    show "take (length sel) (toggleCategory sel cat True) = sel" by (simp add: on xs(1))
    show "toggleCategory (toggleCategory sel cat True) cat False = filter (\<lambda>m. m \<notin> set cat) sel"
      by (simp add: on xs(1) none toggleCategory_def [of _ _ False])
    show "set (toggleModel (toggleModel sel m) m) = set sel"
      by (auto simp: toggleModel_def)
  qed
qed

end
