(* ===== verification/Advanced_Custom.thy ===== *)
theory Advanced_Custom
  imports Js_Coerce "HOL-Library.Monad_Syntax"
begin

text \<open>
  The routes of an advanced custom channel: \<open>channels/lib/advanced-custom.ts\<close>.  A configuration is
  read from JSON without a check of its types, so the functions that meet it first take a \<open>jsval\<close> and
  return \<open>None\<close> where JavaScript throws a \<open>TypeError\<close> (a property of \<open>null\<close>, \<open>trim\<close> of a number); the
  records hold a normalised configuration, whose untyped fields are still \<open>jsval\<close>.  \<open>new URL(s)\<close> is
  not under the sources: the functions that use it take it as an argument, which returns the host
  and the protocol or throws.
\<close>

section \<open>Data\<close>

record AdvancedCustomRouteAuth =
  authType :: jsval
  authName :: jsval
  authValue :: jsval

record AdvancedCustomRoute =
  incoming_path :: jsval
  upstream_path :: string
  converter :: jsval
  models :: "string list option"
  auth :: "AdvancedCustomRouteAuth option"

record AdvancedCustomConfig =
  advanced_routes :: "AdvancedCustomRoute list"

type_synonym url_parser = "string \<Rightarrow> (string \<times> string) option"

definition CHANNEL_TYPE_ADVANCED_CUSTOM :: nat where
  "CHANNEL_TYPE_ADVANCED_CUSTOM = 58"

definition ADVANCED_CUSTOM_MODEL_LIST_PATH :: string where
  "ADVANCED_CUSTOM_MODEL_LIST_PATH = ''/v1/models''"

definition ADVANCED_CUSTOM_MODEL_LIST_LABEL :: string where
  "ADVANCED_CUSTOM_MODEL_LIST_LABEL = ''OpenAI Models''"

record ConverterOption =
  optValue :: string
  optLabel :: string
  optTriggerLabel :: string

definition ADVANCED_CUSTOM_CONVERTER_OPTIONS :: "ConverterOption list" where
  "ADVANCED_CUSTOM_CONVERTER_OPTIONS =
     map (\<lambda>(v, l, t). \<lparr>optValue = v, optLabel = l, optTriggerLabel = t\<rparr>)
     [(''none'', ''Native forwarding'', ''Native forwarding''),
      (''anthropic_messages_to_openai_chat_completions'', ''Anthropic Messages to OpenAI Chat'', ''To OpenAI Chat''),
      (''openai_chat_completions_to_anthropic_messages'', ''OpenAI Chat to Anthropic Messages'', ''To Anthropic Messages''),
      (''openai_chat_completions_to_openai_responses'', ''OpenAI Chat to OpenAI Responses'', ''To OpenAI Responses''),
      (''openai_responses_to_openai_chat_completions'', ''OpenAI Responses to OpenAI Chat'', ''To OpenAI Chat''),
      (''openai_responses_to_gemini_generate_content'', ''OpenAI Responses to Gemini Generate Content'', ''To Gemini Generate Content''),
      (''gemini_generate_content_to_openai_chat_completions'', ''Gemini Generate Content to OpenAI Chat'', ''To OpenAI Chat''),
      (''openai_chat_completions_to_gemini_generate_content'', ''OpenAI Chat to Gemini Generate Content'', ''To Gemini Generate Content'')]"

definition ADVANCED_CUSTOM_AUTH_MODE_OPTIONS :: "(string \<times> string) list" where
  "ADVANCED_CUSTOM_AUTH_MODE_OPTIONS =
     [(''default'', ''Default Bearer''), (''none'', ''No Auth''), (''header'', ''Header''), (''query'', ''Query'')]"

text \<open>The incoming paths offered, each with its label.\<close>

definition ADVANCED_CUSTOM_INCOMING_PATH_OPTIONS :: "(string \<times> string) list" where
  "ADVANCED_CUSTOM_INCOMING_PATH_OPTIONS =
     [(''/v1/chat/completions'', ''OpenAI Chat''),
      (''/v1/responses'', ''OpenAI Responses''),
      (''/v1/responses/compact'', ''OpenAI Responses Compact''),
      (''/v1/alpha/search'', ''OpenAI Alpha Search''),
      (ADVANCED_CUSTOM_MODEL_LIST_PATH, ADVANCED_CUSTOM_MODEL_LIST_LABEL),
      (''/v1/embeddings'', ''OpenAI Embeddings''),
      (''/v1/images/generations'', ''OpenAI Image Generations''),
      (''/v1/images/edits'', ''OpenAI Image Edits''),
      (''/v1/completions'', ''OpenAI Completions''),
      (''/v1/audio/speech'', ''OpenAI Audio Speech''),
      (''/v1/audio/transcriptions'', ''OpenAI Audio Transcriptions''),
      (''/v1/audio/translations'', ''OpenAI Audio Translations''),
      (''/v1/rerank'', ''OpenAI Rerank''),
      (''/v1/realtime'', ''OpenAI Realtime''),
      (''/v1/messages'', ''Claude Messages''),
      (''/v1beta/models/{model}:generateContent'', ''Gemini Generate Content''),
      (''/v1beta/models/{model}:embedContent'', ''Gemini Embed Content''),
      (''/v1beta/models/{model}:batchEmbedContents'', ''Gemini Batch Embed Contents'')]"

definition ADVANCED_CUSTOM_ROUTE_SUMMARY_LABELS :: "(string, string) omap" where
  "ADVANCED_CUSTOM_ROUTE_SUMMARY_LABELS =
     [(''/v1/chat/completions'', ''OpenAI Chat''),
      (ADVANCED_CUSTOM_MODEL_LIST_PATH, ADVANCED_CUSTOM_MODEL_LIST_LABEL)]"

record AdvancedCustomValidationError =
  message :: string
  routeIndex :: "nat option"

record AdvancedCustomConverterDefaults =
  dUpstreamPath :: string
  dAuth :: AdvancedCustomRouteAuth

datatype AdvancedCustomModelRuleKind = Exact | Regex

definition ADVANCED_CUSTOM_MODEL_REGEX_PREFIX :: string where
  "ADVANCED_CUSTOM_MODEL_REGEX_PREFIX = ''re:''"

definition openAIChatPath :: string where "openAIChatPath = ''/v1/chat/completions''"
definition openAIResponsesPath :: string where "openAIResponsesPath = ''/v1/responses''"
definition claudeMessagesPath :: string where "claudeMessagesPath = ''/v1/messages''"
definition geminiGenerateContentPath :: string where
  "geminiGenerateContentPath = ''/v1beta/models/{model}:generateContent''"

definition bearerHeaderAuth :: AdvancedCustomRouteAuth where
  "bearerHeaderAuth = \<lparr>authType = JStr ''header'', authName = JStr ''Authorization'', authValue = JStr ''Bearer {api_key}''\<rparr>"

definition apiKeyHeaderAuth :: AdvancedCustomRouteAuth where
  "apiKeyHeaderAuth = \<lparr>authType = JStr ''header'', authName = JStr ''x-api-key'', authValue = JStr ''{api_key}''\<rparr>"

definition geminiQueryAuth :: AdvancedCustomRouteAuth where
  "geminiQueryAuth = \<lparr>authType = JStr ''query'', authName = JStr ''key'', authValue = JStr ''{api_key}''\<rparr>"

definition templateRoute :: "string \<Rightarrow> string \<Rightarrow> string \<Rightarrow> AdvancedCustomRouteAuth \<Rightarrow> AdvancedCustomRoute" where
  "templateRoute inPath upPath conv a =
     \<lparr>incoming_path = JStr inPath, upstream_path = upPath, converter = JStr conv, models = None, auth = Some a\<rparr>"

text \<open>The templates: a key, a label and the configuration.\<close>

definition ADVANCED_CUSTOM_TEMPLATE_OPTIONS :: "(string \<times> string \<times> AdvancedCustomConfig) list" where
  "ADVANCED_CUSTOM_TEMPLATE_OPTIONS =
     [(''official_openai_chat'', ''Official OpenAI Chat'',
       \<lparr>advanced_routes =
          [templateRoute ''/v1/chat/completions'' ''/v1/chat/completions'' ''none'' bearerHeaderAuth]\<rparr>),
      (''official_openai_responses'', ''Official OpenAI Responses'',
       \<lparr>advanced_routes = [templateRoute ''/v1/responses'' ''/v1/responses'' ''none'' bearerHeaderAuth]\<rparr>),
      (''official_openai_embeddings'', ''Official OpenAI Embeddings'',
       \<lparr>advanced_routes = [templateRoute ''/v1/embeddings'' ''/v1/embeddings'' ''none'' bearerHeaderAuth]\<rparr>),
      (''official_openai_images'', ''Official OpenAI Images'',
       \<lparr>advanced_routes =
          [templateRoute ''/v1/images/generations'' ''/v1/images/generations'' ''none'' bearerHeaderAuth,
           templateRoute ''/v1/images/edits'' ''/v1/images/edits'' ''none'' bearerHeaderAuth]\<rparr>),
      (''official_claude_messages'', ''Official Claude Messages'',
       \<lparr>advanced_routes = [templateRoute ''/v1/messages'' ''/v1/messages'' ''none'' apiKeyHeaderAuth]\<rparr>),
      (''official_gemini_native'', ''Official Gemini Native'',
       \<lparr>advanced_routes =
          [templateRoute ''/v1beta/models/{model}:generateContent'' ''/v1beta/models/{model}:generateContent'' ''none'' geminiQueryAuth,
           templateRoute ''/v1beta/models/{model}:embedContent'' ''/v1beta/models/{model}:embedContent'' ''none'' geminiQueryAuth,
           templateRoute ''/v1beta/models/{model}:batchEmbedContents'' ''/v1beta/models/{model}:batchEmbedContents'' ''none'' geminiQueryAuth]\<rparr>),
      (''official_gemini_from_openai_chat'', ''Official Gemini from OpenAI Chat'',
       \<lparr>advanced_routes =
          [templateRoute ''/v1/chat/completions'' ''/v1beta/models/{model}:generateContent''
             ''openai_chat_completions_to_gemini_generate_content'' geminiQueryAuth]\<rparr>)]"

section \<open>Dynamic access\<close>

text \<open>\<open>v.k\<close>, \<open>v || d\<close>, \<open>v.trim()\<close> and \<open>v?.trim() || ''\<close>.\<close>

fun jget :: "jsval \<Rightarrow> string \<Rightarrow> jsval option" where
  "jget JUndef k = None"
| "jget JNull k = None"
| "jget v k = Some (jprop v k)"

definition js_or :: "jsval \<Rightarrow> jsval \<Rightarrow> jsval" where
  "js_or v d = (if truthy v then v else d)"

fun trim_of :: "jsval \<Rightarrow> string option" where
  "trim_of (JStr s) = Some (js_trim s)"
| "trim_of _ = None"

fun opt_trim :: "jsval \<Rightarrow> string option" where
  "opt_trim JUndef = Some []"
| "opt_trim JNull = Some []"
| "opt_trim v = trim_of v"

text \<open>The object literal of a configuration; a field that is \<open>undefined\<close> is not in it.\<close>

definition js_literal :: "(string \<times> jsval) list \<Rightarrow> jsval" where
  "js_literal fs = JObj (filter (\<lambda>(_, v). v \<noteq> JUndef) fs)"

definition auth_json :: "AdvancedCustomRouteAuth \<Rightarrow> jsval" where
  "auth_json a = js_literal [(''type'', authType a), (''name'', authName a), (''value'', authValue a)]"

definition route_json :: "AdvancedCustomRoute \<Rightarrow> jsval" where
  "route_json r =
     js_literal
       [(''incoming_path'', incoming_path r), (''upstream_path'', JStr (upstream_path r)), (''converter'', converter r),
        (''models'', case models r of None \<Rightarrow> JUndef | Some ms \<Rightarrow> JArr (map JStr ms)),
        (''auth'', case auth r of None \<Rightarrow> JUndef | Some a \<Rightarrow> auth_json a)]"

definition config_json :: "AdvancedCustomConfig \<Rightarrow> jsval" where
  "config_json c = js_literal [(''advanced_routes'', JArr (map route_json (advanced_routes c)))]"

section \<open>Normalisation\<close>

definition getAdvancedCustomRouteUpstreamPath :: "jsval \<Rightarrow> string option" where
  "getAdvancedCustomRouteUpstreamPath route =
     do {
       v \<leftarrow> jget route ''upstream_path'';
       trim_of (js_or v (JStr []))
     }"

fun normalizeAdvancedCustomRouteModels :: "jsval \<Rightarrow> string list option" where
  "normalizeAdvancedCustomRouteModels (JArr ms) =
     map_option (filter (\<lambda>model. model \<noteq> [])) (those (map trim_of ms))"
| "normalizeAdvancedCustomRouteModels _ = Some []"

definition normalizeRouteAuth :: "jsval \<Rightarrow> AdvancedCustomRouteAuth option option" where
  "normalizeRouteAuth a =
     (if truthy a then
        do {
          type \<leftarrow> jget a ''type'';
          name \<leftarrow> jget a ''name'';
          val \<leftarrow> jget a ''value'';
          Some (Some \<lparr>authType = type, authName = js_or name (JStr []), authValue = js_or val (JStr [])\<rparr>)
        }
      else Some None)"

definition normalizeAdvancedCustomRoute :: "jsval \<Rightarrow> AdvancedCustomRoute option" where
  "normalizeAdvancedCustomRoute route =
     do {
       inPath \<leftarrow> jget route ''incoming_path'';
       upPath \<leftarrow> getAdvancedCustomRouteUpstreamPath route;
       conv \<leftarrow> jget route ''converter'';
       routeModels \<leftarrow> jget route ''models'';
       ms \<leftarrow> normalizeAdvancedCustomRouteModels routeModels;
       a \<leftarrow> jget route ''auth'';
       nextAuth \<leftarrow> normalizeRouteAuth a;
       Some \<lparr>incoming_path = js_or inPath (JStr []), upstream_path = upPath,
         converter = js_or conv (JStr ''none''),
         models = (if 0 < length ms then Some ms else None), auth = nextAuth\<rparr>
     }"

definition normalizeAdvancedCustomConfig :: "jsval \<Rightarrow> AdvancedCustomConfig option" where
  "normalizeAdvancedCustomConfig config =
     do {
       v \<leftarrow> jget config ''advanced_routes'';
       routes \<leftarrow> (case v of JArr rs \<Rightarrow> those (map normalizeAdvancedCustomRoute rs) | _ \<Rightarrow> Some []);
       Some \<lparr>advanced_routes = routes\<rparr>
     }"

definition parseAdvancedCustomConfig :: "string option \<Rightarrow> AdvancedCustomConfig option" where
  "parseAdvancedCustomConfig val =
     (case val of
        None \<Rightarrow> None
      | Some s \<Rightarrow>
          if js_trim s = [] then None
          else (case json_parse s of Some (JObj fs) \<Rightarrow> normalizeAdvancedCustomConfig (JObj fs) | _ \<Rightarrow> None))"

definition stringifyAdvancedCustomConfig :: "jsval \<Rightarrow> string option" where
  "stringifyAdvancedCustomConfig config =
     map_option (\<lambda>c. json_pretty (config_json c)) (normalizeAdvancedCustomConfig config)"

definition cloneAdvancedCustomConfig :: "jsval \<Rightarrow> jsval option" where
  "cloneAdvancedCustomConfig config = json_parse (json_stringify config)"

definition getAdvancedCustomTemplateConfig :: "string \<Rightarrow> jsval option" where
  "getAdvancedCustomTemplateConfig templateKey =
     (let template = (case find (\<lambda>(v, _, _). v = templateKey) ADVANCED_CUSTOM_TEMPLATE_OPTIONS of
            Some t \<Rightarrow> t
          | None \<Rightarrow> ADVANCED_CUSTOM_TEMPLATE_OPTIONS ! 0) in
      cloneAdvancedCustomConfig (config_json (snd (snd template))))"

definition createAdvancedCustomRoute :: AdvancedCustomRoute where
  "createAdvancedCustomRoute =
     \<lparr>incoming_path = JStr openAIChatPath, upstream_path = openAIChatPath, converter = JStr ''none'',
      models = None, auth = None\<rparr>"

definition createAdvancedCustomConfig :: AdvancedCustomConfig where
  "createAdvancedCustomConfig = \<lparr>advanced_routes = [createAdvancedCustomRoute]\<rparr>"

definition parseAdvancedCustomRouteModels :: "string \<Rightarrow> string list" where
  "parseAdvancedCustomRouteModels s = os_of (filter (\<lambda>m. m \<noteq> []) (map js_trim (split_on (CHR '','') s)))"

definition getAdvancedCustomModelRuleKind :: "string \<Rightarrow> AdvancedCustomModelRuleKind" where
  "getAdvancedCustomModelRuleKind modelRule =
     (if prefix ADVANCED_CUSTOM_MODEL_REGEX_PREFIX modelRule then Regex else Exact)"

definition getAdvancedCustomRegexModelPattern :: "string \<Rightarrow> string" where
  "getAdvancedCustomRegexModelPattern modelRule = drop (length ADVANCED_CUSTOM_MODEL_REGEX_PREFIX) modelRule"

section \<open>Converters and paths\<close>

definition isConverterPathAllowed :: "string \<Rightarrow> string \<Rightarrow> bool" where
  "isConverterPathAllowed incomingPath conv =
     (if conv = ''none'' then True
      else if incomingPath = ''/v1/alpha/search'' then False
      else if conv = ''anthropic_messages_to_openai_chat_completions'' then incomingPath = ''/v1/messages''
      else if conv = ''openai_chat_completions_to_anthropic_messages'' \<or>
              conv = ''openai_chat_completions_to_openai_responses'' \<or>
              conv = ''openai_chat_completions_to_gemini_generate_content'' then incomingPath = ''/v1/chat/completions''
      else if conv = ''openai_responses_to_openai_chat_completions'' then incomingPath = ''/v1/responses''
      else if conv = ''openai_responses_to_gemini_generate_content'' then incomingPath = ''/v1/responses''
      else js_includes '':generateContent'' incomingPath \<or> js_includes '':streamGenerateContent'' incomingPath)"

definition getAdvancedCustomIncomingPathOptions :: "string \<Rightarrow> (string \<times> string) list" where
  "getAdvancedCustomIncomingPathOptions conv =
     filter (\<lambda>(path, _). isConverterPathAllowed path conv) ADVANCED_CUSTOM_INCOMING_PATH_OPTIONS"

definition getDefaultAdvancedCustomIncomingPath :: "string \<Rightarrow> string" where
  "getDefaultAdvancedCustomIncomingPath conv =
     (case getAdvancedCustomIncomingPathOptions conv of
        (path, _) # _ \<Rightarrow> if path \<noteq> [] then path else ''/v1/chat/completions''
      | [] \<Rightarrow> ''/v1/chat/completions'')"

definition isAdvancedCustomIncomingPathAllowed :: "string \<Rightarrow> string \<Rightarrow> bool" where
  "isAdvancedCustomIncomingPathAllowed incomingPath conv = isConverterPathAllowed incomingPath conv"

definition getAdvancedCustomConverterOptions :: "string \<Rightarrow> ConverterOption list" where
  "getAdvancedCustomConverterOptions incomingPath =
     (let normalizedIncomingPath = js_trim incomingPath in
      filter (\<lambda>option. optValue option = ''none'' \<or> isConverterPathAllowed normalizedIncomingPath (optValue option))
        ADVANCED_CUSTOM_CONVERTER_OPTIONS)"

definition getAdvancedCustomIncomingPathLabel :: "string \<Rightarrow> string" where
  "getAdvancedCustomIncomingPathLabel path =
     (case find (\<lambda>(v, _). v = path) ADVANCED_CUSTOM_INCOMING_PATH_OPTIONS of
        Some (_, label) \<Rightarrow> if label \<noteq> [] then label else path
      | None \<Rightarrow> path)"

definition getAdvancedCustomNativeAuth :: "string \<Rightarrow> AdvancedCustomRouteAuth" where
  "getAdvancedCustomNativeAuth incomingPath =
     (if incomingPath = claudeMessagesPath then apiKeyHeaderAuth
      else if js_includes '':generateContent'' incomingPath \<or> js_includes '':streamGenerateContent'' incomingPath \<or>
              js_includes '':embedContent'' incomingPath \<or> js_includes '':batchEmbedContents'' incomingPath
        then geminiQueryAuth
      else bearerHeaderAuth)"

definition getAdvancedCustomConverterDefaults :: "string \<Rightarrow> string \<Rightarrow> AdvancedCustomConverterDefaults" where
  "getAdvancedCustomConverterDefaults conv incomingPath =
     (let normalizedIncomingPath =
            (if js_trim incomingPath \<noteq> [] then js_trim incomingPath else getDefaultAdvancedCustomIncomingPath conv) in
      if conv = ''none'' then
        \<lparr>dUpstreamPath = normalizedIncomingPath, dAuth = getAdvancedCustomNativeAuth normalizedIncomingPath\<rparr>
      else if conv = ''anthropic_messages_to_openai_chat_completions'' \<or>
              conv = ''gemini_generate_content_to_openai_chat_completions'' \<or>
              conv = ''openai_responses_to_openai_chat_completions'' then
        \<lparr>dUpstreamPath = openAIChatPath, dAuth = bearerHeaderAuth\<rparr>
      else if conv = ''openai_chat_completions_to_openai_responses'' then
        \<lparr>dUpstreamPath = openAIResponsesPath, dAuth = bearerHeaderAuth\<rparr>
      else if conv = ''openai_chat_completions_to_anthropic_messages'' then
        \<lparr>dUpstreamPath = claudeMessagesPath, dAuth = apiKeyHeaderAuth\<rparr>
      else if conv = ''openai_chat_completions_to_gemini_generate_content'' \<or>
              conv = ''openai_responses_to_gemini_generate_content'' then
        \<lparr>dUpstreamPath = geminiGenerateContentPath, dAuth = geminiQueryAuth\<rparr>
      else
        \<lparr>dUpstreamPath = (if normalizedIncomingPath \<noteq> [] then normalizedIncomingPath else openAIChatPath),
         dAuth = getAdvancedCustomNativeAuth normalizedIncomingPath\<rparr>)"

definition getAdvancedCustomUpstreamPathPlaceholder :: "string \<Rightarrow> string option \<Rightarrow> string" where
  "getAdvancedCustomUpstreamPathPlaceholder conv incomingPath =
     dUpstreamPath (getAdvancedCustomConverterDefaults conv
       (case incomingPath of Some p \<Rightarrow> p | None \<Rightarrow> getDefaultAdvancedCustomIncomingPath conv))"

section \<open>Validation\<close>

definition isAdvancedCustomConverter :: "jsval \<Rightarrow> bool" where
  "isAdvancedCustomConverter v = list_ex (\<lambda>option. JStr (optValue option) = v) ADVANCED_CUSTOM_CONVERTER_OPTIONS"

definition isFullHttpURLOrAbsolutePath :: "url_parser \<Rightarrow> string \<Rightarrow> bool" where
  "isFullHttpURLOrAbsolutePath url s =
     (if prefix ''/'' s then \<not> prefix ''//'' s
      else
        (case url s of
           None \<Rightarrow> False
         | Some (host, protocol) \<Rightarrow> host \<noteq> [] \<and> (protocol = ''http:'' \<or> protocol = ''https:'')))"

text \<open>The message of the first check of the credentials that fails; the outer \<open>None\<close> is an exception.\<close>

definition validateRouteAuth :: "AdvancedCustomRouteAuth option \<Rightarrow> string option option" where
  "validateRouteAuth ra =
     (case ra of
        None \<Rightarrow> Some None
      | Some a \<Rightarrow>
          if authType a = JStr ''none'' then Some None
          else if authType a \<noteq> JStr ''header'' \<and> authType a \<noteq> JStr ''query'' then Some (Some ''Auth type is invalid'')
          else
            do {
              name \<leftarrow> opt_trim (authName a);
              if name = [] then Some (Some ''Auth name is required'')
              else
                do {
                  val \<leftarrow> opt_trim (authValue a);
                  if val = [] then Some (Some ''Auth value is required'') else Some None
                }
            })"

record RouteModelsState =
  catchAllIndex :: "nat option"
  stateModels :: "(string, nat) omap"

type_synonym route_models = "(string, RouteModelsState) omap"

fun checkRouteModels :: "nat \<Rightarrow> string list \<Rightarrow> string list \<Rightarrow> (string, nat) omap \<Rightarrow> string + (string, nat) omap" where
  "checkRouteModels index [] seenInRoute ms = Inr ms"
| "checkRouteModels index (model # rest) seenInRoute ms =
     (if getAdvancedCustomModelRuleKind model = Regex \<and> getAdvancedCustomRegexModelPattern model = []
        then Inl ''Model regex cannot be empty''
      else if model \<in> set seenInRoute then Inl ''Duplicate model in route models''
      else if om_get ms model \<noteq> None then Inl ''Route models must be unique for the same incoming path''
      else checkRouteModels index rest (os_add seenInRoute model) (om_set model index ms))"

definition validateAdvancedCustomRouteModels ::
  "nat \<Rightarrow> string \<Rightarrow> string list \<Rightarrow> route_models \<Rightarrow> string + route_models" where
  "validateAdvancedCustomRouteModels index incomingPath ms routeModelsByPath =
     (let state = (case om_get routeModelsByPath incomingPath of
            Some st \<Rightarrow> st
          | None \<Rightarrow> \<lparr>catchAllIndex = None, stateModels = []\<rparr>) in
      if length ms = 0 then
        (if catchAllIndex state \<noteq> None
         then Inl ''Only one catch-all route is allowed for the same incoming path''
         else Inr (om_set incomingPath (state\<lparr>catchAllIndex := Some index\<rparr>) routeModelsByPath))
      else if catchAllIndex state \<noteq> None
        then Inl ''Catch-all route must be last for the same incoming path''
      else
        (case checkRouteModels index ms [] (stateModels state) of
           Inl e \<Rightarrow> Inl e
         | Inr ms' \<Rightarrow> Inr (om_set incomingPath (state\<lparr>stateModels := ms'\<rparr>) routeModelsByPath)))"

text \<open>The checks on the route of the model list, when the path is that of the model list.\<close>

definition validateModelListRoute ::
  "nat \<Rightarrow> string \<Rightarrow> string \<Rightarrow> jsval \<Rightarrow> string list \<Rightarrow> nat option \<Rightarrow> string + nat option" where
  "validateModelListRoute index incomingPath upstreamPath conv routeModels modelListRouteIndex =
     (if incomingPath = ADVANCED_CUSTOM_MODEL_LIST_PATH then
        (if modelListRouteIndex \<noteq> None then Inl ''Only one OpenAI Models route is allowed''
         else if 0 < length routeModels then Inl ''OpenAI Models route does not support client model rules''
         else if conv \<noteq> JStr ''none'' then Inl ''OpenAI Models route must use native forwarding''
         else if js_includes ''{model}'' upstreamPath then Inl ''OpenAI Models upstream path must not contain {model}''
         else Inr (Some index))
      else Inr modelListRouteIndex)"

type_synonym route_state = "route_models \<times> nat option"

text \<open>One iteration: an exception, the message of an error, or the state after the route.  The
  converter is a string once it is registered.\<close>

definition validateRoute ::
  "url_parser \<Rightarrow> nat \<Rightarrow> AdvancedCustomRoute \<Rightarrow> route_state \<Rightarrow> (string + route_state) option" where
  "validateRoute url index route st =
     do {
       incomingPath \<leftarrow> opt_trim (incoming_path route);
       let upstreamPath = js_trim (upstream_path route);
       let conv = js_or (converter route) (JStr ''none'');
       let routeModels = (case models route of None \<Rightarrow> [] | Some ms \<Rightarrow> filter (\<lambda>m. m \<noteq> []) (map js_trim ms));
       if incomingPath = [] then Some (Inl ''Incoming path is required'')
       else if \<not> prefix ''/'' incomingPath then Some (Inl ''Incoming path must start with /'')
       else if js_includes ''?'' incomingPath then Some (Inl ''Incoming path must not include query'')
       else
         (case validateModelListRoute index incomingPath upstreamPath conv routeModels (snd st) of
            Inl e \<Rightarrow> Some (Inl e)
          | Inr modelListRouteIndex \<Rightarrow>
              (case validateAdvancedCustomRouteModels index incomingPath routeModels (fst st) of
                 Inl e \<Rightarrow> Some (Inl e)
               | Inr routeModelsByPath \<Rightarrow>
                   if upstreamPath = [] then Some (Inl ''Upstream path is required'')
                   else if \<not> isFullHttpURLOrAbsolutePath url upstreamPath
                     then Some (Inl ''Upstream path must be a full URL or a path starting with /'')
                   else if \<not> isAdvancedCustomConverter conv then Some (Inl ''Converter is not registered'')
                   else if \<not> isConverterPathAllowed incomingPath (js_str conv)
                     then Some (Inl ''Converter does not match incoming path'')
                   else
                     (case validateRouteAuth (auth route) of
                        None \<Rightarrow> None
                      | Some (Some e) \<Rightarrow> Some (Inl e)
                      | Some None \<Rightarrow> Some (Inr (routeModelsByPath, modelListRouteIndex)))))
     }"

fun validateRoutes ::
  "url_parser \<Rightarrow> nat \<Rightarrow> AdvancedCustomRoute list \<Rightarrow> route_state \<Rightarrow> AdvancedCustomValidationError option option" where
  "validateRoutes url index [] st = Some None"
| "validateRoutes url index (route # routes) st =
     (case validateRoute url index route st of
        None \<Rightarrow> None
      | Some (Inl e) \<Rightarrow> Some (Some \<lparr>message = e, routeIndex = Some index\<rparr>)
      | Some (Inr st') \<Rightarrow> validateRoutes url (index + 1) routes st')"

definition validateAdvancedCustomConfig ::
  "url_parser \<Rightarrow> AdvancedCustomConfig option \<Rightarrow> AdvancedCustomValidationError option option" where
  "validateAdvancedCustomConfig url config =
     (case config of
        None \<Rightarrow> Some (Some \<lparr>message = ''Advanced custom configuration is required'', routeIndex = None\<rparr>)
      | Some c \<Rightarrow>
          do {
            normalized \<leftarrow> normalizeAdvancedCustomConfig (config_json c);
            let routes = advanced_routes normalized;
            if length routes = 0
            then Some (Some \<lparr>message = ''Advanced custom configuration requires at least one route'', routeIndex = None\<rparr>)
            else validateRoutes url 0 routes ([], None)
          })"

definition hasValidAdvancedCustomModelListRoute :: "url_parser \<Rightarrow> AdvancedCustomConfig option \<Rightarrow> bool option" where
  "hasValidAdvancedCustomModelListRoute url config =
     (case config of
        None \<Rightarrow> Some False
      | Some c \<Rightarrow>
          do {
            e \<leftarrow> validateAdvancedCustomConfig url (Some c);
            if e \<noteq> None then Some False
            else
              do {
                normalized \<leftarrow> normalizeAdvancedCustomConfig (config_json c);
                Some (list_ex (\<lambda>route. opt_trim (incoming_path route) = Some ADVANCED_CUSTOM_MODEL_LIST_PATH)
                  (advanced_routes normalized))
              }
          })"

definition advancedCustomConfigUsesRelativeUpstreamPath :: "AdvancedCustomConfig option \<Rightarrow> bool option" where
  "advancedCustomConfigUsesRelativeUpstreamPath config =
     (case config of
        None \<Rightarrow> Some False
      | Some c \<Rightarrow>
          do {
            normalized \<leftarrow> normalizeAdvancedCustomConfig (config_json c);
            Some (list_ex (\<lambda>route. prefix ''/'' (js_trim (upstream_path route))) (advanced_routes normalized))
          })"

section \<open>Summaries and credentials\<close>

definition getAdvancedCustomRouteSummaryLabel :: "AdvancedCustomRoute \<Rightarrow> string option option" where
  "getAdvancedCustomRouteSummaryLabel route =
     do {
       incomingPath \<leftarrow> opt_trim (incoming_path route);
       if incomingPath = [] then Some None
       else
         Some (Some
           (case om_get ADVANCED_CUSTOM_ROUTE_SUMMARY_LABELS incomingPath of
              Some label \<Rightarrow> label
            | None \<Rightarrow> getAdvancedCustomIncomingPathLabel incomingPath))
     }"

record AdvancedCustomStats =
  routeCount :: nat
  valid :: bool
  routeTypeLabels :: "string list"

definition getAdvancedCustomStats :: "url_parser \<Rightarrow> string option \<Rightarrow> AdvancedCustomStats option" where
  "getAdvancedCustomStats url val =
     (case parseAdvancedCustomConfig val of
        None \<Rightarrow> Some \<lparr>routeCount = 0, valid = False, routeTypeLabels = []\<rparr>
      | Some config \<Rightarrow>
          do {
            normalized \<leftarrow> normalizeAdvancedCustomConfig (config_json config);
            labels \<leftarrow> those (map getAdvancedCustomRouteSummaryLabel (advanced_routes normalized));
            let typeLabels = foldl (\<lambda>acc label. case label of None \<Rightarrow> acc | Some l \<Rightarrow> if l = [] then acc else os_add acc l)
              [] labels;
            e \<leftarrow> validateAdvancedCustomConfig url (Some normalized);
            Some \<lparr>routeCount = length (advanced_routes normalized), valid = (e = None), routeTypeLabels = typeLabels\<rparr>
          })"

definition getAdvancedCustomAuthMode :: "AdvancedCustomRoute \<Rightarrow> jsval" where
  "getAdvancedCustomAuthMode route =
     (case auth route of None \<Rightarrow> JStr ''default'' | Some a \<Rightarrow> js_or (authType a) (JStr ''default''))"

datatype AdvancedCustomAuthMode = ModeDefault | ModeNone | ModeHeader | ModeQuery

definition buildAdvancedCustomAuth ::
  "AdvancedCustomAuthMode \<Rightarrow> AdvancedCustomRouteAuth option \<Rightarrow> AdvancedCustomRouteAuth option" where
  "buildAdvancedCustomAuth mode previousAuth =
     (let prevName = (case previousAuth of None \<Rightarrow> JUndef | Some a \<Rightarrow> authName a);
          prevValue = (case previousAuth of None \<Rightarrow> JUndef | Some a \<Rightarrow> authValue a) in
      case mode of
        ModeDefault \<Rightarrow> None
      | ModeNone \<Rightarrow> Some \<lparr>authType = JStr ''none'', authName = JUndef, authValue = JUndef\<rparr>
      | ModeHeader \<Rightarrow>
          Some \<lparr>authType = JStr ''header'', authName = js_or prevName (JStr ''Authorization''),
            authValue = js_or prevValue (JStr ''Bearer {api_key}'')\<rparr>
      | ModeQuery \<Rightarrow>
          Some \<lparr>authType = JStr ''query'', authName = js_or prevName (JStr ''api_key''),
            authValue = js_or prevValue (JStr ''{api_key}'')\<rparr>)"

section \<open>Normal configurations\<close>

definition normalAuth :: "AdvancedCustomRouteAuth \<Rightarrow> bool" where
  "normalAuth a \<longleftrightarrow> (truthy (authName a) \<or> authName a = JStr []) \<and> (truthy (authValue a) \<or> authValue a = JStr [])"

definition normalRoute :: "AdvancedCustomRoute \<Rightarrow> bool" where
  "normalRoute r \<longleftrightarrow>
     (truthy (incoming_path r) \<or> incoming_path r = JStr []) \<and> js_trim (upstream_path r) = upstream_path r \<and>
     truthy (converter r) \<and>
     (\<forall>ms. models r = Some ms \<longrightarrow> ms \<noteq> [] \<and> (\<forall>m \<in> set ms. m \<noteq> [] \<and> js_trim m = m)) \<and>
     (\<forall>a. auth r = Some a \<longrightarrow> normalAuth a)"

lemma js_or_cases: "truthy (js_or v d) \<or> js_or v d = d"
  by (simp add: js_or_def)

lemma js_or_truthy [simp]: "truthy v \<Longrightarrow> js_or v d = v"
  by (simp add: js_or_def)

lemma js_or_default [simp]: "js_or d d = d"
  by (simp add: js_or_def)

lemma trim_of_SomeD: "trim_of v = Some s \<Longrightarrow> js_trim s = s"
  by (cases v) auto

lemma those_SomeD: "those xs = Some ys \<Longrightarrow> xs = map Some ys"
  by (induction xs arbitrary: ys) (auto split: option.splits)

lemma those_map_Some [simp]: "those (map (\<lambda>x. Some (f x)) xs) = Some (map f xs)"
  by (induction xs) auto

lemma those_map_SomeI: "(\<And>x. x \<in> set xs \<Longrightarrow> f x = Some (g x)) \<Longrightarrow> those (map f xs) = Some (map g xs)"
  by (induction xs) auto

lemma normalizeModels_normal:
  "normalizeAdvancedCustomRouteModels v = Some ms \<Longrightarrow> m \<in> set ms \<Longrightarrow> m \<noteq> [] \<and> js_trim m = m"
proof (cases v)
  case (JArr vs)
  assume "normalizeAdvancedCustomRouteModels v = Some ms" "m \<in> set ms"
  with JArr obtain ss where ss: "those (map trim_of vs) = Some ss" "ms = filter (\<lambda>m. m \<noteq> []) ss" by auto
  with \<open>m \<in> set ms\<close> have "Some m \<in> set (map Some ss)" "m \<noteq> []" by auto
  then have "Some m \<in> trim_of ` set vs" using those_SomeD [OF ss(1)] by (metis list.set_map)
  then show ?thesis using \<open>m \<noteq> []\<close> trim_of_SomeD by (metis imageE)
qed auto

lemma normalizeRouteAuth_normal: "normalizeRouteAuth v = Some (Some a) \<Longrightarrow> normalAuth a"
  by (auto simp: normalizeRouteAuth_def normalAuth_def js_or_def bind_eq_Some_conv split: if_splits)

lemma normalizeRoute_normal:
  assumes "normalizeAdvancedCustomRoute v = Some r"
  shows "normalRoute r"
proof -
  from assms obtain inPath upPath conv rm ms a a'
    where D: "getAdvancedCustomRouteUpstreamPath v = Some upPath" "normalizeAdvancedCustomRouteModels rm = Some ms"
      "normalizeRouteAuth a = Some a'"
      "r = \<lparr>incoming_path = js_or inPath (JStr []), upstream_path = upPath, converter = js_or conv (JStr ''none''),
         models = (if 0 < length ms then Some ms else None), auth = a'\<rparr>"
    by (auto simp: normalizeAdvancedCustomRoute_def bind_eq_Some_conv)
  have "js_trim upPath = upPath"
    using D(1) trim_of_SomeD by (auto simp: getAdvancedCustomRouteUpstreamPath_def bind_eq_Some_conv)
  moreover have "truthy (js_or conv (JStr ''none''))" by (simp add: js_or_def)
  ultimately show ?thesis
    using js_or_cases [of inPath "JStr []"] normalizeModels_normal [OF D(2)] normalizeRouteAuth_normal [of a] D(3)
    by (auto simp: normalRoute_def D(4))
qed

lemma normalizeConfig_normal:
  assumes "normalizeAdvancedCustomConfig v = Some c" and "r \<in> set (advanced_routes c)"
  shows "normalRoute r"
proof -
  from assms(1) obtain w where w: "(case w of JArr rs \<Rightarrow> those (map normalizeAdvancedCustomRoute rs) | _ \<Rightarrow> Some []) =
      Some (advanced_routes c)"
    by (auto simp: normalizeAdvancedCustomConfig_def bind_eq_Some_conv)
  with assms(2) obtain rs where "those (map normalizeAdvancedCustomRoute rs) = Some (advanced_routes c)"
    by (cases w) auto
  from those_SomeD [OF this] assms(2) have "Some r \<in> normalizeAdvancedCustomRoute ` set rs"
    by (metis image_eqI list.set_map)
  then show ?thesis using normalizeRoute_normal by (metis imageE)
qed

text \<open>Properties of an object literal.\<close>

lemma jprop_literal: "distinct (map fst fs) \<Longrightarrow> jprop (js_literal fs) k = (case map_of fs k of Some v \<Rightarrow> v | None \<Rightarrow> JUndef)"
proof (induction fs)
  case (Cons e fs)
  have "map_of (filter (\<lambda>(_, v). v \<noteq> JUndef) fs) k = None" if "k \<notin> fst ` set fs"
    using that by (force simp: map_of_eq_None_iff)
  with Cons show ?case by (cases e) (auto simp: js_literal_def split: if_splits)
qed (simp add: js_literal_def)

lemma jget_literal: "distinct (map fst fs) \<Longrightarrow>
    jget (js_literal fs) k = Some (case map_of fs k of Some v \<Rightarrow> v | None \<Rightarrow> JUndef)"
  by (metis js_literal_def jget.simps(7) jprop_literal)

lemma truthy_literal [simp]: "truthy (js_literal fs)"
  by (simp add: js_literal_def)

lemma normalizeRouteAuth_json:
  "normalAuth a \<Longrightarrow> normalizeRouteAuth (auth_json a) = Some (Some a)"
  by (auto simp: normalizeRouteAuth_def auth_json_def jget_literal normalAuth_def)

lemma normalizeModels_strings:
  "(\<forall>m \<in> set ms. m \<noteq> [] \<and> js_trim m = m) \<Longrightarrow> normalizeAdvancedCustomRouteModels (JArr (map JStr ms)) = Some ms"
proof -
  assume "\<forall>m \<in> set ms. m \<noteq> [] \<and> js_trim m = m"
  then have "map js_trim ms = ms" "filter (\<lambda>m. m \<noteq> []) ms = ms" by (auto intro: map_idI filter_True)
  then show ?thesis by (simp add: comp_def)
qed

lemma normalizeRoute_json:
  assumes "normalRoute r"
  shows "normalizeAdvancedCustomRoute (route_json r) = Some r"
proof -
  have up: "getAdvancedCustomRouteUpstreamPath (route_json r) = Some (upstream_path r)"
    using assms
    by (cases "upstream_path r") (auto simp: getAdvancedCustomRouteUpstreamPath_def route_json_def jget_literal normalRoute_def js_or_def)
  have ms: "normalizeAdvancedCustomRouteModels (case models r of None \<Rightarrow> JUndef | Some ms \<Rightarrow> JArr (map JStr ms)) =
      Some (case models r of None \<Rightarrow> [] | Some ms \<Rightarrow> ms)"
    using assms normalizeModels_strings by (cases "models r") (auto simp: normalRoute_def)
  have au: "normalizeRouteAuth (case auth r of None \<Rightarrow> JUndef | Some a \<Rightarrow> auth_json a) = Some (auth r)"
    using assms normalizeRouteAuth_json by (cases "auth r") (auto simp: normalRoute_def normalizeRouteAuth_def)
  have get: "jget (route_json r) ''incoming_path'' = Some (incoming_path r)"
    "jget (route_json r) ''converter'' = Some (converter r)"
    "jget (route_json r) ''models'' = Some (case models r of None \<Rightarrow> JUndef | Some ms \<Rightarrow> JArr (map JStr ms))"
    "jget (route_json r) ''auth'' = Some (case auth r of None \<Rightarrow> JUndef | Some a \<Rightarrow> auth_json a)"
    by (simp_all add: route_json_def jget_literal)
  have "(if 0 < length (case models r of None \<Rightarrow> [] | Some ms \<Rightarrow> ms)
      then Some (case models r of None \<Rightarrow> [] | Some ms \<Rightarrow> ms) else None) = models r"
    using assms by (cases "models r") (auto simp: normalRoute_def)
  moreover have "js_or (incoming_path r) (JStr []) = incoming_path r" "js_or (converter r) (JStr ''none'') = converter r"
    using assms by (auto simp: normalRoute_def)
  ultimately show ?thesis
    by (simp only: normalizeAdvancedCustomRoute_def get up ms au Option.bind.bind_lunit) simp
qed

lemma normalizeConfig_json:
  "\<forall>r \<in> set (advanced_routes c). normalRoute r \<Longrightarrow> normalizeAdvancedCustomConfig (config_json c) = Some c"
  by (simp add: normalizeAdvancedCustomConfig_def config_json_def jget_literal
      those_map_SomeI [where g = id] normalizeRoute_json comp_def)

lemma normalizeConfig_idem:
  "normalizeAdvancedCustomConfig v = Some c \<Longrightarrow> normalizeAdvancedCustomConfig (config_json c) = Some c"
  using normalizeConfig_normal by (intro normalizeConfig_json) blast

end
