(* ===== verification/Channel_Form.thy ===== *)
theory Channel_Form
  imports Model_Mapping Advanced_Custom
begin

text \<open>
  The channel form: \<open>channels/lib/channel-form.ts\<close>.  A channel of the API becomes the values of the
  form, the form is checked and becomes the payload that creates or updates the channel.  The flat
  object of the form is a record with the settings that the API keeps in the JSON texts \<open>setting\<close> and
  \<open>settings\<close> in two records of their own; those values come out of \<open>JSON.parse\<close> unchecked and are
  \<open>jsval\<close>.  The checks of the schema library itself (required fields, lengths) are not modelled, the
  functions it is given are.  \<open>new URL(s)\<close> is an argument.
\<close>

section \<open>Data\<close>

definition CHANNEL_TYPE_NEW_API :: nat where "CHANNEL_TYPE_NEW_API = 60"

definition MODEL_FETCHABLE_TYPES :: "nat list" where
  "MODEL_FETCHABLE_TYPES = [1, 4, 14, 17, 20, 23, 24, 25, 26, 27, 31, 34, 35, 40, 42, 43, 47, 48, 57, 58, 59, 60]"

definition FIELD_PASSTHROUGH_TYPES :: "nat list" where
  "FIELD_PASSTHROUGH_TYPES = [1, 14, 57, 58, 59, CHANNEL_TYPE_NEW_API]"

definition OPENAI_FIELD_PASSTHROUGH_TYPES :: "nat list" where
  "OPENAI_FIELD_PASSTHROUGH_TYPES = [1, 57, 58, 59, CHANNEL_TYPE_NEW_API]"

definition CLAUDE_FIELD_PASSTHROUGH_TYPES :: "nat list" where
  "CLAUDE_FIELD_PASSTHROUGH_TYPES = [14, 58, 59, CHANNEL_TYPE_NEW_API]"

text \<open>The settings kept in the text \<open>setting\<close>.\<close>

record ChannelExtraSettings =
  force_format :: jsval
  thinking_to_content :: jsval
  proxy :: jsval
  http_protocol :: string
  http2_connection_shards :: jsval
  pass_through_body_enabled :: jsval
  system_prompt :: jsval
  system_prompt_override :: jsval

text \<open>The settings kept in the text \<open>settings\<close>.\<close>

record ChannelTypeSettings =
  is_enterprise_account :: jsval
  vertex_key_type :: jsval
  aws_key_type :: jsval
  azure_responses_version :: jsval
  allow_service_tier :: jsval
  disable_store :: jsval
  allow_safety_identifier :: jsval
  allow_include_obfuscation :: jsval
  allow_inference_geo :: jsval
  allow_speed :: jsval
  claude_beta_query :: jsval
  disable_task_polling_sleep :: jsval
  upstream_model_update_check_enabled :: jsval
  upstream_model_update_auto_sync_enabled :: jsval
  upstream_model_update_ignored_models :: string
  advanced_custom :: string

record ChannelFormValues =
  form_name :: string
  form_type :: nat
  form_base_url :: "string option"
  form_key :: string
  form_openai_organization :: "string option"
  form_models :: string
  form_group :: "string list"
  form_model_mapping :: "string option"
  form_priority :: "rat option"
  form_weight :: "rat option"
  form_test_model :: "string option"
  form_auto_ban :: "rat option"
  form_status :: nat
  form_status_code_mapping :: "string option"
  form_tag :: "string option"
  form_remark :: "string option"
  form_setting :: "string option"
  form_param_override :: "string option"
  form_header_override :: "string option"
  form_settings :: "string option"
  form_other :: "string option"
  form_multi_key_mode :: "string option"
  form_multi_key_type :: "string option"
  form_batch_prefix :: "bool option"
  form_key_mode :: "string option"
  form_extra :: ChannelExtraSettings
  form_typed :: ChannelTypeSettings

text \<open>The fields of a channel of the API that the form reads.\<close>

record Channel =
  ch_name :: string
  ch_type :: nat
  ch_base_url :: "string option"
  ch_openai_organization :: "string option"
  ch_models :: string
  ch_group :: string
  ch_model_mapping :: "string option"
  ch_priority :: "rat option"
  ch_weight :: "rat option"
  ch_test_model :: "string option"
  ch_auto_ban :: "rat option"
  ch_status :: nat
  ch_status_code_mapping :: "string option"
  ch_tag :: "string option"
  ch_remark :: string
  ch_setting :: "string option"
  ch_param_override :: "string option"
  ch_header_override :: "string option"
  ch_settings :: string
  ch_other :: string
  ch_multi_key_mode :: string

text \<open>\<open>s || ''\<close> of an optional string, \<open>s?.trim()\<close> compared with blank, and \<open>v === true\<close>.\<close>

definition opt_str :: "string option \<Rightarrow> string" where
  "opt_str so = (case so of Some s \<Rightarrow> s | None \<Rightarrow> [])"

abbreviation blank_opt :: "string option \<Rightarrow> bool" where
  "blank_opt so \<equiv> js_trim (opt_str so) = []"

definition is_true :: "jsval \<Rightarrow> jsval" where
  "is_true v = JBool (v = JBool True)"

section \<open>Checks\<close>

definition SUPPORTED_PROXY_PROTOCOLS :: "string list" where
  "SUPPORTED_PROXY_PROTOCOLS = [''http:'', ''https:'', ''socks5:'', ''socks5h:'']"

text \<open>What follows the first occurrence of a text, with what precedes it.\<close>

fun cut_at :: "string \<Rightarrow> string \<Rightarrow> (string \<times> string) option" where
  "cut_at t [] = (if t = [] then Some ([], []) else None)"
| "cut_at t (c # s) =
     (if prefix t (c # s) then Some ([], drop (length t) (c # s)) else map_option (\<lambda>(a, b). (c # a, b)) (cut_at t s))"

text \<open>\<open>new URL(s)\<close>: the protocol, the host name and the port.\<close>

type_synonym proxy_url = "string \<Rightarrow> (string \<times> string \<times> string) option"

definition isOptionalProxyURL :: "proxy_url \<Rightarrow> string option \<Rightarrow> bool" where
  "isOptionalProxyURL url val =
     (let trimmedValue = js_trim (opt_str val) in
      if trimmedValue = [] then True
      else
        (case cut_at ''://'' trimmedValue of
           None \<Rightarrow> False
         | Some (scheme, authorityAndSuffix) \<Rightarrow>
             if scheme = [] then False
             else
               (let suffix = dropWhile (\<lambda>c. c \<noteq> CHR ''/'' \<and> c \<noteq> CHR ''?'' \<and> c \<noteq> CHR ''#'') authorityAndSuffix in
                if suffix \<noteq> [] \<and> suffix \<noteq> ''/'' then False
                else
                  (case url trimmedValue of
                     None \<Rightarrow> False
                   | Some (protocol, hostname, port) \<Rightarrow>
                       protocol \<in> set SUPPORTED_PROXY_PROTOCOLS \<and> hostname \<noteq> [] \<and> port \<noteq> ''0''))))"

definition HTTP_PROTOCOL_AUTO :: string where "HTTP_PROTOCOL_AUTO = ''auto''"
definition HTTP_PROTOCOL_HTTP1 :: string where "HTTP_PROTOCOL_HTTP1 = ''http1''"
definition MAX_HTTP2_CONNECTION_SHARDS :: rat where "MAX_HTTP2_CONNECTION_SHARDS = 8"

definition normalizeHttpProtocol :: "jsval \<Rightarrow> string" where
  "normalizeHttpProtocol val =
     (let normalized = js_lower (js_trim (js_str (js_or val (JStr [])))) in
      if normalized = HTTP_PROTOCOL_HTTP1 then HTTP_PROTOCOL_HTTP1 else HTTP_PROTOCOL_AUTO)"

definition normalizeHttp2ConnectionShards :: "jsval \<Rightarrow> jsval" where
  "normalizeHttp2ConnectionShards val =
     (if val = JUndef \<or> val = JNull \<or> val = JNum NaN \<or> val = JNum (Fin 0) then JNum (Fin 1)
      else if num_less (js_number val) (Fin 1) then JNum (Fin 1)
      else if num_less (Fin MAX_HTTP2_CONNECTION_SHARDS) (js_number val) then JNum (Fin MAX_HTTP2_CONNECTION_SHARDS)
      else val)"

text \<open>\<open>undefined\<close> for a blank text; \<open>None\<close> is the exception of \<open>JSON.parse\<close>.\<close>

definition parseOptionalJson :: "string option \<Rightarrow> jsval option" where
  "parseOptionalJson val = (if blank_opt val then Some JUndef else json_parse (opt_str val))"

fun isJsonObjectValue :: "jsval \<Rightarrow> bool" where
  "isJsonObjectValue (JObj fs) = True"
| "isJsonObjectValue _ = False"

definition isOptionalJsonObject :: "string option \<Rightarrow> bool" where
  "isOptionalJsonObject val =
     (case parseOptionalJson val of None \<Rightarrow> False | Some parsed \<Rightarrow> parsed = JUndef \<or> isJsonObjectValue parsed)"

definition isOptionalModelMapping :: "string option \<Rightarrow> bool" where
  "isOptionalModelMapping val =
     (case parseOptionalJson val of
        None \<Rightarrow> False
      | Some JUndef \<Rightarrow> True
      | Some (JObj fs) \<Rightarrow> list_all (\<lambda>(_, item). is_string item) fs
      | Some _ \<Rightarrow> False)"

definition statusCodeNumber :: "jsnum \<Rightarrow> bool" where
  "statusCodeNumber n \<longleftrightarrow> num_is_integer n \<and> num_le (Fin 100) n \<and> num_le n (Fin 599)"

definition isOptionalStatusCodeMapping :: "string option \<Rightarrow> bool" where
  "isOptionalStatusCodeMapping val =
     (case parseOptionalJson val of
        None \<Rightarrow> False
      | Some JUndef \<Rightarrow> True
      | Some (JObj fs) \<Rightarrow>
          list_all (\<lambda>(from, to). statusCodeNumber (js_number (JStr from)) \<and> statusCodeNumber (js_number to)) fs
      | Some _ \<Rightarrow> False)"

definition nonblank_string :: "jsval \<Rightarrow> bool" where
  "nonblank_string v = (case v of JStr s \<Rightarrow> js_trim s \<noteq> [] | _ \<Rightarrow> False)"

definition isCodexCredential :: "string option \<Rightarrow> bool" where
  "isCodexCredential val =
     (case parseOptionalJson val of
        None \<Rightarrow> False
      | Some parsed \<Rightarrow>
          parsed = JUndef \<or>
          isJsonObjectValue parsed \<and> nonblank_string (jprop parsed ''access_token'') \<and>
          nonblank_string (jprop parsed ''account_id''))"

definition isVertexJsonKey :: "string option \<Rightarrow> bool" where
  "isVertexJsonKey val =
     (case parseOptionalJson val of
        None \<Rightarrow> False
      | Some JUndef \<Rightarrow> True
      | Some (JArr items) \<Rightarrow> list_all isJsonObjectValue items
      | Some parsed \<Rightarrow> isJsonObjectValue parsed)"

text \<open>The issues of \<open>superRefine\<close>: a path and a message each, in order; the outer \<open>None\<close> is an
  exception of the validation of the routes.\<close>

type_synonym issue = "string \<times> string"

definition advancedCustomIssues :: "url_parser \<Rightarrow> ChannelFormValues \<Rightarrow> issue list option" where
  "advancedCustomIssues url f =
     (if form_type f = CHANNEL_TYPE_ADVANCED_CUSTOM then
        do {
          let config = parseAdvancedCustomConfig (Some (advanced_custom (form_typed f)));
          e \<leftarrow> validateAdvancedCustomConfig url config;
          relative \<leftarrow> advancedCustomConfigUsesRelativeUpstreamPath config;
          hasList \<leftarrow> (if upstream_model_update_check_enabled (form_typed f) = JBool True
            then hasValidAdvancedCustomModelListRoute url config else Some True);
          Some ((case e of None \<Rightarrow> [] | Some err \<Rightarrow> [(''advanced_custom'', message err)]) @
            (if relative \<and> blank_opt (form_base_url f)
             then [(''base_url'', ''Base URL is required when an advanced route uses an upstream path'')] else []) @
            (if upstream_model_update_check_enabled (form_typed f) = JBool True \<and> \<not> hasList
             then [(''upstream_model_update_check_enabled'', ''OpenAI Models route is required to enable upstream model checks'')]
             else []))
        }
      else Some [])"

definition credentialIssues :: "ChannelFormValues \<Rightarrow> issue list" where
  "credentialIssues f =
     (let batch = (case form_multi_key_mode f of None \<Rightarrow> False | Some m \<Rightarrow> m \<noteq> [] \<and> m \<noteq> ''single'') in
      (if form_type f = 57 then
         (if batch then [(''multi_key_mode'', ''Codex channels do not support batch creation'')] else []) @
         (if js_trim (form_key f) \<noteq> [] \<and> \<not> isCodexCredential (Some (form_key f))
          then [(''key'', ''Codex credential must be a JSON object with access_token and account_id'')] else [])
       else []) @
      (if form_type f = 41 \<and> vertex_key_type (form_typed f) = JStr ''json'' \<and> js_trim (form_key f) \<noteq> [] \<and>
          \<not> isVertexJsonKey (Some (form_key f))
       then [(''key'', ''Vertex AI service account key must be valid JSON'')] else []) @
      (if form_type f = 41 \<and> vertex_key_type (form_typed f) = JStr ''api_key'' \<and> batch
       then [(''multi_key_mode'', ''Vertex AI API Key mode does not support batch creation'')] else []))"

definition transportIssues :: "ChannelFormValues \<Rightarrow> issue list" where
  "transportIssues f =
     (let protocol = normalizeHttpProtocol (JStr (http_protocol (form_extra f)));
          shards = (case http2_connection_shards (form_extra f) of JUndef \<Rightarrow> Fin 1 | JNull \<Rightarrow> Fin 1 | v \<Rightarrow> js_number v) in
      (if num_less shards (Fin 1) \<or> num_less (Fin MAX_HTTP2_CONNECTION_SHARDS) shards
       then [(''http2_connection_shards'', ''HTTP/2 connection shards must be between 1 and 8'')] else []) @
      (if protocol = HTTP_PROTOCOL_HTTP1 \<and> num_less (Fin 1) shards
       then [(''http2_connection_shards'', ''HTTP/2 connection shards must be 1 when HTTP/1.1 is selected'')] else []))"

definition channelFormIssues :: "url_parser \<Rightarrow> ChannelFormValues \<Rightarrow> issue list option" where
  "channelFormIssues url f =
     do {
       adv \<leftarrow> advancedCustomIssues url f;
       Some
         ((if form_type f \<in> {3, 8, 36, 45, CHANNEL_TYPE_NEW_API} \<and> blank_opt (form_base_url f)
           then [(''base_url'', ''Base URL is required for this channel type'')] else []) @
          adv @
          (if form_type f \<in> {3, 18, 21, 39, 41, 49} \<and> blank_opt (form_other f)
           then [(''other'', ''This channel type requires additional configuration'')] else []) @
          credentialIssues f @ transportIssues f)
     }"

section \<open>Lists in a text\<close>

definition parseModels :: "string \<Rightarrow> string list" where
  "parseModels ms = (if ms = [] then [] else filter (\<lambda>m. 0 < length m) (map js_trim (split_on (CHR '','') ms)))"

definition parseGroups :: "string \<Rightarrow> string list" where
  "parseGroups groups =
     (if groups = [] then [] else filter (\<lambda>g. 0 < length g) (map js_trim (split_on (CHR '','') groups)))"

definition formatModels :: "string list \<Rightarrow> string" where
  "formatModels ms = join_with '','' ms"

definition formatGroups :: "string list \<Rightarrow> string" where
  "formatGroups groups = join_with '','' groups"

definition validateJSON :: "string \<Rightarrow> bool" where
  "validateJSON s = (if s = [] \<or> js_trim s = [] then True else json_parse s \<noteq> None)"

definition validateModelMapping :: "string \<Rightarrow> bool" where
  "validateModelMapping s = (if s = [] \<or> js_trim s = [] then True else validateJSON s)"

section \<open>From the channel to the form\<close>

definition defaultExtraSettings :: ChannelExtraSettings where
  "defaultExtraSettings =
     \<lparr>force_format = JBool False, thinking_to_content = JBool False, proxy = JStr [],
      http_protocol = HTTP_PROTOCOL_AUTO, http2_connection_shards = JNum (Fin 1),
      pass_through_body_enabled = JBool False, system_prompt = JStr [], system_prompt_override = JBool False\<rparr>"

definition defaultTypeSettings :: ChannelTypeSettings where
  "defaultTypeSettings =
     \<lparr>is_enterprise_account = JBool False, vertex_key_type = JStr ''json'', aws_key_type = JStr ''ak_sk'',
      azure_responses_version = JStr [], allow_service_tier = JBool False, disable_store = JBool False,
      allow_safety_identifier = JBool False, allow_include_obfuscation = JBool False,
      allow_inference_geo = JBool False, allow_speed = JBool False, claude_beta_query = JBool False,
      disable_task_polling_sleep = JBool False, upstream_model_update_check_enabled = JBool False,
      upstream_model_update_auto_sync_enabled = JBool False, upstream_model_update_ignored_models = [],
      advanced_custom = []\<rparr>"

definition CHANNEL_FORM_DEFAULT_VALUES :: ChannelFormValues where
  "CHANNEL_FORM_DEFAULT_VALUES =
     \<lparr>form_name = [], form_type = 1, form_base_url = Some [], form_key = [], form_openai_organization = Some [],
      form_models = [], form_group = [''default''], form_model_mapping = Some [], form_priority = Some 0,
      form_weight = Some 0, form_test_model = Some [], form_auto_ban = Some 1, form_status = 1,
      form_status_code_mapping = Some [], form_tag = Some [], form_remark = Some [], form_setting = Some [],
      form_param_override = Some [], form_header_override = Some [], form_settings = Some ''{}'', form_other = Some [],
      form_multi_key_mode = Some ''single'', form_multi_key_type = Some ''random'', form_batch_prefix = Some False,
      form_key_mode = Some ''append'', form_extra = defaultExtraSettings, form_typed = defaultTypeSettings\<rparr>"

text \<open>The settings of a parsed value; reading a property of \<open>null\<close> throws, which the handler catches.\<close>

definition parsedExtraSettings :: "jsval \<Rightarrow> ChannelExtraSettings" where
  "parsedExtraSettings parsed =
     (let protocol = normalizeHttpProtocol (jprop parsed ''http_protocol'');
          shards = normalizeHttp2ConnectionShards (jprop parsed ''http2_connection_shards'') in
      \<lparr>force_format = js_or (jprop parsed ''force_format'') (JBool False),
       thinking_to_content = js_or (jprop parsed ''thinking_to_content'') (JBool False),
       proxy = js_or (jprop parsed ''proxy'') (JStr []),
       http_protocol = protocol,
       http2_connection_shards = (if protocol = HTTP_PROTOCOL_HTTP1 then JNum (Fin 1) else shards),
       pass_through_body_enabled = js_or (jprop parsed ''pass_through_body_enabled'') (JBool False),
       system_prompt = js_or (jprop parsed ''system_prompt'') (JStr []),
       system_prompt_override = js_or (jprop parsed ''system_prompt_override'') (JBool False)\<rparr>)"

definition readExtraSettings :: "string option \<Rightarrow> ChannelExtraSettings" where
  "readExtraSettings setting =
     (if opt_str setting = [] then defaultExtraSettings
      else
        (case json_parse (opt_str setting) of
           None \<Rightarrow> defaultExtraSettings
         | Some JNull \<Rightarrow> defaultExtraSettings
         | Some parsed \<Rightarrow> parsedExtraSettings parsed))"

definition parsedTypeSettings :: "jsval \<Rightarrow> ChannelTypeSettings" where
  "parsedTypeSettings parsed =
     \<lparr>is_enterprise_account = is_true (jprop parsed ''openrouter_enterprise''),
      vertex_key_type = js_or (jprop parsed ''vertex_key_type'') (JStr ''json''),
      aws_key_type = js_or (jprop parsed ''aws_key_type'') (JStr ''ak_sk''),
      azure_responses_version = js_or (jprop parsed ''azure_responses_version'') (JStr []),
      allow_service_tier = is_true (jprop parsed ''allow_service_tier''),
      disable_store = is_true (jprop parsed ''disable_store''),
      allow_safety_identifier = is_true (jprop parsed ''allow_safety_identifier''),
      allow_include_obfuscation = is_true (jprop parsed ''allow_include_obfuscation''),
      allow_inference_geo = is_true (jprop parsed ''allow_inference_geo''),
      allow_speed = is_true (jprop parsed ''allow_speed''),
      claude_beta_query = is_true (jprop parsed ''claude_beta_query''),
      disable_task_polling_sleep = is_true (jprop parsed ''disable_task_polling_sleep''),
      upstream_model_update_check_enabled = is_true (jprop parsed ''upstream_model_update_check_enabled''),
      upstream_model_update_auto_sync_enabled = is_true (jprop parsed ''upstream_model_update_auto_sync_enabled''),
      upstream_model_update_ignored_models =
        (case jprop parsed ''upstream_model_update_ignored_models'' of JArr vs \<Rightarrow> js_str (JArr vs) | _ \<Rightarrow> []),
      advanced_custom =
        (if truthy (jprop parsed ''advanced_custom'')
         then (case stringifyAdvancedCustomConfig (jprop parsed ''advanced_custom'') of None \<Rightarrow> [] | Some s \<Rightarrow> s)
         else [])\<rparr>"

definition readTypeSettings :: "string \<Rightarrow> ChannelTypeSettings" where
  "readTypeSettings settings =
     (if settings = [] then defaultTypeSettings
      else
        (case json_parse settings of
           None \<Rightarrow> defaultTypeSettings
         | Some JNull \<Rightarrow> defaultTypeSettings
         | Some parsed \<Rightarrow> parsedTypeSettings parsed))"

definition opt_num :: "rat option \<Rightarrow> rat" where
  "opt_num n = (case n of Some x \<Rightarrow> x | None \<Rightarrow> 0)"

definition transformChannelToFormDefaults :: "Channel \<Rightarrow> ChannelFormValues" where
  "transformChannelToFormDefaults ch =
     \<lparr>form_name = ch_name ch, form_type = ch_type ch, form_base_url = Some (opt_str (ch_base_url ch)), form_key = [],
      form_openai_organization = Some (opt_str (ch_openai_organization ch)), form_models = ch_models ch,
      form_group = parseGroups (if ch_group ch \<noteq> [] then ch_group ch else ''default''),
      form_model_mapping = Some (opt_str (ch_model_mapping ch)), form_priority = Some (opt_num (ch_priority ch)),
      form_weight = Some (opt_num (ch_weight ch)), form_test_model = Some (opt_str (ch_test_model ch)),
      form_auto_ban = Some (case ch_auto_ban ch of Some x \<Rightarrow> x | None \<Rightarrow> 1), form_status = ch_status ch,
      form_status_code_mapping = Some (opt_str (ch_status_code_mapping ch)), form_tag = Some (opt_str (ch_tag ch)),
      form_remark = Some (ch_remark ch), form_setting = Some (opt_str (ch_setting ch)),
      form_param_override = Some (opt_str (ch_param_override ch)),
      form_header_override = Some (opt_str (ch_header_override ch)),
      form_settings = Some (if ch_settings ch \<noteq> [] then ch_settings ch else ''{}''), form_other = Some (ch_other ch),
      form_multi_key_mode = Some ''single'',
      form_multi_key_type = Some (if ch_multi_key_mode ch \<noteq> [] then ch_multi_key_mode ch else ''random''),
      form_batch_prefix = Some False, form_key_mode = Some ''append'',
      form_extra = readExtraSettings (ch_setting ch), form_typed = readTypeSettings (ch_settings ch)\<rparr>"

section \<open>From the form to the texts of the API\<close>

text \<open>The object \<open>settingObj\<close>; a proxy that is no string throws.\<close>

definition settingObj :: "ChannelExtraSettings \<Rightarrow> jsval option" where
  "settingObj x =
     do {
       p \<leftarrow> opt_trim (proxy x);
       let protocol = normalizeHttpProtocol (JStr (http_protocol x));
       let shards = (if protocol = HTTP_PROTOCOL_HTTP1 then JNum (Fin 1)
         else normalizeHttp2ConnectionShards (http2_connection_shards x));
       Some (JObj
         ([(''force_format'', js_or (force_format x) (JBool False)),
           (''thinking_to_content'', js_or (thinking_to_content x) (JBool False)),
           (''proxy'', JStr p),
           (''pass_through_body_enabled'', js_or (pass_through_body_enabled x) (JBool False)),
           (''system_prompt'', js_or (system_prompt x) (JStr [])),
           (''system_prompt_override'', js_or (system_prompt_override x) (JBool False))] @
          (if protocol = HTTP_PROTOCOL_HTTP1 then [(''http_protocol'', JStr HTTP_PROTOCOL_HTTP1)]
           else if num_less (Fin 1) (js_number shards) then [(''http2_connection_shards'', shards)]
           else [])))
     }"

definition buildSettingJSON :: "ChannelFormValues \<Rightarrow> string option" where
  "buildSettingJSON f = map_option json_stringify (settingObj (form_extra f))"

text \<open>\<open>if (c) o[k] = v else if (k in o) delete o[k]\<close>.\<close>

definition obj_delete :: "string \<Rightarrow> (string, jsval) omap \<Rightarrow> (string, jsval) omap" where
  "obj_delete k fs = filter (\<lambda>(k', _). k' \<noteq> k) fs"

definition set_or_delete :: "bool \<Rightarrow> string \<Rightarrow> jsval \<Rightarrow> (string, jsval) omap \<Rightarrow> (string, jsval) omap" where
  "set_or_delete c k v fs =
     (if c then om_set k v fs else if om_get fs k \<noteq> None then obj_delete k fs else fs)"

definition credentialSettings :: "ChannelFormValues \<Rightarrow> (string, jsval) omap \<Rightarrow> (string, jsval) omap" where
  "credentialSettings f fs =
     (let t = form_typed f;
          s1 = set_or_delete (form_type f = 41) ''vertex_key_type'' (js_or (vertex_key_type t) (JStr ''json'')) fs;
          s2 = set_or_delete (form_type f = 3 \<and> truthy (azure_responses_version t)) ''azure_responses_version''
            (azure_responses_version t) s1;
          s3 = set_or_delete (form_type f = 20) ''openrouter_enterprise'' (is_true (is_enterprise_account t)) s2 in
      set_or_delete (form_type f = 33) ''aws_key_type'' (js_or (aws_key_type t) (JStr ''ak_sk'')) s3)"

definition passthroughSettings :: "ChannelFormValues \<Rightarrow> (string, jsval) omap \<Rightarrow> (string, jsval) omap" where
  "passthroughSettings f fs =
     (let t = form_typed f;
          openai = (form_type f \<in> set OPENAI_FIELD_PASSTHROUGH_TYPES);
          claude = (form_type f \<in> set CLAUDE_FIELD_PASSTHROUGH_TYPES);
          s1 = set_or_delete (form_type f \<in> set FIELD_PASSTHROUGH_TYPES) ''allow_service_tier''
            (is_true (allow_service_tier t)) fs;
          s2 = set_or_delete openai ''disable_store'' (is_true (disable_store t)) s1;
          s3 = set_or_delete openai ''allow_safety_identifier'' (is_true (allow_safety_identifier t)) s2;
          s4 = set_or_delete openai ''allow_include_obfuscation'' (is_true (allow_include_obfuscation t)) s3;
          s5 = set_or_delete (openai \<or> claude) ''allow_inference_geo'' (is_true (allow_inference_geo t)) s4;
          s6 = set_or_delete claude ''allow_speed'' (is_true (allow_speed t)) s5;
          s7 = set_or_delete (form_type f = 14) ''claude_beta_query'' (is_true (claude_beta_query t)) s6 in
      om_set ''disable_task_polling_sleep'' (is_true (disable_task_polling_sleep t)) s7)"

definition ignoredModels :: "string \<Rightarrow> jsval" where
  "ignoredModels s = JArr (map JStr (os_of (filter (\<lambda>m. m \<noteq> []) (map js_trim (split_on (CHR '','') s)))))"

definition upstreamUpdateSettings :: "ChannelFormValues \<Rightarrow> (string, jsval) omap \<Rightarrow> (string, jsval) omap" where
  "upstreamUpdateSettings f fs =
     (if form_type f \<in> set MODEL_FETCHABLE_TYPES then
        (let t = form_typed f;
             checkEnabled = is_true (upstream_model_update_check_enabled t);
             s1 = om_set ''upstream_model_update_check_enabled'' checkEnabled fs;
             s2 = om_set ''upstream_model_update_auto_sync_enabled''
               (JBool (checkEnabled = JBool True \<and> upstream_model_update_auto_sync_enabled t = JBool True)) s1;
             s3 = om_set ''upstream_model_update_ignored_models''
               (ignoredModels (upstream_model_update_ignored_models t)) s2;
             s4 = (if (case om_get s3 ''upstream_model_update_last_detected_models'' of Some (JArr _) \<Rightarrow> False | _ \<Rightarrow> True) \<or>
                     checkEnabled \<noteq> JBool True
                   then om_set ''upstream_model_update_last_detected_models'' (JArr []) s3 else s3) in
         (if (case om_get s4 ''upstream_model_update_last_check_time'' of Some v \<Rightarrow> \<not> is_number v | None \<Rightarrow> True)
          then om_set ''upstream_model_update_last_check_time'' (JNum (Fin 0)) s4 else s4))
      else fs)"

definition advancedCustomSettings :: "ChannelFormValues \<Rightarrow> (string, jsval) omap \<Rightarrow> (string, jsval) omap" where
  "advancedCustomSettings f fs =
     (if form_type f = CHANNEL_TYPE_ADVANCED_CUSTOM then
        (case parseAdvancedCustomConfig (Some (advanced_custom (form_typed f))) of
           None \<Rightarrow> fs
         | Some config \<Rightarrow> om_set ''advanced_custom'' (config_json config) fs)
      else if om_get fs ''advanced_custom'' \<noteq> None then obj_delete ''advanced_custom'' fs
      else fs)"

definition settingsFields :: "ChannelFormValues \<Rightarrow> (string, jsval) omap \<Rightarrow> (string, jsval) omap" where
  "settingsFields f fs =
     advancedCustomSettings f (upstreamUpdateSettings f (passthroughSettings f (credentialSettings f fs)))"

text \<open>Assigning a property of \<open>null\<close> or of a primitive value throws; the properties set on an array
  are not written.\<close>

definition buildSettingsJSON :: "ChannelFormValues \<Rightarrow> string option" where
  "buildSettingsJSON f =
     (let existing =
            (if opt_str (form_settings f) \<noteq> [] \<and> opt_str (form_settings f) \<noteq> ''{}''
             then (case json_parse (opt_str (form_settings f)) of None \<Rightarrow> JObj [] | Some v \<Rightarrow> v)
             else JObj []) in
      case existing of
        JObj fs \<Rightarrow> Some (json_stringify (JObj (settingsFields f fs)))
      | JArr vs \<Rightarrow> Some (json_stringify (JArr vs))
      | _ \<Rightarrow> None)"

section \<open>Payloads\<close>

definition normalizeBaseUrl :: "string option \<Rightarrow> string" where
  "normalizeBaseUrl val = rev (dropWhile (\<lambda>c. c = CHR ''/'') (rev (js_trim (opt_str val))))"

text \<open>\<open>s || null\<close> and \<open>n || null\<close>.\<close>

definition or_null :: "string option \<Rightarrow> jsval" where
  "or_null so = (if opt_str so \<noteq> [] then JStr (opt_str so) else JNull)"

definition num_or_null :: "rat option \<Rightarrow> jsval" where
  "num_or_null n = (if opt_num n \<noteq> 0 then JNum (Fin (opt_num n)) else JNull)"

definition empty_to_null :: "jsval \<Rightarrow> jsval" where
  "empty_to_null v = (if v = JStr [] then JNull else v)"

record CreatePayload =
  mode :: string
  payload_multi_key_mode :: "string option"
  payload_batch_prefix :: "bool option"
  payload_channel :: "(string, jsval) omap"

definition transformFormDataToCreatePayload :: "ChannelFormValues \<Rightarrow> CreatePayload option" where
  "transformFormDataToCreatePayload f =
     do {
       setting \<leftarrow> buildSettingJSON f;
       settings \<leftarrow> buildSettingsJSON f;
       let m = (if opt_str (form_multi_key_mode f) \<noteq> [] then opt_str (form_multi_key_mode f) else ''single'');
       let channel =
         [(''name'', JStr (form_name f)), (''type'', JNum (Fin (of_nat (form_type f)))),
          (''base_url'', or_null (Some (normalizeBaseUrl (form_base_url f)))), (''key'', JStr (form_key f)),
          (''openai_organization'', or_null (form_openai_organization f)), (''models'', JStr (form_models f)),
          (''group'', JStr (formatGroups (form_group f))), (''model_mapping'', or_null (form_model_mapping f)),
          (''priority'', num_or_null (form_priority f)), (''weight'', num_or_null (form_weight f)),
          (''test_model'', or_null (form_test_model f)),
          (''auto_ban'', JNum (Fin (case form_auto_ban f of Some x \<Rightarrow> x | None \<Rightarrow> 1))),
          (''status'', JNum (Fin (of_nat (form_status f)))),
          (''status_code_mapping'', or_null (form_status_code_mapping f)), (''tag'', or_null (form_tag f)),
          (''remark'', JStr (opt_str (form_remark f))), (''setting'', JStr setting),
          (''param_override'', or_null (form_param_override f)),
          (''header_override'', or_null (form_header_override f)), (''settings'', JStr settings),
          (''other'', JStr (opt_str (form_other f)))];
       Some \<lparr>mode = m,
         payload_multi_key_mode = (if m = ''multi_to_single'' then form_multi_key_type f else None),
         payload_batch_prefix = (if m = ''batch'' then form_batch_prefix f else None),
         payload_channel = map (\<lambda>(k, v). (k, empty_to_null v)) channel\<rparr>
     }"

definition transformFormDataToUpdatePayload :: "ChannelFormValues \<Rightarrow> nat \<Rightarrow> (string, jsval) omap option" where
  "transformFormDataToUpdatePayload f channelId =
     do {
       setting \<leftarrow> buildSettingJSON f;
       settings \<leftarrow> buildSettingsJSON f;
       let payload =
         [(''id'', JNum (Fin (of_nat channelId))), (''name'', JStr (form_name f)),
          (''type'', JNum (Fin (of_nat (form_type f)))),
          (''base_url'', or_null (Some (normalizeBaseUrl (form_base_url f)))),
          (''openai_organization'', or_null (form_openai_organization f)), (''models'', JStr (form_models f)),
          (''group'', JStr (formatGroups (form_group f))), (''model_mapping'', or_null (form_model_mapping f)),
          (''priority'', JNum (Fin (opt_num (form_priority f)))), (''weight'', JNum (Fin (opt_num (form_weight f)))),
          (''test_model'', or_null (form_test_model f)),
          (''auto_ban'', JNum (Fin (case form_auto_ban f of Some x \<Rightarrow> x | None \<Rightarrow> 1))),
          (''status_code_mapping'', or_null (form_status_code_mapping f)), (''tag'', or_null (form_tag f)),
          (''remark'', JStr (opt_str (form_remark f))), (''setting'', JStr setting),
          (''param_override'', or_null (form_param_override f)),
          (''header_override'', or_null (form_header_override f)), (''settings'', JStr settings),
          (''other'', JStr (opt_str (form_other f)))];
       let withKey = (if form_key f \<noteq> [] \<and> js_trim (form_key f) \<noteq> [] then om_set ''key'' (JStr (form_key f)) payload
         else payload);
       let cleaned = map (\<lambda>(k, v). (k, empty_to_null v)) withKey;
       Some (fold (\<lambda>(k, v) m. om_set k v m)
         [(''base_url'', JStr (normalizeBaseUrl (form_base_url f))),
          (''openai_organization'', JStr (opt_str (form_openai_organization f))),
          (''test_model'', JStr (opt_str (form_test_model f))), (''tag'', JStr (opt_str (form_tag f))),
          (''remark'', JStr (opt_str (form_remark f))), (''model_mapping'', JStr (opt_str (form_model_mapping f))),
          (''status_code_mapping'', JStr (opt_str (form_status_code_mapping f))),
          (''param_override'', JStr (opt_str (form_param_override f))),
          (''header_override'', JStr (opt_str (form_header_override f)))]
         cleaned)
     }"

end
