(* ===== verification/Advanced_Custom_Laws.thy ===== *)
theory Advanced_Custom_Laws
  imports Advanced_Custom
begin

text \<open>
  What the routes of \<open>Advanced_Custom\<close> guarantee: writing a configuration and reading it back, the
  conditions under which validation accepts one, the route an error points at, and that the
  templates and the defaults of every converter are accepted.
\<close>

section \<open>Writing and reading\<close>

lemma json_wf_literal:
  assumes "distinct (map fst fs)" and "\<forall>(k, _) \<in> set fs. \<not> is_digit (hd k)"
    and "\<forall>(_, v) \<in> set fs. v = JUndef \<or> json_wf v"
  shows "json_wf (js_literal fs)"
proof -
  let ?gs = "filter (\<lambda>(_, v). v \<noteq> JUndef) fs"
  have "js_object ?gs = JObj ?gs"
    using assms(1,2) by (intro js_object_plain) (auto simp: distinct_map_filter)
  then show ?thesis using assms(3) by (auto simp: js_literal_def)
qed

lemma not_digit_keys [simp]:
  "\<not> is_digit CHR ''a''" "\<not> is_digit CHR ''c''" "\<not> is_digit CHR ''i''" "\<not> is_digit CHR ''m''"
  "\<not> is_digit CHR ''n''" "\<not> is_digit CHR ''t''" "\<not> is_digit CHR ''u''" "\<not> is_digit CHR ''v''"
  by (simp_all add: is_digit_def)

lemma jget_wf: "json_wf v \<Longrightarrow> jget v k = Some w \<Longrightarrow> w = JUndef \<or> json_wf w"
  using json_wf_jprop [of v k] by (cases v) auto

lemma js_or_wf: "v = JUndef \<or> json_wf v \<Longrightarrow> json_wf d \<Longrightarrow> json_wf (js_or v d)"
  by (auto simp: js_or_def)

lemma normalizeRouteAuth_wf:
  assumes "a = JUndef \<or> json_wf a" and "normalizeRouteAuth a = Some (Some b)"
  shows "json_wf (auth_json b)"
proof -
  have a: "json_wf a" using assms by (auto simp: normalizeRouteAuth_def)
  from assms(2) obtain t n v where "jget a ''type'' = Some t" "jget a ''name'' = Some n" "jget a ''value'' = Some v"
    "b = \<lparr>authType = t, authName = js_or n (JStr []), authValue = js_or v (JStr [])\<rparr>"
    by (auto simp: normalizeRouteAuth_def bind_eq_Some_conv split: if_splits)
  then show ?thesis
    using jget_wf [OF a] js_or_wf unfolding auth_json_def by (intro json_wf_literal) auto
qed

lemma normalizeRoute_wf:
  assumes v: "json_wf v" and "normalizeAdvancedCustomRoute v = Some r"
  shows "json_wf (route_json r)"
proof -
  from assms(2) obtain inPath upPath conv rm ms a a'
    where D: "jget v ''incoming_path'' = Some inPath" "jget v ''converter'' = Some conv" "jget v ''auth'' = Some a"
      "normalizeRouteAuth a = Some a'"
      "r = \<lparr>incoming_path = js_or inPath (JStr []), upstream_path = upPath, converter = js_or conv (JStr ''none''),
         models = (if 0 < length ms then Some ms else None), auth = a'\<rparr>"
    by (auto simp: normalizeAdvancedCustomRoute_def bind_eq_Some_conv)
  have "json_wf (js_or inPath (JStr []))" "json_wf (js_or conv (JStr ''none''))"
    using jget_wf [OF v D(1)] jget_wf [OF v D(2)] js_or_wf by simp_all
  moreover have "\<forall>b. a' = Some b \<longrightarrow> json_wf (auth_json b)"
    using normalizeRouteAuth_wf [OF jget_wf [OF v D(3)]] D(4) by blast
  ultimately show ?thesis
    unfolding route_json_def by (intro json_wf_literal) (auto simp: D(5) split: option.split)
qed

lemma normalizeConfig_wf:
  assumes v: "json_wf v" and c: "normalizeAdvancedCustomConfig v = Some c"
  shows "json_wf (config_json c)"
proof -
  have "json_wf (route_json r)" if r: "r \<in> set (advanced_routes c)" for r
  proof -
    from c obtain w where w: "jget v ''advanced_routes'' = Some w"
      "(case w of JArr rs \<Rightarrow> those (map normalizeAdvancedCustomRoute rs) | _ \<Rightarrow> Some []) = Some (advanced_routes c)"
      by (auto simp: normalizeAdvancedCustomConfig_def bind_eq_Some_conv)
    with r obtain rs where rs: "w = JArr rs" "those (map normalizeAdvancedCustomRoute rs) = Some (advanced_routes c)"
      by (cases w) auto
    from those_SomeD [OF rs(2)] r have "Some r \<in> normalizeAdvancedCustomRoute ` set rs"
      by (metis image_eqI list.set_map)
    then obtain x where "x \<in> set rs" "normalizeAdvancedCustomRoute x = Some r" by auto
    moreover have "\<forall>x \<in> set rs. json_wf x" using jget_wf [OF v w(1)] rs(1) by simp
    ultimately show ?thesis using normalizeRoute_wf by blast
  qed
  then show ?thesis
    unfolding config_json_def by (intro json_wf_literal) auto
qed

lemma json_object_text: "js_trim (json_print gap ind (JObj fs)) \<noteq> []"
proof -
  have "layout gap ind ''{'' ''}'' items \<noteq> [] \<and> hd (layout gap ind ''{'' ''}'' items) = CHR ''{'' \<and>
      last (layout gap ind ''{'' ''}'' items) = CHR ''}''" for gap ind items
    by (simp add: layout_def)
  moreover have "solid (CHR ''{'')" "solid (CHR ''}'')" by (simp_all add: solid_def js_ws_def)
  ultimately show ?thesis
    unfolding json_print.simps by (metis js_trim_solid)
qed

lemma json_pretty_object: "js_trim (json_pretty (JObj fs)) \<noteq> []" "js_trim (json_stringify (JObj fs)) \<noteq> []"
  by (simp_all add: json_pretty_def json_stringify_def json_object_text del: json_print.simps)

lemma parse_pretty:
  assumes "json_wf (config_json c)" and "normalizeAdvancedCustomConfig (config_json c) = Some c"
  shows "parseAdvancedCustomConfig (Some (json_pretty (config_json c))) = Some c"
proof -
  obtain fs where fs: "config_json c = JObj fs" by (auto simp: config_json_def js_literal_def)
  show ?thesis
    using json_parse_pretty [OF assms(1)] json_pretty_object(1) [of fs] assms(2) by (simp add: parseAdvancedCustomConfig_def fs)
qed

text \<open>
  C38. A configuration of advanced routes that is written as text is read back as its normal form, and
  writing that form gives the same text again.
\<close>

theorem advanced_custom_roundtrip:
  assumes "json_wf v" and "stringifyAdvancedCustomConfig v = Some s"
  shows "\<exists>c. normalizeAdvancedCustomConfig v = Some c \<and> parseAdvancedCustomConfig (Some s) = Some c \<and>
    stringifyAdvancedCustomConfig (config_json c) = Some s"
proof -
  from assms(2) obtain c where c: "normalizeAdvancedCustomConfig v = Some c" "s = json_pretty (config_json c)"
    by (auto simp: stringifyAdvancedCustomConfig_def)
  then show ?thesis
    using normalizeConfig_idem [OF c(1)] parse_pretty [OF normalizeConfig_wf [OF assms(1) c(1)]]
    by (simp add: stringifyAdvancedCustomConfig_def)
qed

section \<open>Valid configurations\<close>

text \<open>What makes a route acceptable on its own, and which later routes an earlier one tolerates: on
  the same path it must not be a catch-all, and the model rules must not overlap.\<close>

definition routePath :: "AdvancedCustomRoute \<Rightarrow> string" where
  "routePath r = (case incoming_path r of JStr s \<Rightarrow> js_trim s | _ \<Rightarrow> [])"

definition routeRules :: "AdvancedCustomRoute \<Rightarrow> string list" where
  "routeRules r = (case models r of None \<Rightarrow> [] | Some ms \<Rightarrow> ms)"

definition authOk :: "AdvancedCustomRouteAuth option \<Rightarrow> bool" where
  "authOk ra \<longleftrightarrow>
     (\<forall>a. ra = Some a \<longrightarrow> authType a = JStr ''none'' \<or>
        (authType a = JStr ''header'' \<or> authType a = JStr ''query'') \<and>
        (\<exists>n v. authName a = JStr n \<and> js_trim n \<noteq> [] \<and> authValue a = JStr v \<and> js_trim v \<noteq> []))"

definition routeOk :: "url_parser \<Rightarrow> AdvancedCustomRoute \<Rightarrow> bool" where
  "routeOk url r \<longleftrightarrow>
     routePath r \<noteq> [] \<and> prefix ''/'' (routePath r) \<and> \<not> js_includes ''?'' (routePath r) \<and>
     upstream_path r \<noteq> [] \<and> isFullHttpURLOrAbsolutePath url (upstream_path r) \<and>
     isAdvancedCustomConverter (converter r) \<and> isConverterPathAllowed (routePath r) (js_str (converter r)) \<and>
     authOk (auth r) \<and> distinct (routeRules r) \<and> ''re:'' \<notin> set (routeRules r) \<and>
     (routePath r = ADVANCED_CUSTOM_MODEL_LIST_PATH \<longrightarrow>
        routeRules r = [] \<and> converter r = JStr ''none'' \<and> \<not> js_includes ''{model}'' (upstream_path r))"

definition compatible :: "AdvancedCustomRoute \<Rightarrow> AdvancedCustomRoute \<Rightarrow> bool" where
  "compatible q r \<longleftrightarrow>
     (routePath q = routePath r \<longrightarrow> routeRules q \<noteq> [] \<and> set (routeRules q) \<inter> set (routeRules r) = {})"

definition ValidRoutes :: "url_parser \<Rightarrow> AdvancedCustomRoute list \<Rightarrow> bool" where
  "ValidRoutes url rs \<longleftrightarrow> (\<forall>r \<in> set rs. routeOk url r) \<and> sorted_wrt compatible rs"

definition ValidConfig :: "url_parser \<Rightarrow> AdvancedCustomConfig \<Rightarrow> bool" where
  "ValidConfig url c \<longleftrightarrow> advanced_routes c \<noteq> [] \<and> ValidRoutes url (advanced_routes c)"

section \<open>One route\<close>

lemma opt_trim_eq: "opt_trim v = Some s \<Longrightarrow> s \<noteq> [] \<Longrightarrow> \<exists>t. v = JStr t \<and> s = js_trim t"
  by (cases v) auto

lemma validateRouteAuth_ok: "validateRouteAuth ra = Some None \<longleftrightarrow> authOk ra"
proof (cases ra)
  case (Some a)
  have trim: "(\<exists>s. opt_trim v = Some s \<and> s \<noteq> []) \<longleftrightarrow> (\<exists>n. v = JStr n \<and> js_trim n \<noteq> [])" for v
    by (cases v) auto
  have "validateRouteAuth ra = Some None \<longleftrightarrow>
      authType a = JStr ''none'' \<or> (authType a = JStr ''header'' \<or> authType a = JStr ''query'') \<and>
      (\<exists>s. opt_trim (authName a) = Some s \<and> s \<noteq> []) \<and> (\<exists>s. opt_trim (authValue a) = Some s \<and> s \<noteq> [])"
    by (auto simp: validateRouteAuth_def Some bind_eq_Some_conv split: if_splits)
  then show ?thesis unfolding trim by (auto simp: authOk_def Some)
qed (simp add: validateRouteAuth_def authOk_def)

lemma empty_regex: "getAdvancedCustomModelRuleKind m = Regex \<and> getAdvancedCustomRegexModelPattern m = [] \<longleftrightarrow> m = ''re:''"
  by (auto simp: getAdvancedCustomModelRuleKind_def getAdvancedCustomRegexModelPattern_def
      ADVANCED_CUSTOM_MODEL_REGEX_PREFIX_def prefix_def split: if_splits)

lemma checkRouteModels_Inr:
  "(\<exists>st'. checkRouteModels i ms seen st = Inr st') \<longleftrightarrow>
     distinct ms \<and> set ms \<inter> set seen = {} \<and> ''re:'' \<notin> set ms \<and> (\<forall>m \<in> set ms. om_get st m = None)"
  by (induction i ms seen st rule: checkRouteModels.induct) (auto simp: empty_regex om_get_set split: if_splits)

lemma checkRouteModels_get:
  "checkRouteModels i ms seen st = Inr st' \<Longrightarrow> om_get st' x \<noteq> None \<longleftrightarrow> om_get st x \<noteq> None \<or> x \<in> set ms"
  by (induction i ms seen st rule: checkRouteModels.induct) (auto simp: om_get_set split: if_splits)

definition pathState :: "route_models \<Rightarrow> string \<Rightarrow> RouteModelsState" where
  "pathState m p = (case om_get m p of Some st \<Rightarrow> st | None \<Rightarrow> \<lparr>catchAllIndex = None, stateModels = []\<rparr>)"

lemma pathState_set: "pathState (om_set p st m) p' = (if p' = p then st else pathState m p')"
  by (simp add: pathState_def om_get_set)

lemma validateRouteModels_Inr:
  "(\<exists>m'. validateAdvancedCustomRouteModels i p ms m = Inr m') \<longleftrightarrow>
     catchAllIndex (pathState m p) = None \<and> distinct ms \<and> ''re:'' \<notin> set ms \<and>
     (\<forall>x \<in> set ms. om_get (stateModels (pathState m p)) x = None)"
proof (cases "ms = []")
  case False
  then show ?thesis
    using checkRouteModels_Inr [of i ms "[]" "stateModels (pathState m p)"]
    unfolding validateAdvancedCustomRouteModels_def pathState_def [symmetric] Let_def
    by (auto split: sum.splits)
qed (auto simp: validateAdvancedCustomRouteModels_def pathState_def [symmetric] Let_def)

lemma validateRouteModels_effect:
  assumes "validateAdvancedCustomRouteModels i p ms m = Inr m'"
  shows "catchAllIndex (pathState m' p') \<noteq> None \<longleftrightarrow> catchAllIndex (pathState m p') \<noteq> None \<or> p' = p \<and> ms = []"
    and "om_get (stateModels (pathState m' p')) x \<noteq> None \<longleftrightarrow>
      om_get (stateModels (pathState m p')) x \<noteq> None \<or> p' = p \<and> x \<in> set ms"
proof -
  consider "ms = []" "m' = om_set p ((pathState m p)\<lparr>catchAllIndex := Some i\<rparr>) m"
    | ms' where "ms \<noteq> []" "checkRouteModels i ms [] (stateModels (pathState m p)) = Inr ms'"
      "m' = om_set p ((pathState m p)\<lparr>stateModels := ms'\<rparr>) m"
    using assms unfolding validateAdvancedCustomRouteModels_def pathState_def [symmetric] Let_def
    by (auto split: if_splits sum.splits)
  note cs = this
  show "catchAllIndex (pathState m' p') \<noteq> None \<longleftrightarrow> catchAllIndex (pathState m p') \<noteq> None \<or> p' = p \<and> ms = []"
    by (cases rule: cs) (auto simp: pathState_set)
  show "om_get (stateModels (pathState m' p')) x \<noteq> None \<longleftrightarrow>
      om_get (stateModels (pathState m p')) x \<noteq> None \<or> p' = p \<and> x \<in> set ms"
  proof (cases rule: cs)
    case (2 ms')
    then show ?thesis using checkRouteModels_get [OF 2(2), of x] by (auto simp: pathState_set)
  qed (auto simp: pathState_set)
qed

lemma validateModelList_Inr:
  "validateModelListRoute i p up conv ms li = Inr li' \<longleftrightarrow>
     (p = ADVANCED_CUSTOM_MODEL_LIST_PATH \<longrightarrow>
        li = None \<and> ms = [] \<and> conv = JStr ''none'' \<and> \<not> js_includes ''{model}'' up) \<and>
     li' = (if p = ADVANCED_CUSTOM_MODEL_LIST_PATH then Some i else li)"
  by (auto simp: validateModelListRoute_def)

lemma normalRoute_rules:
  "normalRoute r \<Longrightarrow> (case models r of None \<Rightarrow> [] | Some ms \<Rightarrow> filter (\<lambda>m. m \<noteq> []) (map js_trim ms)) = routeRules r"
proof (cases "models r")
  case (Some ms)
  assume "normalRoute r"
  with Some have "map js_trim ms = ms" "filter (\<lambda>m. m \<noteq> []) ms = ms"
    by (auto simp: normalRoute_def intro: map_idI filter_True)
  then show ?thesis by (simp add: Some routeRules_def)
qed (simp add: routeRules_def)

lemma validateRoute_Inr:
  assumes "normalRoute r"
  shows "validateRoute url i r st = Some (Inr (m', li')) \<longleftrightarrow>
     routePath r \<noteq> [] \<and> prefix ''/'' (routePath r) \<and> \<not> js_includes ''?'' (routePath r) \<and>
     validateModelListRoute i (routePath r) (upstream_path r) (converter r) (routeRules r) (snd st) = Inr li' \<and>
     validateAdvancedCustomRouteModels i (routePath r) (routeRules r) (fst st) = Inr m' \<and>
     upstream_path r \<noteq> [] \<and> isFullHttpURLOrAbsolutePath url (upstream_path r) \<and>
     isAdvancedCustomConverter (converter r) \<and> isConverterPathAllowed (routePath r) (js_str (converter r)) \<and>
     authOk (auth r)"
proof -
  have n: "js_trim (upstream_path r) = upstream_path r" "js_or (converter r) (JStr ''none'') = converter r"
    using assms by (simp_all add: normalRoute_def)
  have path: "opt_trim (incoming_path r) = Some p \<and> p \<noteq> [] \<longleftrightarrow> routePath r = p \<and> p \<noteq> []" for p
    by (cases "incoming_path r") (auto simp: routePath_def)
  have step: "(if p = [] then Some (Inl e1) else if \<not> prefix ''/'' p then Some (Inl e2)
       else if js_includes ''?'' p then Some (Inl e3)
       else (case a of Inl e \<Rightarrow> Some (Inl e)
         | Inr li \<Rightarrow> (case b of Inl e \<Rightarrow> Some (Inl e)
           | Inr m \<Rightarrow> if u = [] then Some (Inl e4) else if \<not> F then Some (Inl e5) else if \<not> C then Some (Inl e6)
               else if \<not> P then Some (Inl e7)
               else (case w of None \<Rightarrow> None | Some (Some e) \<Rightarrow> Some (Inl e) | Some None \<Rightarrow> Some (Inr (m, li)))))) =
       Some (Inr (m', li')) \<longleftrightarrow>
     p \<noteq> [] \<and> prefix ''/'' p \<and> \<not> js_includes ''?'' p \<and> a = Inr li' \<and> b = Inr m' \<and> u \<noteq> [] \<and> F \<and> C \<and> P \<and> w = Some None"
    for p u :: string and a :: "string + nat option" and b :: "string + route_models" and F C P w e1 e2 e3 e4 e5 e6 e7
    by (cases a; cases b; cases w) (auto split: option.splits)
  have "validateRoute url i r st = Some (Inr (m', li')) \<longleftrightarrow>
     (\<exists>p. (opt_trim (incoming_path r) = Some p \<and> p \<noteq> []) \<and> prefix ''/'' p \<and> \<not> js_includes ''?'' p \<and>
     validateModelListRoute i p (upstream_path r) (converter r) (routeRules r) (snd st) = Inr li' \<and>
     validateAdvancedCustomRouteModels i p (routeRules r) (fst st) = Inr m' \<and>
     upstream_path r \<noteq> [] \<and> isFullHttpURLOrAbsolutePath url (upstream_path r) \<and>
     isAdvancedCustomConverter (converter r) \<and> isConverterPathAllowed p (js_str (converter r)) \<and>
     authOk (auth r))"
    unfolding validateRoute_def normalRoute_rules [OF assms] n Let_def bind_eq_Some_conv validateRouteAuth_ok [symmetric] step
    by blast
  then show ?thesis unfolding path by blast
qed

text \<open>The state after a list of routes.\<close>

definition tracks :: "AdvancedCustomRoute list \<Rightarrow> route_state \<Rightarrow> bool" where
  "tracks pre st \<longleftrightarrow>
     (\<forall>p. catchAllIndex (pathState (fst st) p) \<noteq> None \<longleftrightarrow> (\<exists>q \<in> set pre. routePath q = p \<and> routeRules q = [])) \<and>
     (\<forall>p x. om_get (stateModels (pathState (fst st) p)) x \<noteq> None \<longleftrightarrow>
        (\<exists>q \<in> set pre. routePath q = p \<and> x \<in> set (routeRules q))) \<and>
     (snd st \<noteq> None \<longleftrightarrow> (\<exists>q \<in> set pre. routePath q = ADVANCED_CUSTOM_MODEL_LIST_PATH))"

lemma tracks_Nil: "tracks [] ([], None)"
  by (simp add: tracks_def pathState_def om_get_def)

definition stepOk :: "url_parser \<Rightarrow> AdvancedCustomRoute list \<Rightarrow> AdvancedCustomRoute \<Rightarrow> bool" where
  "stepOk url pre r \<longleftrightarrow> routeOk url r \<and> (\<forall>q \<in> set pre. compatible q r)"

lemma ValidRoutes_snoc: "ValidRoutes url (pre @ [r]) \<longleftrightarrow> ValidRoutes url pre \<and> stepOk url pre r"
  by (auto simp: ValidRoutes_def stepOk_def sorted_wrt_append)

lemma tracks_compatible:
  assumes "tracks pre st"
  shows "(\<forall>q \<in> set pre. compatible q r) \<longleftrightarrow>
    catchAllIndex (pathState (fst st) (routePath r)) = None \<and>
    (\<forall>x \<in> set (routeRules r). om_get (stateModels (pathState (fst st) (routePath r))) x = None)"
proof -
  note T = assms [unfolded tracks_def]
  have "catchAllIndex (pathState (fst st) (routePath r)) = None \<longleftrightarrow>
      (\<forall>q \<in> set pre. routePath q = routePath r \<longrightarrow> routeRules q \<noteq> [])"
    using T by blast
  moreover have "om_get (stateModels (pathState (fst st) (routePath r))) x = None \<longleftrightarrow>
      (\<forall>q \<in> set pre. routePath q = routePath r \<longrightarrow> x \<notin> set (routeRules q))" for x
    using T by blast
  ultimately show ?thesis unfolding compatible_def by blast
qed

lemma validateRoute_sound:
  assumes "tracks pre st" and "normalRoute r" and "validateRoute url i r st = Some (Inr st')"
  shows "stepOk url pre r" and "tracks (pre @ [r]) st'"
proof -
  obtain m' li' where st': "st' = (m', li')" by (cases st')
  note V = assms(3) [unfolded st' validateRoute_Inr [OF assms(2)]]
  then have rm: "validateAdvancedCustomRouteModels i (routePath r) (routeRules r) (fst st) = Inr m'"
    and ml: "validateModelListRoute i (routePath r) (upstream_path r) (converter r) (routeRules r) (snd st) = Inr li'"
    by simp_all
  have "catchAllIndex (pathState (fst st) (routePath r)) = None \<and> distinct (routeRules r) \<and> ''re:'' \<notin> set (routeRules r) \<and>
      (\<forall>x \<in> set (routeRules r). om_get (stateModels (pathState (fst st) (routePath r))) x = None)"
    using rm validateRouteModels_Inr by blast
  with V show "stepOk url pre r"
    unfolding stepOk_def routeOk_def tracks_compatible [OF assms(1)] validateModelList_Inr by blast
  show "tracks (pre @ [r]) st'"
    using assms(1) ml unfolding tracks_def st' fst_conv snd_conv validateRouteModels_effect [OF rm] validateModelList_Inr
    by auto
qed

lemma validateRoute_complete:
  assumes "tracks pre st" and "normalRoute r" and "\<forall>q \<in> set pre. routeOk url q" and "stepOk url pre r"
  shows "\<exists>st'. validateRoute url i r st = Some (Inr st')"
proof -
  note S = assms(4) [unfolded stepOk_def tracks_compatible [OF assms(1)] routeOk_def]
  then obtain m' where m': "validateAdvancedCustomRouteModels i (routePath r) (routeRules r) (fst st) = Inr m'"
    using validateRouteModels_Inr by blast
  have "snd st = None" if p: "routePath r = ADVANCED_CUSTOM_MODEL_LIST_PATH"
  proof (rule ccontr)
    assume "snd st \<noteq> None"
    then obtain q where "q \<in> set pre" "routePath q = ADVANCED_CUSTOM_MODEL_LIST_PATH"
      using assms(1) by (auto simp: tracks_def)
    with assms(3,4) p show False by (auto simp: stepOk_def compatible_def routeOk_def)
  qed
  with S have "validateModelListRoute i (routePath r) (upstream_path r) (converter r) (routeRules r) (snd st) =
      Inr (if routePath r = ADVANCED_CUSTOM_MODEL_LIST_PATH then Some i else snd st)"
    unfolding validateModelList_Inr by blast
  with S m' show ?thesis
    using validateRoute_Inr [OF assms(2)] by blast
qed

section \<open>The loop over the routes\<close>

lemma validateRoutes_correct:
  assumes "tracks pre st" and "ValidRoutes url pre" and "length pre = i" and "\<forall>r \<in> set rs. normalRoute r"
  shows "validateRoutes url i rs st = Some None \<longleftrightarrow> ValidRoutes url (pre @ rs)"
    and "validateRoutes url i rs st = Some (Some e) \<Longrightarrow>
      \<exists>k < length rs. routeIndex e = Some (i + k) \<and> ValidRoutes url (pre @ take k rs) \<and>
        \<not> ValidRoutes url (pre @ take (Suc k) rs)"
proof -
  have "(validateRoutes url i rs st = Some None \<longleftrightarrow> ValidRoutes url (pre @ rs)) \<and>
    (validateRoutes url i rs st = Some (Some e) \<longrightarrow>
      (\<exists>k < length rs. routeIndex e = Some (i + k) \<and> ValidRoutes url (pre @ take k rs) \<and>
        \<not> ValidRoutes url (pre @ take (Suc k) rs)))"
    using assms
  proof (induction rs arbitrary: pre st i)
    case (Cons r rs)
    show ?case
    proof (cases "stepOk url pre r")
      case True
      with Cons.prems obtain st' where st': "validateRoute url i r st = Some (Inr st')"
        using validateRoute_complete [of pre st r url i] by (auto simp: ValidRoutes_def)
      have tr: "tracks (pre @ [r]) st'" using validateRoute_sound(2) [OF Cons.prems(1) _ st'] Cons.prems(4) by simp
      have vr: "ValidRoutes url (pre @ [r])" using True Cons.prems(2) by (simp add: ValidRoutes_snoc)
      have "length (pre @ [r]) = i + 1" "\<forall>r \<in> set rs. normalRoute r" using Cons.prems(3,4) by simp_all
      note IH = Cons.IH [OF tr vr this]
      have "\<exists>k < length (r # rs). routeIndex e = Some (i + k) \<and> ValidRoutes url (pre @ take k (r # rs)) \<and>
          \<not> ValidRoutes url (pre @ take (Suc k) (r # rs))"
        if "validateRoutes url i (r # rs) st = Some (Some e)"
      proof -
        from that IH obtain k where "k < length rs" "routeIndex e = Some (i + 1 + k)"
          "ValidRoutes url ((pre @ [r]) @ take k rs)" "\<not> ValidRoutes url ((pre @ [r]) @ take (Suc k) rs)"
          by (auto simp: st')
        then show ?thesis by (intro exI [of _ "Suc k"]) simp
      qed
      then show ?thesis using IH by (auto simp: st')
    next
      case False
      then have no: "validateRoute url i r st \<noteq> Some (Inr st')" for st'
        using validateRoute_sound(1) Cons.prems(1,4) by (metis list.set_intros(1))
      have bad: "\<not> ValidRoutes url (pre @ [r])" using False by (simp add: ValidRoutes_snoc)
      then have "\<not> ValidRoutes url (pre @ r # rs)" by (auto simp: ValidRoutes_def sorted_wrt_append)
      then show ?thesis
        using no bad Cons.prems(2) by (auto split: option.splits sum.splits intro!: exI [of _ 0])
    qed
  qed simp
  then show "validateRoutes url i rs st = Some None \<longleftrightarrow> ValidRoutes url (pre @ rs)"
    and "validateRoutes url i rs st = Some (Some e) \<Longrightarrow>
      \<exists>k < length rs. routeIndex e = Some (i + k) \<and> ValidRoutes url (pre @ take k rs) \<and>
        \<not> ValidRoutes url (pre @ take (Suc k) rs)"
    by blast+
qed

lemma ValidRoutes_Nil [simp]: "ValidRoutes url []"
  by (simp add: ValidRoutes_def)

lemma validateConfig_iff:
  assumes "normalizeAdvancedCustomConfig v = Some c"
  shows "validateAdvancedCustomConfig url (Some c) = Some None \<longleftrightarrow> ValidConfig url c"
  using validateRoutes_correct(1) [OF tracks_Nil, of url 0 "advanced_routes c"] normalizeConfig_normal [OF assms]
  by (auto simp: validateAdvancedCustomConfig_def normalizeConfig_idem [OF assms] ValidConfig_def Let_def)

text \<open>
  C31. Validation accepts a normalised configuration exactly when it satisfies the declarative
  specification: there is a route, every route is acceptable on its own, and no earlier route on the
  same path is a catch-all or shares a model rule with a later one.
\<close>

theorem advanced_custom_validation:
  assumes "normalizeAdvancedCustomConfig v = Some c"
  shows "validateAdvancedCustomConfig url (Some c) = Some None \<longleftrightarrow> ValidConfig url c"
  using assms by (rule validateConfig_iff)

text \<open>
  C35. An error points at the first offending route: the routes before it are valid together, and they
  are no longer valid with it.
\<close>

theorem advanced_custom_first_error:
  assumes "normalizeAdvancedCustomConfig v = Some c"
    and "validateAdvancedCustomConfig url (Some c) = Some (Some e)" and "advanced_routes c \<noteq> []"
  shows "\<exists>k < length (advanced_routes c). routeIndex e = Some k \<and>
    ValidRoutes url (take k (advanced_routes c)) \<and> \<not> ValidRoutes url (take (Suc k) (advanced_routes c))"
  using validateRoutes_correct(2) [OF tracks_Nil, of url 0 "advanced_routes c" e] normalizeConfig_normal [OF assms(1)] assms(2,3)
  by (auto simp: validateAdvancedCustomConfig_def normalizeConfig_idem [OF assms(1)] Let_def)

section \<open>Templates and defaults\<close>

lemma solid_ends: "s \<noteq> [] \<Longrightarrow> solid (hd s) \<Longrightarrow> solid (last s) \<Longrightarrow> js_trim s = s"
  by (simp add: js_trim_solid)

lemma solid_letters [simp]:
  "solid (CHR ''/'')" "solid (CHR ''s'')" "solid (CHR ''t'')" "solid (CHR ''A'')" "solid (CHR ''n'')" "solid (CHR ''B'')"
  "solid (CHR ''}'')" "solid (CHR ''{'')" "solid (CHR ''x'')" "solid (CHR ''y'')" "solid (CHR ''k'')" "solid (CHR ''h'')"
  by (simp_all add: solid_def js_ws_def)

lemma authOk_standard [simp]:
  "authOk (Some bearerHeaderAuth)" "authOk (Some apiKeyHeaderAuth)" "authOk (Some geminiQueryAuth)"
  by (simp_all add: authOk_def bearerHeaderAuth_def apiKeyHeaderAuth_def geminiQueryAuth_def solid_ends)

lemma normalAuth_standard [simp]:
  "normalAuth bearerHeaderAuth" "normalAuth apiKeyHeaderAuth" "normalAuth geminiQueryAuth"
  by (simp_all add: normalAuth_def bearerHeaderAuth_def apiKeyHeaderAuth_def geminiQueryAuth_def)

lemma json_wf_auth_standard [simp]:
  "json_wf (auth_json bearerHeaderAuth)" "json_wf (auth_json apiKeyHeaderAuth)" "json_wf (auth_json geminiQueryAuth)"
  unfolding auth_json_def
  by (intro json_wf_literal; simp add: bearerHeaderAuth_def apiKeyHeaderAuth_def geminiQueryAuth_def)+

lemma isAdvancedCustomConverter_iff:
  "isAdvancedCustomConverter (JStr c) \<longleftrightarrow> c \<in> set (map optValue ADVANCED_CUSTOM_CONVERTER_OPTIONS)"
  by (auto simp: isAdvancedCustomConverter_def list_ex_iff)

text \<open>A route whose upstream path is a path of the gateway.\<close>

lemma routeOk_simple:
  assumes "js_trim p \<noteq> []" and "prefix ''/'' (js_trim p)" and "\<not> js_includes ''?'' (js_trim p)"
    and "prefix ''/'' up" and "\<not> prefix ''//'' up" and "isAdvancedCustomConverter (JStr c)"
    and "isConverterPathAllowed (js_trim p) c" and "authOk (Some a)"
    and "js_trim p = ADVANCED_CUSTOM_MODEL_LIST_PATH \<Longrightarrow> c = ''none'' \<and> \<not> js_includes ''{model}'' up"
  shows "routeOk url (templateRoute p up c a)"
  using assms by (auto simp: routeOk_def routePath_def routeRules_def templateRoute_def isFullHttpURLOrAbsolutePath_def)

text \<open>
  The upstream path and the credentials that the editor proposes for a registered converter and an
  incoming path it allows form a valid configuration.
\<close>

theorem advanced_custom_defaults:
  assumes "isAdvancedCustomConverter (JStr conv)" and "isConverterPathAllowed (js_trim p) conv"
    and "prefix ''/'' (js_trim p)" and "\<not> prefix ''//'' (js_trim p)" and "\<not> js_includes ''?'' (js_trim p)"
  shows "ValidConfig url \<lparr>advanced_routes =
    [templateRoute p (dUpstreamPath (getAdvancedCustomConverterDefaults conv p)) conv
       (dAuth (getAdvancedCustomConverterDefaults conv p))]\<rparr>"
proof -
  have p: "js_trim p \<noteq> []" using assms(3) by auto
  define d where "d = getAdvancedCustomConverterDefaults conv p"
  have paths: "prefix ''/'' (dUpstreamPath d) \<and> \<not> prefix ''//'' (dUpstreamPath d)"
    using assms(3,4) p
    by (simp add: d_def getAdvancedCustomConverterDefaults_def Let_def openAIChatPath_def openAIResponsesPath_def
        claudeMessagesPath_def geminiGenerateContentPath_def)
  have au: "authOk (Some (dAuth d))"
    by (simp add: d_def getAdvancedCustomConverterDefaults_def getAdvancedCustomNativeAuth_def Let_def)
  have list: "conv = ''none'' \<and> \<not> js_includes ''{model}'' (dUpstreamPath d)"
    if "js_trim p = ADVANCED_CUSTOM_MODEL_LIST_PATH"
  proof -
    have c: "conv = ''none''"
      using assms(2) that by (auto simp: isConverterPathAllowed_def ADVANCED_CUSTOM_MODEL_LIST_PATH_def split: if_splits)
    then show ?thesis
      using that by (simp add: d_def getAdvancedCustomConverterDefaults_def Let_def ADVANCED_CUSTOM_MODEL_LIST_PATH_def)
  qed
  have "routeOk url (templateRoute p (dUpstreamPath d) conv (dAuth d))"
    using assms p paths au list by (intro routeOk_simple) auto
  then show ?thesis by (simp add: ValidConfig_def ValidRoutes_def d_def)
qed

lemma normalRoute_template:
  "js_trim up = up \<Longrightarrow> c \<noteq> [] \<Longrightarrow> normalAuth a \<Longrightarrow> normalRoute (templateRoute p up c a)"
  by (simp add: normalRoute_def templateRoute_def)

lemma json_wf_template: "json_wf (auth_json a) \<Longrightarrow> json_wf (route_json (templateRoute p up c a))"
  unfolding route_json_def by (intro json_wf_literal) (auto simp: templateRoute_def)

lemma json_wf_config: "\<forall>r \<in> set (advanced_routes c). json_wf (route_json r) \<Longrightarrow> json_wf (config_json c)"
  unfolding config_json_def by (intro json_wf_literal) auto

lemma registered [simp]:
  "isAdvancedCustomConverter (JStr ''none'')"
  "isAdvancedCustomConverter (JStr ''openai_chat_completions_to_gemini_generate_content'')"
  by (simp_all add: isAdvancedCustomConverter_def ADVANCED_CUSTOM_CONVERTER_OPTIONS_def)

definition standardAuth :: "AdvancedCustomRouteAuth \<Rightarrow> bool" where
  "standardAuth a \<longleftrightarrow> a = bearerHeaderAuth \<or> a = apiKeyHeaderAuth \<or> a = geminiQueryAuth"

definition templateOk :: "url_parser \<Rightarrow> AdvancedCustomRoute \<Rightarrow> bool" where
  "templateOk url r \<longleftrightarrow> routeOk url r \<and> normalRoute r \<and> json_wf (route_json r)"

lemma templateOk_path:
  assumes "js_trim p = p" and "prefix ''/'' p" and "\<not> js_includes ''?'' p" and "p \<noteq> ADVANCED_CUSTOM_MODEL_LIST_PATH"
    and "js_trim up = up" and "prefix ''/'' up" and "\<not> prefix ''//'' up" and "isAdvancedCustomConverter (JStr c)"
    and "isConverterPathAllowed p c" and "standardAuth a" and "c \<noteq> []"
  shows "templateOk url (templateRoute p up c a)"
proof -
  have "p \<noteq> []" using assms(2) by auto
  moreover have "authOk (Some a)" "normalAuth a" "json_wf (auth_json a)" using assms(10) by (auto simp: standardAuth_def)
  ultimately show ?thesis
    using assms unfolding templateOk_def by (auto intro!: routeOk_simple normalRoute_template json_wf_template)
qed

lemma routePath_template: "js_trim p = p \<Longrightarrow> routePath (templateRoute p up c a) = p"
  by (simp add: routePath_def templateRoute_def)

lemma templates_routes:
  "list_all (\<lambda>(_, _, c). list_all (templateOk url) (advanced_routes c)) ADVANCED_CUSTOM_TEMPLATE_OPTIONS"
  by (simp add: ADVANCED_CUSTOM_TEMPLATE_OPTIONS_def templateOk_path solid_ends standardAuth_def
      ADVANCED_CUSTOM_MODEL_LIST_PATH_def isConverterPathAllowed_def)

lemma templates_compatible:
  "list_all (\<lambda>(_, _, c). advanced_routes c \<noteq> [] \<and> sorted_wrt compatible (advanced_routes c)) ADVANCED_CUSTOM_TEMPLATE_OPTIONS"
  by (simp add: ADVANCED_CUSTOM_TEMPLATE_OPTIONS_def compatible_def routePath_template solid_ends)

text \<open>
  C39. Every template key, known or not, yields a configuration that is already normal and that
  validation accepts.
\<close>

theorem advanced_custom_templates:
  "\<exists>c. getAdvancedCustomTemplateConfig k = Some (config_json c) \<and>
     normalizeAdvancedCustomConfig (config_json c) = Some c \<and>
     validateAdvancedCustomConfig url (Some c) = Some None"
proof -
  obtain t where t: "t \<in> set ADVANCED_CUSTOM_TEMPLATE_OPTIONS"
    "getAdvancedCustomTemplateConfig k = cloneAdvancedCustomConfig (config_json (snd (snd t)))"
  proof (cases "find (\<lambda>(v, _, _). v = k) ADVANCED_CUSTOM_TEMPLATE_OPTIONS")
    case None
    have "ADVANCED_CUSTOM_TEMPLATE_OPTIONS ! 0 \<in> set ADVANCED_CUSTOM_TEMPLATE_OPTIONS"
      by (rule nth_mem) (simp add: ADVANCED_CUSTOM_TEMPLATE_OPTIONS_def)
    with None that show thesis by (simp add: getAdvancedCustomTemplateConfig_def Let_def)
  next
    case (Some t)
    then have "t \<in> set ADVANCED_CUSTOM_TEMPLATE_OPTIONS" by (metis find_Some_iff nth_mem)
    with Some that show thesis by (simp add: getAdvancedCustomTemplateConfig_def Let_def)
  qed
  define c where "c = snd (snd t)"
  have ok: "\<forall>r \<in> set (advanced_routes c). templateOk url r" "advanced_routes c \<noteq> []" "sorted_wrt compatible (advanced_routes c)"
    using t(1) templates_routes [of url] templates_compatible by (auto simp: c_def list_all_iff case_prod_beta')
  then have n: "normalizeAdvancedCustomConfig (config_json c) = Some c"
    by (intro normalizeConfig_json) (simp add: templateOk_def)
  have "ValidConfig url c" using ok by (simp add: ValidConfig_def ValidRoutes_def templateOk_def)
  moreover have "json_wf (config_json c)" using ok(1) by (intro json_wf_config) (simp add: templateOk_def)
  then have "cloneAdvancedCustomConfig (config_json c) = Some (config_json c)"
    by (simp add: cloneAdvancedCustomConfig_def json_parse_stringify)
  ultimately show ?thesis
    using t(2) n validateConfig_iff [OF n, of url] by (auto simp: c_def)
qed

text \<open>Witnesses.\<close>

lemma create_normal:
  "normalizeAdvancedCustomConfig (config_json createAdvancedCustomConfig) = Some createAdvancedCustomConfig"
  by (rule normalizeConfig_json)
    (simp add: createAdvancedCustomConfig_def createAdvancedCustomRoute_def normalRoute_def openAIChatPath_def solid_ends)

lemma create_wf: "json_wf (config_json createAdvancedCustomConfig)"
  by (rule json_wf_config)
    (auto simp: createAdvancedCustomConfig_def createAdvancedCustomRoute_def route_json_def intro!: json_wf_literal)

theorem advanced_custom_roundtrip_witness:
  "\<exists>s. stringifyAdvancedCustomConfig (config_json createAdvancedCustomConfig) = Some s \<and>
     parseAdvancedCustomConfig (Some s) = Some createAdvancedCustomConfig"
  using advanced_custom_roundtrip [OF create_wf, of "json_pretty (config_json createAdvancedCustomConfig)"]
  by (simp add: stringifyAdvancedCustomConfig_def create_normal)

lemma create_valid: "ValidConfig url createAdvancedCustomConfig"
  by (simp add: ValidConfig_def ValidRoutes_def createAdvancedCustomConfig_def createAdvancedCustomRoute_def routeOk_def
      routePath_def routeRules_def openAIChatPath_def solid_ends isFullHttpURLOrAbsolutePath_def isConverterPathAllowed_def
      authOk_def ADVANCED_CUSTOM_MODEL_LIST_PATH_def)

theorem advanced_custom_validation_witness:
  "validateAdvancedCustomConfig (\<lambda>_. None) (Some createAdvancedCustomConfig) = Some None"
  unfolding advanced_custom_validation [OF create_normal] by (rule create_valid)

definition doubledConfig :: AdvancedCustomConfig where
  "doubledConfig = \<lparr>advanced_routes = [createAdvancedCustomRoute, createAdvancedCustomRoute]\<rparr>"

lemma doubled_normal: "normalizeAdvancedCustomConfig (config_json doubledConfig) = Some doubledConfig"
  by (rule normalizeConfig_json)
    (simp add: doubledConfig_def createAdvancedCustomRoute_def normalRoute_def openAIChatPath_def solid_ends)

lemma doubled_error:
  "validateAdvancedCustomConfig (\<lambda>_. None) (Some doubledConfig) =
     Some (Some \<lparr>message = ''Only one catch-all route is allowed for the same incoming path'', routeIndex = Some 1\<rparr>)"
  by (simp add: validateAdvancedCustomConfig_def doubled_normal Let_def)
    (simp add: doubledConfig_def createAdvancedCustomRoute_def validateRoute_def openAIChatPath_def solid_ends
      validateModelListRoute_def ADVANCED_CUSTOM_MODEL_LIST_PATH_def validateAdvancedCustomRouteModels_def om_get_def
      isFullHttpURLOrAbsolutePath_def isConverterPathAllowed_def validateRouteAuth_def js_or_def)

theorem advanced_custom_first_error_witness:
  "ValidRoutes (\<lambda>_. None) [createAdvancedCustomRoute] \<and>
   \<not> ValidRoutes (\<lambda>_. None) [createAdvancedCustomRoute, createAdvancedCustomRoute]"
  using advanced_custom_first_error [OF doubled_normal doubled_error] by (auto simp: doubledConfig_def)

theorem advanced_custom_defaults_witness:
  "ValidConfig (\<lambda>_. None) \<lparr>advanced_routes =
    [templateRoute ''/v1/messages'' (dUpstreamPath (getAdvancedCustomConverterDefaults ''none'' ''/v1/messages'')) ''none''
       (dAuth (getAdvancedCustomConverterDefaults ''none'' ''/v1/messages''))]\<rparr>"
  by (rule advanced_custom_defaults) (simp_all add: solid_ends isConverterPathAllowed_def)

end
