(* ===== verification/Channel_Form_Laws.thy ===== *)
theory Channel_Form_Laws
  imports Channel_Form Advanced_Custom_Laws
begin

text \<open>
  What the channel form guarantees: the settings survive being written to the texts of the API and
  read back, the text \<open>settings\<close> holds exactly the settings of the channel type besides those it had,
  an accepted form is consistent, and a payload never clears a credential by accident.
\<close>

section \<open>Objects\<close>

lemma om_get_delete: "om_get (obj_delete k fs) k' = (if k' = k then None else om_get fs k')"
  unfolding om_get_def obj_delete_def by (induction fs) auto

lemma om_get_set_or_delete:
  "om_get (set_or_delete c k v fs) k' = (if k' = k then (if c then Some v else None) else om_get fs k')"
  by (auto simp: set_or_delete_def om_get_set om_get_delete)

lemma jprop_om_get: "jprop (JObj fs) k = (case om_get fs k of Some v \<Rightarrow> v | None \<Rightarrow> JUndef)"
  by (simp add: om_get_def)

text \<open>The objects that JSON can hold are closed under the updates.\<close>

definition obj_wf :: "(string, jsval) omap \<Rightarrow> bool" where
  "obj_wf fs \<longleftrightarrow> json_wf (JObj fs)"

lemma obj_wf_iff: "obj_wf fs \<longleftrightarrow> key_order (map fst fs) \<and> (\<forall>(k, v) \<in> set fs. json_wf v)"
  by (simp add: obj_wf_def js_object_iff)

lemma obj_wf_set:
  assumes "obj_wf fs" and "\<not> is_digit (hd k)" and "json_wf v"
  shows "obj_wf (om_set k v fs)"
proof -
  have "map fst (om_set k v fs) = os_add (map fst fs) k" using om_keys_set [of k v fs] by (simp add: om_keys_def)
  then have "key_order (map fst (om_set k v fs))"
    using assms key_order_snoc not_array_index by (auto simp: obj_wf_iff os_add_def)
  moreover have "\<forall>(k, v) \<in> set (om_set k v fs). json_wf v"
    using assms om_set_invariant [of fs "\<lambda>_. json_wf"] by (simp add: obj_wf_iff)
  ultimately show ?thesis by (simp add: obj_wf_iff)
qed

lemma obj_wf_delete: "obj_wf fs \<Longrightarrow> obj_wf (obj_delete k fs)"
  using key_order_filter [of "map fst fs" "\<lambda>k'. k' \<noteq> k"]
  by (auto simp: obj_wf_iff obj_delete_def filter_map comp_def case_prod_beta')

lemma obj_wf_set_or_delete:
  "obj_wf fs \<Longrightarrow> \<not> is_digit (hd k) \<Longrightarrow> json_wf v \<Longrightarrow> obj_wf (set_or_delete c k v fs)"
  by (simp add: set_or_delete_def obj_wf_set obj_wf_delete)

lemma json_wf_is_true [simp]: "json_wf (is_true v)"
  by (simp add: is_true_def)

lemma not_digit_letters [simp]:
  "\<not> is_digit CHR ''d''" "\<not> is_digit CHR ''f''" "\<not> is_digit CHR ''h''" "\<not> is_digit CHR ''o''"
  "\<not> is_digit CHR ''p''" "\<not> is_digit CHR ''s''"
  by (simp_all add: is_digit_def)

section \<open>The text setting\<close>

text \<open>The settings as the schema types them.\<close>

definition typedExtra :: "ChannelExtraSettings \<Rightarrow> bool" where
  "typedExtra x \<longleftrightarrow>
     (\<exists>b. force_format x = JBool b) \<and> (\<exists>b. thinking_to_content x = JBool b) \<and> (\<exists>s. proxy x = JStr s) \<and>
     (\<exists>n :: int. http2_connection_shards x = JNum (Fin (of_int n))) \<and>
     (\<exists>b. pass_through_body_enabled x = JBool b) \<and> (\<exists>s. system_prompt x = JStr s) \<and>
     (\<exists>b. system_prompt_override x = JBool b)"

text \<open>The settings that are kept: the proxy trimmed, the protocol and the number of shards normalised.\<close>

definition normalizedExtra :: "ChannelExtraSettings \<Rightarrow> ChannelExtraSettings" where
  "normalizedExtra x =
     (let protocol = normalizeHttpProtocol (JStr (http_protocol x)) in
      x\<lparr>proxy := (case proxy x of JStr s \<Rightarrow> JStr (js_trim s) | v \<Rightarrow> v),
        http_protocol := protocol,
        http2_connection_shards :=
          (if protocol = HTTP_PROTOCOL_HTTP1 then JNum (Fin 1)
           else normalizeHttp2ConnectionShards (http2_connection_shards x))\<rparr>)"

lemma js_or_bool [simp]: "js_or (JBool b) (JBool False) = JBool b"
  by (cases b) (simp_all add: js_or_def)

lemma js_or_str [simp]: "js_or (JStr s) (JStr []) = JStr s"
  by (cases s) (simp_all add: js_or_def)

lemma shards_bounds:
  assumes "v = JNum (Fin (of_int n))"
  shows "\<exists>m :: int. normalizeHttp2ConnectionShards v = JNum (Fin (of_int m)) \<and> 1 \<le> m \<and> m \<le> 8 \<and>
    (1 \<le> n \<and> n \<le> 8 \<longrightarrow> m = n)"
proof -
  consider "n < 1" | "1 \<le> n" "n \<le> 8" | "8 < n" by linarith
  then show ?thesis
  proof cases
    case 1
    then have "(of_int n :: rat) < 1" by simp
    then have "normalizeHttp2ConnectionShards v = JNum (Fin (of_int 1))"
      by (simp add: normalizeHttp2ConnectionShards_def assms)
    then show ?thesis using 1 by force
  next
    case 2
    then have "\<not> (of_int n :: rat) < 1" "\<not> (8 :: rat) < of_int n" "(of_int n :: rat) \<noteq> 0" by (simp_all add: not_less)
    then have "normalizeHttp2ConnectionShards v = JNum (Fin (of_int n))"
      by (simp add: normalizeHttp2ConnectionShards_def assms MAX_HTTP2_CONNECTION_SHARDS_def)
    then show ?thesis using 2 by blast
  next
    case 3
    then have "\<not> (of_int n :: rat) < 1" "(8 :: rat) < of_int n" "(of_int n :: rat) \<noteq> 0" by (simp_all add: not_less)
    then have "normalizeHttp2ConnectionShards v = JNum (Fin (of_int 8))"
      by (simp add: normalizeHttp2ConnectionShards_def assms MAX_HTTP2_CONNECTION_SHARDS_def)
    then show ?thesis using 3 by force
  qed
qed

lemma normalizeHttpProtocol_values:
  "normalizeHttpProtocol v = HTTP_PROTOCOL_HTTP1 \<or> normalizeHttpProtocol v = HTTP_PROTOCOL_AUTO"
  by (simp add: normalizeHttpProtocol_def Let_def)

lemma trim_http1 [simp]: "js_trim ''http1'' = ''http1''"
proof -
  have "solid (CHR ''1'')" by (simp add: solid_def js_ws_def)
  then show ?thesis by (simp add: solid_ends)
qed

lemma normalizeHttpProtocol_known [simp]:
  "normalizeHttpProtocol (JStr HTTP_PROTOCOL_HTTP1) = HTTP_PROTOCOL_HTTP1"
  "normalizeHttpProtocol JUndef = HTTP_PROTOCOL_AUTO" "HTTP_PROTOCOL_AUTO \<noteq> HTTP_PROTOCOL_HTTP1"
  by (simp_all add: normalizeHttpProtocol_def HTTP_PROTOCOL_HTTP1_def HTTP_PROTOCOL_AUTO_def js_or_def
      js_lower_def lower_char_def)

lemma parsed_settingObj:
  assumes "typedExtra x"
  obtains fs where "settingObj x = Some (JObj fs)" and "parsedExtraSettings (JObj fs) = normalizedExtra x"
    and "json_wf (JObj fs)"
proof -
  from assms obtain b1 b2 p n b3 q b4 where x: "force_format x = JBool b1" "thinking_to_content x = JBool b2"
    "proxy x = JStr p" "http2_connection_shards x = JNum (Fin (of_int n))" "pass_through_body_enabled x = JBool b3"
    "system_prompt x = JStr q" "system_prompt_override x = JBool b4"
    by (auto simp: typedExtra_def)
  obtain m :: int where m: "normalizeHttp2ConnectionShards (http2_connection_shards x) = JNum (Fin (of_int m))" "1 \<le> m" "m \<le> 8"
    using shards_bounds [OF x(4)] by blast
  have again: "normalizeHttp2ConnectionShards (JNum (Fin (of_int m))) = JNum (Fin (of_int m))"
    using shards_bounds [of "JNum (Fin (of_int m))" m] m(2,3) by auto
  have none: "normalizeHttp2ConnectionShards JUndef = JNum (Fin 1)"
    by (simp add: normalizeHttp2ConnectionShards_def)
  define base where "base =
    [(''force_format'', JBool b1), (''thinking_to_content'', JBool b2), (''proxy'', JStr (js_trim p)),
     (''pass_through_body_enabled'', JBool b3), (''system_prompt'', JStr q), (''system_prompt_override'', JBool b4)]"
  consider (http1) "normalizeHttpProtocol (JStr (http_protocol x)) = HTTP_PROTOCOL_HTTP1"
    | (auto1) "normalizeHttpProtocol (JStr (http_protocol x)) = HTTP_PROTOCOL_AUTO" "m = 1"
    | (shards) "normalizeHttpProtocol (JStr (http_protocol x)) = HTTP_PROTOCOL_AUTO" "1 < m"
    using normalizeHttpProtocol_values m(2) by (metis order_le_less)
  then show thesis
  proof cases
    case http1
    show thesis
      by (rule that [of "base @ [(''http_protocol'', JStr HTTP_PROTOCOL_HTTP1)]"])
        (simp_all add: settingObj_def x http1 base_def parsedExtraSettings_def normalizedExtra_def Let_def js_object_plain)
  next
    case auto1
    show thesis
      by (rule that [of base])
        (simp_all add: settingObj_def x auto1 m(1) [unfolded x auto1] base_def parsedExtraSettings_def
          normalizedExtra_def Let_def js_object_plain none)
  next
    case shards
    then have "(1 :: rat) < of_int m" by simp
    then show thesis
      by (intro that [of "base @ [(''http2_connection_shards'', JNum (Fin (of_int m)))]"])
        (simp_all add: settingObj_def x shards(1) m(1) [unfolded x] base_def parsedExtraSettings_def
          normalizedExtra_def Let_def js_object_plain again)
  qed
qed

lemma json_text_nonempty: "json_stringify (JObj fs) \<noteq> []"
  by (simp add: json_stringify_def layout_def)

text \<open>
  C37. The transport and prompt settings of a channel survive being saved: writing them to the text
  \<open>setting\<close> and reading that text into the form gives the same settings with the proxy trimmed, the
  protocol normalised and the shards within their bounds.
\<close>

theorem channel_extra_roundtrip:
  assumes "typedExtra (form_extra f)"
  shows "\<exists>s. buildSettingJSON f = Some s \<and>
    form_extra (transformChannelToFormDefaults (ch\<lparr>ch_setting := Some s\<rparr>)) = normalizedExtra (form_extra f)"
proof -
  obtain fs where fs: "settingObj (form_extra f) = Some (JObj fs)"
    "parsedExtraSettings (JObj fs) = normalizedExtra (form_extra f)" "json_wf (JObj fs)"
    using parsed_settingObj [OF assms] by blast
  have "readExtraSettings (Some (json_stringify (JObj fs))) = normalizedExtra (form_extra f)"
    using json_parse_stringify [OF fs(3)] json_text_nonempty [of fs]
    by (simp add: readExtraSettings_def opt_str_def fs(2))
  then show ?thesis
    by (simp add: buildSettingJSON_def fs(1) transformChannelToFormDefaults_def)
qed

section \<open>The text settings\<close>

text \<open>The keys that the form manages; every other key of the text is kept.\<close>

definition managedKeys :: "string list" where
  "managedKeys =
     [''vertex_key_type'', ''azure_responses_version'', ''openrouter_enterprise'', ''aws_key_type'',
      ''allow_service_tier'', ''disable_store'', ''allow_safety_identifier'', ''allow_include_obfuscation'',
      ''allow_inference_geo'', ''allow_speed'', ''claude_beta_query'', ''disable_task_polling_sleep'',
      ''upstream_model_update_check_enabled'', ''upstream_model_update_auto_sync_enabled'',
      ''upstream_model_update_ignored_models'', ''upstream_model_update_last_detected_models'',
      ''upstream_model_update_last_check_time'', ''advanced_custom'']"

lemma om_get_advancedCustom:
  "om_get (advancedCustomSettings f fs) k =
     (if k \<noteq> ''advanced_custom'' then om_get fs k
      else if form_type f \<noteq> CHANNEL_TYPE_ADVANCED_CUSTOM then None
      else case parseAdvancedCustomConfig (Some (advanced_custom (form_typed f))) of
        None \<Rightarrow> om_get fs k | Some c \<Rightarrow> Some (config_json c))"
  by (auto simp: advancedCustomSettings_def om_get_set om_get_delete split: option.split)

lemma om_get_if_set: "om_get (if c then om_set k v m else m) k' = (if c \<and> k' = k then Some v else om_get m k')"
  by (simp add: om_get_set)

definition upstreamKeys :: "string list" where
  "upstreamKeys =
     [''upstream_model_update_check_enabled'', ''upstream_model_update_auto_sync_enabled'',
      ''upstream_model_update_ignored_models'', ''upstream_model_update_last_detected_models'',
      ''upstream_model_update_last_check_time'']"

lemma om_get_upstreamUpdate:
  assumes "k \<notin> set upstreamKeys"
  shows "om_get (upstreamUpdateSettings f fs) k = om_get fs k"
proof -
  have k: "k \<noteq> ''upstream_model_update_check_enabled''" "k \<noteq> ''upstream_model_update_auto_sync_enabled''"
    "k \<noteq> ''upstream_model_update_ignored_models''" "k \<noteq> ''upstream_model_update_last_detected_models''"
    "k \<noteq> ''upstream_model_update_last_check_time''"
    using assms by (simp_all add: upstreamKeys_def)
  show ?thesis
    unfolding upstreamUpdateSettings_def Let_def if_distrib [of "\<lambda>m. om_get m k"] om_get_if_set om_get_set
    by (simp only: k if_False simp_thms if_cancel)
qed

lemma om_get_passthrough:
  "om_get (passthroughSettings f fs) k =
     (let t = form_typed f; openai = (form_type f \<in> set OPENAI_FIELD_PASSTHROUGH_TYPES);
          claude = (form_type f \<in> set CLAUDE_FIELD_PASSTHROUGH_TYPES);
          only = (\<lambda>c v. if c then Some (is_true v) else None) in
      if k = ''allow_service_tier'' then only (form_type f \<in> set FIELD_PASSTHROUGH_TYPES) (allow_service_tier t)
      else if k = ''disable_store'' then only openai (disable_store t)
      else if k = ''allow_safety_identifier'' then only openai (allow_safety_identifier t)
      else if k = ''allow_include_obfuscation'' then only openai (allow_include_obfuscation t)
      else if k = ''allow_inference_geo'' then only (openai \<or> claude) (allow_inference_geo t)
      else if k = ''allow_speed'' then only claude (allow_speed t)
      else if k = ''claude_beta_query'' then only (form_type f = 14) (claude_beta_query t)
      else if k = ''disable_task_polling_sleep'' then Some (is_true (disable_task_polling_sleep t))
      else om_get fs k)"
  by (simp add: passthroughSettings_def Let_def om_get_set om_get_set_or_delete)

lemma om_get_credential:
  "om_get (credentialSettings f fs) k =
     (let t = form_typed f; only = (\<lambda>c v. if c then Some v else None) in
      if k = ''vertex_key_type'' then only (form_type f = 41) (js_or (vertex_key_type t) (JStr ''json''))
      else if k = ''azure_responses_version''
        then only (form_type f = 3 \<and> truthy (azure_responses_version t)) (azure_responses_version t)
      else if k = ''openrouter_enterprise'' then only (form_type f = 20) (is_true (is_enterprise_account t))
      else if k = ''aws_key_type'' then only (form_type f = 33) (js_or (aws_key_type t) (JStr ''ak_sk''))
      else om_get fs k)"
  by (simp add: credentialSettings_def Let_def om_get_set_or_delete)

lemma settings_frame: "k \<notin> set managedKeys \<Longrightarrow> om_get (settingsFields f fs) k = om_get fs k"
  by (simp add: managedKeys_def settingsFields_def om_get_advancedCustom om_get_upstreamUpdate upstreamKeys_def
      om_get_passthrough om_get_credential Let_def)

text \<open>Well-formed settings: the existing text and the values of the form are JSON.\<close>

definition typedSettings :: "ChannelTypeSettings \<Rightarrow> bool" where
  "typedSettings t \<longleftrightarrow>
     (\<exists>s. vertex_key_type t = JStr s) \<and> (\<exists>s. aws_key_type t = JStr s) \<and> (\<exists>s. azure_responses_version t = JStr s) \<and>
     (\<forall>c. parseAdvancedCustomConfig (Some (advanced_custom t)) = Some c \<longrightarrow> json_wf (config_json c))"

lemma settingsFields_wf:
  assumes "typedSettings (form_typed f)" and "obj_wf fs"
  shows "obj_wf (settingsFields f fs)"
proof -
  have str: "json_wf (js_or (vertex_key_type (form_typed f)) (JStr ''json''))"
    "json_wf (js_or (aws_key_type (form_typed f)) (JStr ''ak_sk''))" "json_wf (azure_responses_version (form_typed f))"
    using assms(1) by (auto simp: typedSettings_def js_or_def)
  have "obj_wf (credentialSettings f fs)"
    using assms(2) str by (simp add: credentialSettings_def Let_def obj_wf_set_or_delete)
  then have "obj_wf (passthroughSettings f (credentialSettings f fs))"
    by (simp add: passthroughSettings_def Let_def obj_wf_set_or_delete obj_wf_set)
  then have "obj_wf (upstreamUpdateSettings f (passthroughSettings f (credentialSettings f fs)))"
    by (simp add: upstreamUpdateSettings_def Let_def obj_wf_set ignoredModels_def)
  then show ?thesis
    using assms(1) by (auto simp: settingsFields_def advancedCustomSettings_def typedSettings_def obj_wf_set obj_wf_delete split: option.split)
qed

definition keptWhen :: "bool \<Rightarrow> jsval \<Rightarrow> jsval" where
  "keptWhen c v = (if c then is_true v else JBool False)"

lemma existing_settings: "json_wf (JObj fs) \<Longrightarrow> json_stringify (JObj fs) = ''{}'' \<Longrightarrow> fs = []"
proof -
  assume fs: "json_wf (JObj fs)" "json_stringify (JObj fs) = ''{}''"
  have "json_stringify (JObj []) = ''{}''" by (simp add: json_stringify_def layout_def)
  moreover have "json_wf (JObj [])" by (simp add: js_object_plain)
  ultimately have "json_parse ''{}'' = Some (JObj [])" using json_parse_stringify by metis
  with json_parse_stringify [OF fs(1)] fs(2) show "fs = []" by simp
qed

text \<open>Reading the settings of the object that was written.\<close>

lemma jprop_settings:
  "k \<notin> set upstreamKeys \<Longrightarrow> k \<noteq> ''advanced_custom'' \<Longrightarrow>
   jprop (JObj (settingsFields f fs)) k =
     (case om_get (passthroughSettings f (credentialSettings f fs)) k of Some v \<Rightarrow> v | None \<Rightarrow> JUndef)"
  unfolding jprop_om_get settingsFields_def om_get_advancedCustom by (simp add: om_get_upstreamUpdate)

lemma is_true_idem [simp]: "is_true (is_true v) = is_true v" "is_true JUndef = JBool False"
  by (auto simp: is_true_def)

lemma js_or_nonempty [simp]: "d \<noteq> [] \<Longrightarrow> js_or (js_or v (JStr d)) (JStr d) = js_or v (JStr d)" "js_or JUndef d' = d'"
  by (auto simp: js_or_def)

lemma parsed_settings_fields:
  fixes f fs
  assumes "typedSettings (form_typed f)"
  defines "r \<equiv> parsedTypeSettings (JObj (settingsFields f fs))" and "t \<equiv> form_typed f" and "ty \<equiv> form_type f"
  shows "vertex_key_type r = (if ty = 41 then js_or (vertex_key_type t) (JStr ''json'') else JStr ''json'')"
    and "aws_key_type r = (if ty = 33 then js_or (aws_key_type t) (JStr ''ak_sk'') else JStr ''ak_sk'')"
    and "azure_responses_version r = (if ty = 3 then azure_responses_version t else JStr [])"
    and "is_enterprise_account r = keptWhen (ty = 20) (is_enterprise_account t)"
    and "allow_service_tier r = keptWhen (ty \<in> set FIELD_PASSTHROUGH_TYPES) (allow_service_tier t)"
    and "disable_store r = keptWhen (ty \<in> set OPENAI_FIELD_PASSTHROUGH_TYPES) (disable_store t)"
    and "allow_speed r = keptWhen (ty \<in> set CLAUDE_FIELD_PASSTHROUGH_TYPES) (allow_speed t)"
    and "claude_beta_query r = keptWhen (ty = 14) (claude_beta_query t)"
    and "disable_task_polling_sleep r = is_true (disable_task_polling_sleep t)"
proof -
  obtain a where "azure_responses_version t = JStr a" using assms(1) by (auto simp: typedSettings_def t_def)
  then show "azure_responses_version r = (if ty = 3 then azure_responses_version t else JStr [])"
    by (simp add: r_def t_def ty_def parsedTypeSettings_def jprop_settings upstreamKeys_def om_get_passthrough
        om_get_credential Let_def js_or_def del: jprop.simps)
qed (simp_all add: r_def t_def ty_def parsedTypeSettings_def jprop_settings upstreamKeys_def om_get_passthrough
      om_get_credential Let_def keptWhen_def del: jprop.simps)


section \<open>A concrete channel\<close>

definition demoChannel :: Channel where
  "demoChannel =
     \<lparr>ch_name = ''demo'', ch_type = 1, ch_base_url = None, ch_openai_organization = None, ch_models = ''m'',
      ch_group = ''default'', ch_model_mapping = None, ch_priority = None, ch_weight = None, ch_test_model = None,
      ch_auto_ban = None, ch_status = 1, ch_status_code_mapping = None, ch_tag = None, ch_remark = [],
      ch_setting = None, ch_param_override = None, ch_header_override = None, ch_settings = ''{}'', ch_other = [],
      ch_multi_key_mode = ''random''\<rparr>"

lemma typedExtra_default: "typedExtra (form_extra CHANNEL_FORM_DEFAULT_VALUES)"
  by (auto simp: typedExtra_def CHANNEL_FORM_DEFAULT_VALUES_def defaultExtraSettings_def intro: exI [of _ "1 :: int"])

theorem channel_extra_roundtrip_witness:
  "\<exists>s. buildSettingJSON CHANNEL_FORM_DEFAULT_VALUES = Some s \<and>
     proxy (form_extra (transformChannelToFormDefaults (demoChannel\<lparr>ch_setting := Some s\<rparr>))) = JStr []"
  using channel_extra_roundtrip [OF typedExtra_default, of demoChannel]
  by (auto simp: normalizedExtra_def Let_def CHANNEL_FORM_DEFAULT_VALUES_def defaultExtraSettings_def)

text \<open>An AWS channel whose text had a key the form does not know.\<close>

definition awsForm :: ChannelFormValues where
  "awsForm = CHANNEL_FORM_DEFAULT_VALUES\<lparr>form_type := 33, form_settings := Some (json_stringify (JObj [(''note'', JStr ''x'')])),
     form_typed := defaultTypeSettings\<lparr>aws_key_type := JStr ''api_key''\<rparr>\<rparr>"

lemma typedSettings_aws: "typedSettings (form_typed awsForm)"
  by (simp add: typedSettings_def awsForm_def defaultTypeSettings_def parseAdvancedCustomConfig_def)

lemma note_wf: "json_wf (JObj [(''note'', JStr ''x'')])"
  by (simp add: js_object_plain)


end
