(* ===== verification/Channel_Accept.thy ===== *)
theory Channel_Accept
  imports Channel_Form_Laws
begin

text \<open>
  What an accepted channel form guarantees, and what the payload that updates a channel holds.
\<close>

section \<open>Accepted forms\<close>

lemma parse_normalize: "parseAdvancedCustomConfig s = Some c \<Longrightarrow> \<exists>v. normalizeAdvancedCustomConfig v = Some c"
  by (auto simp: parseAdvancedCustomConfig_def split: option.splits if_splits jsval.splits)

text \<open>The routes of an accepted form.\<close>

definition acceptedRoutes :: "url_parser \<Rightarrow> ChannelFormValues \<Rightarrow> AdvancedCustomConfig \<Rightarrow> bool" where
  "acceptedRoutes url f c \<longleftrightarrow>
     ValidConfig url c \<and>
     (list_ex (\<lambda>r. prefix ''/'' (upstream_path r)) (advanced_routes c) \<longrightarrow> \<not> blank_opt (form_base_url f)) \<and>
     (upstream_model_update_check_enabled (form_typed f) = JBool True \<longrightarrow>
        list_ex (\<lambda>r. routePath r = ADVANCED_CUSTOM_MODEL_LIST_PATH) (advanced_routes c))"

lemma opt_trim_path: "opt_trim (incoming_path r) = Some p \<Longrightarrow> p \<noteq> [] \<Longrightarrow> routePath r = p"
  using opt_trim_eq by (fastforce simp: routePath_def)

lemma advancedCustomIssues_Nil:
  assumes "advancedCustomIssues url f = Some []" and "form_type f = CHANNEL_TYPE_ADVANCED_CUSTOM"
  shows "\<exists>c. parseAdvancedCustomConfig (Some (advanced_custom (form_typed f))) = Some c \<and> acceptedRoutes url f c"
proof -
  define config where "config = parseAdvancedCustomConfig (Some (advanced_custom (form_typed f)))"
  from assms obtain e relative hasList where D: "validateAdvancedCustomConfig url config = Some e"
    "advancedCustomConfigUsesRelativeUpstreamPath config = Some relative"
    "(if upstream_model_update_check_enabled (form_typed f) = JBool True
      then hasValidAdvancedCustomModelListRoute url config else Some True) = Some hasList"
    "e = None" "\<not> (relative \<and> blank_opt (form_base_url f))"
    "\<not> (upstream_model_update_check_enabled (form_typed f) = JBool True \<and> \<not> hasList)"
    unfolding advancedCustomIssues_def config_def
    by (auto simp: bind_eq_Some_conv Let_def split: option.splits if_splits)
  obtain c where c: "config = Some c" using D(1,4) by (cases config) (auto simp: validateAdvancedCustomConfig_def)
  then obtain v where v: "normalizeAdvancedCustomConfig v = Some c" using parse_normalize config_def by metis
  note idem = normalizeConfig_idem [OF v]
  have valid: "ValidConfig url c" using validateConfig_iff [OF v, of url] D(1,4) c by simp
  have "js_trim (upstream_path r) = upstream_path r" if "r \<in> set (advanced_routes c)" for r
    using normalizeConfig_normal [OF v that] by (simp add: normalRoute_def)
  then have "relative = list_ex (\<lambda>r. prefix ''/'' (upstream_path r)) (advanced_routes c)"
    using D(2) by (auto simp: advancedCustomConfigUsesRelativeUpstreamPath_def c idem list_ex_iff)
  moreover have "list_ex (\<lambda>r. routePath r = ADVANCED_CUSTOM_MODEL_LIST_PATH) (advanced_routes c)"
    if "upstream_model_update_check_enabled (form_typed f) = JBool True"
    using D(1,3,4,6) that opt_trim_path [of _ ADVANCED_CUSTOM_MODEL_LIST_PATH]
    by (auto simp: hasValidAdvancedCustomModelListRoute_def c idem list_ex_iff ADVANCED_CUSTOM_MODEL_LIST_PATH_def)
  ultimately have "acceptedRoutes url f c" using valid D(5) unfolding acceptedRoutes_def by simp
  with c show ?thesis unfolding config_def by blast
qed


section \<open>Payloads\<close>

lemma normalizeBaseUrl_no_slash: "\<not> suffix ''/'' (normalizeBaseUrl u)"
proof
  let ?d = "dropWhile (\<lambda>c. c = CHR ''/'') (rev (js_trim (opt_str u)))"
  assume "suffix ''/'' (normalizeBaseUrl u)"
  then obtain xs where "rev ?d = xs @ ''/''" by (auto simp: normalizeBaseUrl_def suffix_def)
  then have "?d = CHR ''/'' # rev xs" by (metis rev_append rev_rev_ident rev_singleton_conv append_Cons append_Nil)
  then show False using hd_dropWhile [of "\<lambda>c. c = CHR ''/''" "rev (js_trim (opt_str u))"] by simp
qed

definition clearedFields :: "ChannelFormValues \<Rightarrow> (string \<times> string) list" where
  "clearedFields f =
     [(''base_url'', normalizeBaseUrl (form_base_url f)),
      (''openai_organization'', opt_str (form_openai_organization f)),
      (''test_model'', opt_str (form_test_model f)), (''tag'', opt_str (form_tag f)),
      (''remark'', opt_str (form_remark f)), (''model_mapping'', opt_str (form_model_mapping f)),
      (''status_code_mapping'', opt_str (form_status_code_mapping f)),
      (''param_override'', opt_str (form_param_override f)),
      (''header_override'', opt_str (form_header_override f))]"

lemma om_get_fold_fields:
  "om_get (fold (\<lambda>(k, v) m. om_set k v m) kvs m) k = (case map_of (rev kvs) k of Some v \<Rightarrow> Some v | None \<Rightarrow> om_get m k)"
  by (induction kvs arbitrary: m) (auto simp: om_get_set map_add_def split: option.splits)

lemma om_get_map_values: "om_get (map (\<lambda>(k, v). (k, g v)) m) k = map_option g (om_get m k)"
  unfolding om_get_def by (induction m) auto

text \<open>
  C34. The payload that updates a channel has the key only when one was typed, has an explicit text,
  possibly empty, for every optional field so that the server can clear it, and a base URL without a
  trailing slash.
\<close>

theorem channel_update_payload:
  assumes "transformFormDataToUpdatePayload f channelId = Some p"
  shows "om_get p ''key'' = (if js_trim (form_key f) = [] then None else Some (JStr (form_key f))) \<and>
    om_get p ''id'' = Some (JNum (Fin (of_nat channelId))) \<and>
    list_all (\<lambda>(k, s). om_get p k = Some (JStr s)) (clearedFields f) \<and>
    \<not> suffix ''/'' (normalizeBaseUrl (form_base_url f)) \<and>
    om_get p ''settings'' = map_option (\<lambda>s. empty_to_null (JStr s)) (buildSettingsJSON f)"
proof -
  from assms obtain setting settings where S: "buildSettingJSON f = Some setting" "buildSettingsJSON f = Some settings"
    by (auto simp: transformFormDataToUpdatePayload_def bind_eq_Some_conv)
  note p = assms [unfolded transformFormDataToUpdatePayload_def S Option.bind.bind_lunit Let_def option.inject, symmetric]
  have "js_trim (form_key f) \<noteq> [] \<Longrightarrow> form_key f \<noteq> []" by auto
  then have "om_get p ''key'' = (if js_trim (form_key f) = [] then None else Some (JStr (form_key f)))"
    unfolding p om_get_fold_fields om_get_map_values by (simp add: om_get_set om_get_def empty_to_null_def)
  moreover have "om_get p ''id'' = Some (JNum (Fin (of_nat channelId)))"
    "om_get p ''settings'' = Some (empty_to_null (JStr settings))"
    unfolding p om_get_fold_fields om_get_map_values by (simp_all add: om_get_set om_get_def empty_to_null_def)
  moreover have "list_all (\<lambda>(k, s). om_get p k = Some (JStr s)) (clearedFields f)"
    unfolding p om_get_fold_fields clearedFields_def by simp
  ultimately show ?thesis using S(2) normalizeBaseUrl_no_slash by simp
qed

section \<open>Concrete forms\<close>

definition customForm :: ChannelFormValues where
  "customForm = CHANNEL_FORM_DEFAULT_VALUES\<lparr>form_type := 58, form_base_url := Some ''https://x'',
     form_typed := defaultTypeSettings\<lparr>advanced_custom := json_pretty (config_json createAdvancedCustomConfig)\<rparr>\<rparr>"

lemma create_accepted: "validateAdvancedCustomConfig url (Some createAdvancedCustomConfig) = Some None"
  using create_valid validateConfig_iff [OF create_normal] by simp

lemma customForm_issues: "channelFormIssues url customForm = Some []"
proof -
  have parsed: "parseAdvancedCustomConfig (Some (json_pretty (config_json createAdvancedCustomConfig))) =
      Some createAdvancedCustomConfig"
    by (rule parse_pretty [OF create_wf create_normal])
  have "\<exists>b. advancedCustomConfigUsesRelativeUpstreamPath (Some createAdvancedCustomConfig) = Some b"
    by (simp add: advancedCustomConfigUsesRelativeUpstreamPath_def create_normal)
  moreover have "js_trim ''https://x'' = ''https://x''" by (simp add: solid_ends)
  ultimately have "advancedCustomIssues url customForm = Some []"
    by (auto simp: advancedCustomIssues_def customForm_def CHANNEL_TYPE_ADVANCED_CUSTOM_def parsed create_accepted
        defaultTypeSettings_def opt_str_def)
  then show ?thesis
    by (simp add: channelFormIssues_def customForm_def credentialIssues_def transportIssues_def CHANNEL_TYPE_NEW_API_def
        CHANNEL_FORM_DEFAULT_VALUES_def defaultExtraSettings_def MAX_HTTP2_CONNECTION_SHARDS_def)
qed


theorem channel_update_payload_witness:
  "\<exists>p. transformFormDataToUpdatePayload awsForm 7 = Some p \<and> om_get p ''key'' = None \<and>
     om_get p ''tag'' = Some (JStr [])"
proof -
  have "\<exists>s. buildSettingJSON awsForm = Some s" "\<exists>s. buildSettingsJSON awsForm = Some s"
    using json_parse_stringify [OF note_wf] existing_settings [OF note_wf] json_text_nonempty
    by (auto simp: buildSettingJSON_def settingObj_def awsForm_def CHANNEL_FORM_DEFAULT_VALUES_def defaultExtraSettings_def
        buildSettingsJSON_def opt_str_def Let_def)
  then obtain p where p: "transformFormDataToUpdatePayload awsForm 7 = Some p"
    by (auto simp: transformFormDataToUpdatePayload_def Let_def)
  show ?thesis
    using p channel_update_payload [OF p]
    by (auto simp: clearedFields_def awsForm_def CHANNEL_FORM_DEFAULT_VALUES_def opt_str_def)
qed

end
