(* ===== verification/Status_Redirects.thy ===== *)
theory Status_Redirects
  imports Model_Mapping "HOL-Library.List_Lexorder" "HOL-Library.Char_ord"
begin

text \<open>
  The guard on the status code mapping of a channel, \<open>channels/lib/status-code-risk-guard.ts\<close>: the
  entries that are not a pair of status codes, and the redirects of the
  codes 504 and 524, which are not to be redirected, that an edit adds.  A default \<open>sort\<close> of strings compares code units; the strings
  sorted here are ASCII, where that is the order of the bytes.
\<close>

definition NON_REDIRECTABLE_STATUS_CODES :: "nat list" where
  "NON_REDIRECTABLE_STATUS_CODES = [504, 524]"

text \<open>The pattern \<open>^[1-5]\d{2}$\<close>.\<close>

definition threeDigits :: "string \<Rightarrow> bool" where
  "threeDigits s \<longleftrightarrow> length s = 3 \<and> list_all is_digit s \<and> 1 \<le> digit_val (hd s) \<and> digit_val (hd s) \<le> 5"

definition parseStatusCodeKey :: "string \<Rightarrow> nat option" where
  "parseStatusCodeKey rawKey =
     (let normalized = js_trim rawKey in
      if \<not> threeDigits normalized then None else Some (digits_val normalized))"

fun parseStatusCodeMappingTarget :: "jsval \<Rightarrow> nat option" where
  "parseStatusCodeMappingTarget (JNum (Fin x)) =
     (if of_int \<lfloor>x\<rfloor> = x then (if 100 \<le> x \<and> x \<le> 599 then Some (nat \<lfloor>x\<rfloor>) else None) else None)"
| "parseStatusCodeMappingTarget (JStr s) =
     (let normalized = js_trim s in
      if \<not> threeDigits normalized then None
      else
        (let code = digits_val normalized in
         if 100 \<le> code \<and> code \<le> 599 then Some code else None))"
| "parseStatusCodeMappingTarget _ = None"

definition arrow :: string where
  "arrow = '' '' @ [CHR 0xE2, CHR 0x86, CHR 0x92] @ '' ''"

definition collectInvalidStatusCodeEntries :: "string \<Rightarrow> string list" where
  "collectInvalidStatusCodeEntries statusCodeMappingStr =
     (if js_trim statusCodeMappingStr = [] then []
      else
        (case object_fields (json_parse statusCodeMappingStr) of
           None \<Rightarrow> []
         | Some entries \<Rightarrow>
             foldl (\<lambda>invalid (rawKey, rawValue).
               let fromCode = parseStatusCodeKey rawKey;
                   toCode = parseStatusCodeMappingTarget rawValue in
               if fromCode = None \<or> toCode = None then invalid @ [rawKey @ arrow @ js_str rawValue] else invalid)
             [] entries))"

definition showRedirect :: "nat \<Rightarrow> nat \<Rightarrow> string" where
  "showRedirect fromCode toCode = nat_str fromCode @ '' -> '' @ nat_str toCode"

definition riskyMappings :: "(string \<times> jsval) list \<Rightarrow> string list" where
  "riskyMappings entries =
     foldl (\<lambda>acc (rawFrom, rawTo).
       case (parseStatusCodeKey rawFrom, parseStatusCodeMappingTarget rawTo) of
         (Some fromCode, Some toCode) \<Rightarrow>
           (if fromCode \<notin> set NON_REDIRECTABLE_STATUS_CODES then acc
            else if fromCode = toCode then acc
            else acc @ [showRedirect fromCode toCode])
       | _ \<Rightarrow> acc) [] entries"

definition collectDisallowedStatusCodeRedirects :: "string \<Rightarrow> string list" where
  "collectDisallowedStatusCodeRedirects statusCodeMappingStr =
     (if js_trim statusCodeMappingStr = [] then []
      else
        (case object_fields (json_parse statusCodeMappingStr) of
           None \<Rightarrow> []
         | Some entries \<Rightarrow> js_sort (by_key id) (os_of (riskyMappings entries))))"

definition collectNewDisallowedStatusCodeRedirects :: "string \<Rightarrow> string \<Rightarrow> string list" where
  "collectNewDisallowedStatusCodeRedirects originalStr currentStr =
     (let currentRisky = collectDisallowedStatusCodeRedirects currentStr in
      if currentRisky = [] then []
      else
        (let originalRiskySet = os_of (collectDisallowedStatusCodeRedirects originalStr) in
         filter (\<lambda>mapping. mapping \<notin> set originalRiskySet) currentRisky))"

section \<open>What a mapping redirects\<close>

text \<open>The redirects of a mapping, from the text, independently of the guard.\<close>

definition redirects :: "string \<Rightarrow> (nat \<times> nat) set" where
  "redirects m =
     {(f, t). \<exists>fs k v. js_trim m \<noteq> [] \<and> json_parse m = Some (JObj fs) \<and> (k, v) \<in> set fs \<and>
        parseStatusCodeKey k = Some f \<and> parseStatusCodeMappingTarget v = Some t}"

definition riskyRedirects :: "string \<Rightarrow> (nat \<times> nat) set" where
  "riskyRedirects m = {(f, t) \<in> redirects m. (f = 504 \<or> f = 524) \<and> f \<noteq> t}"

lemma split_showRedirect: "split_on (CHR '' '') (showRedirect a b) = [nat_str a, ''->'', nat_str b]"
proof -
  have sp: "CHR '' '' \<notin> set (nat_str n)" for n
    using nat_str_digits [of "CHR '' ''" n] by (auto simp: is_digit_def)
  have "showRedirect a b = nat_str a @ CHR '' '' # (''->'' @ CHR '' '' # nat_str b)"
    by (simp add: showRedirect_def)
  then show ?thesis by (simp add: split_on_append split_on_none sp del: append.simps)
qed

lemma showRedirect_inject [simp]: "showRedirect a b = showRedirect c d \<longleftrightarrow> a = c \<and> b = d"
proof
  assume "showRedirect a b = showRedirect c d"
  then have "[nat_str a, ''->'', nat_str b] = [nat_str c, ''->'', nat_str d]"
    by (metis split_showRedirect)
  then show "a = c \<and> b = d" by simp
qed simp

definition riskyEntry :: "string \<times> jsval \<Rightarrow> string list" where
  "riskyEntry e =
     (case (parseStatusCodeKey (fst e), parseStatusCodeMappingTarget (snd e)) of
        (Some f, Some t) \<Rightarrow> if (f = 504 \<or> f = 524) \<and> f \<noteq> t then [showRedirect f t] else []
      | _ \<Rightarrow> [])"

lemma riskyMappings_eq: "riskyMappings fs = concat (map riskyEntry fs)"
  unfolding riskyMappings_def
  by (subst foldl_collect [where f = riskyEntry])
    (auto simp: riskyEntry_def NON_REDIRECTABLE_STATUS_CODES_def split: option.splits prod.splits)

lemma set_riskyEntry:
  "r \<in> set (riskyEntry (k, v)) \<longleftrightarrow>
     (\<exists>f t. parseStatusCodeKey k = Some f \<and> parseStatusCodeMappingTarget v = Some t \<and>
        (f = 504 \<or> f = 524) \<and> f \<noteq> t \<and> r = showRedirect f t)"
  by (auto simp: riskyEntry_def split: option.splits)

lemma set_collectDisallowed:
  "set (collectDisallowedStatusCodeRedirects m) = (\<lambda>(f, t). showRedirect f t) ` riskyRedirects m"
proof (cases "js_trim m \<noteq> [] \<and> (\<exists>fs. json_parse m = Some (JObj fs))")
  case True
  then obtain fs where fs: "js_trim m \<noteq> []" "json_parse m = Some (JObj fs)" by blast
  then have "set (collectDisallowedStatusCodeRedirects m) = (\<Union>e \<in> set fs. set (riskyEntry e))"
    by (simp add: collectDisallowedStatusCodeRedirects_def riskyMappings_eq)
  also have "\<dots> = (\<lambda>(f, t). showRedirect f t) ` riskyRedirects m"
    using fs by (force simp: riskyRedirects_def redirects_def set_riskyEntry)
  finally show ?thesis .
next
  case False
  then have "collectDisallowedStatusCodeRedirects m = []"
    by (cases "object_fields (json_parse m)")
      (auto simp: collectDisallowedStatusCodeRedirects_def dest: object_fields_SomeD)
  with False show ?thesis by (auto simp: riskyRedirects_def redirects_def)
qed

lemma set_collectNew:
  "set (collectNewDisallowedStatusCodeRedirects old new) =
     (\<lambda>(f, t). showRedirect f t) ` (riskyRedirects new - riskyRedirects old)"
proof -
  have "set (collectNewDisallowedStatusCodeRedirects old new) =
      set (collectDisallowedStatusCodeRedirects new) - set (collectDisallowedStatusCodeRedirects old)"
    by (auto simp: collectNewDisallowedStatusCodeRedirects_def Let_def)
  also have "\<dots> = (\<lambda>(f, t). showRedirect f t) ` (riskyRedirects new - riskyRedirects old)"
    unfolding set_collectDisallowed by (intro inj_on_image_set_diff [symmetric, of _ UNIV]) (auto intro: injI)
  finally show ?thesis .
qed

lemma collectNew_Nil:
  "collectNewDisallowedStatusCodeRedirects old new = [] \<longleftrightarrow> riskyRedirects new \<subseteq> riskyRedirects old"
  using set_collectNew [of old new] by (metis Diff_eq_empty_iff image_is_empty set_empty)

lemma collectInvalid_fields:
  assumes "js_trim m \<noteq> []" and "json_parse m = Some (JObj fs)"
  shows "collectInvalidStatusCodeEntries m =
    map (\<lambda>(k, v). k @ arrow @ js_str v)
      (filter (\<lambda>(k, v). parseStatusCodeKey k = None \<or> parseStatusCodeMappingTarget v = None) fs)"
proof -
  define f where "f = (\<lambda>(k, v). if parseStatusCodeKey k = None \<or> parseStatusCodeMappingTarget v = None
    then [k @ arrow @ js_str v] else [])"
  have "collectInvalidStatusCodeEntries m = concat (map f fs)"
    using assms unfolding collectInvalidStatusCodeEntries_def
    by (simp, subst foldl_collect [where f = f]) (auto simp: f_def Let_def)
  also have "\<dots> = map (\<lambda>(k, v). k @ arrow @ js_str v)
      (filter (\<lambda>(k, v). parseStatusCodeKey k = None \<or> parseStatusCodeMappingTarget v = None) fs)"
    by (induction fs) (auto simp: f_def split: if_splits)
  finally show ?thesis .
qed

lemma parseStatusCode_bounds:
  "parseStatusCodeKey k = Some f \<Longrightarrow> 100 \<le> f \<and> f \<le> 599"
  "parseStatusCodeMappingTarget v = Some t \<Longrightarrow> 100 \<le> t \<and> t \<le> 599"
proof -
  have "100 \<le> digits_val s \<and> digits_val s \<le> 599" if "threeDigits s" for s
  proof -
    from that obtain a b c where "s = [a, b, c]" by (auto simp: threeDigits_def eval_nat_numeral length_Suc_conv)
    with that show ?thesis by (auto simp: threeDigits_def digits_val_def is_digit_def digit_val_def)
  qed
  then show "parseStatusCodeKey k = Some f \<Longrightarrow> 100 \<le> f \<and> f \<le> 599"
    by (auto simp: parseStatusCodeKey_def Let_def split: if_splits)
  show "parseStatusCodeMappingTarget v = Some t \<Longrightarrow> 100 \<le> t \<and> t \<le> 599"
    by (cases v rule: parseStatusCodeMappingTarget.cases) (auto simp: Let_def le_nat_iff nat_le_iff le_floor_iff floor_le_iff split: if_splits)
qed

interpretation byte_strings: comparator "by_key (id :: string \<Rightarrow> string)"
  by (rule signed_comparator.axioms(1) [OF signed_comparator_by_key])

text \<open>
  C40. The guard lists, sorted and without repetitions, exactly the redirects of 504 and 524 to another
  code that the edited mapping has and the original did not, and stays silent exactly when there is
  no such redirect.
\<close>

theorem status_redirect_guard:
  "sorted (collectDisallowedStatusCodeRedirects current) \<and>
   distinct (collectDisallowedStatusCodeRedirects current) \<and>
   set (collectNewDisallowedStatusCodeRedirects original current) =
     (\<lambda>(f, t). showRedirect f t) ` (riskyRedirects current - riskyRedirects original) \<and>
   (collectNewDisallowedStatusCodeRedirects original current = [] \<longleftrightarrow> riskyRedirects current \<subseteq> riskyRedirects original)"
proof -
  have "sorted_wrt (\<le>) (collectDisallowedStatusCodeRedirects current)"
    using byte_strings.sorted_js_sort
    by (auto simp: collectDisallowedStatusCodeRedirects_def by_key_def split: option.split)
  moreover have "distinct (js_sort (by_key id) (os_of xs))" for xs :: "string list"
    using distinct_map_js_sort [where f = id and cmp = "by_key id" and xs = "os_of xs"] by simp
  then have "distinct (collectDisallowedStatusCodeRedirects current)"
    by (auto simp: collectDisallowedStatusCodeRedirects_def split: option.split)
  ultimately show ?thesis
    by (simp add: set_collectNew collectNew_Nil)
qed

end
