(* ===== verification/Channel_Submit.thy ===== *)
theory Channel_Submit
  imports Channel_Accept Status_Redirects
begin

text \<open>
  The submit handler of the channel drawer (\<open>onSubmit\<close> in \<open>channel-mutate-drawer.tsx\<close>), which puts
  the checks on the key, the sensitive fields, the status code mapping and the model mapping in
  sequence.  The two dialogs it opens are functions from what they show to the answer; the request
  that follows is the outcome \<open>Submitted\<close> with the data it sends.
\<close>

definition SENSITIVE_FORM_FIELDS :: "string list" where
  "SENSITIVE_FORM_FIELDS =
     [''type'', ''base_url'', ''key'', ''openai_organization'', ''other'', ''key_mode'', ''param_override'',
      ''header_override'', ''settings'', ''setting'', ''advanced_custom'', ''is_enterprise_account'',
      ''vertex_key_type'', ''aws_key_type'', ''azure_responses_version'', ''force_format'', ''thinking_to_content'',
      ''proxy'', ''http_protocol'', ''http2_connection_shards'', ''pass_through_body_enabled'', ''system_prompt'',
      ''system_prompt_override'', ''allow_service_tier'', ''disable_store'', ''allow_safety_identifier'',
      ''allow_include_obfuscation'', ''allow_inference_geo'', ''allow_speed'', ''claude_beta_query'',
      ''disable_task_polling_sleep'', ''upstream_model_update_check_enabled'',
      ''upstream_model_update_auto_sync_enabled'', ''upstream_model_update_ignored_models'']"

datatype MissingModelsAction = ActionCancel | ActionSubmit | ActionAdd

text \<open>What the handler reads of the component: its mode, the dirty fields, the values the form was
  opened with, and the answers of the dialogs.\<close>

record SubmitContext =
  isEditing :: bool
  sensitiveLocked :: bool
  dirtyField :: "string \<Rightarrow> bool"
  initialStatusCodeMapping :: string
  initialModels :: "string list"
  initialModelMapping :: string
  confirmStatusCodeRisk :: "string list \<Rightarrow> bool"
  confirmMissingModelMappings :: "string list \<Rightarrow> MissingModelsAction"

datatype SubmitOutcome =
    KeyRequired
  | SensitiveDenied
  | InvalidStatusEntries "string list"
  | RiskDeclined "string list"
  | MappingRejected string
  | MissingCancelled "string list"
  | Submitted ChannelFormValues

definition keyStage :: "SubmitContext \<Rightarrow> ChannelFormValues \<Rightarrow> SubmitOutcome option" where
  "keyStage ctx f =
     (if \<not> isEditing ctx \<and> js_trim (form_key f) = [] then Some KeyRequired
      else if sensitiveLocked ctx \<and> list_ex (dirtyField ctx) SENSITIVE_FORM_FIELDS then Some SensitiveDenied
      else None)"

definition statusStage :: "SubmitContext \<Rightarrow> ChannelFormValues \<Rightarrow> SubmitOutcome option" where
  "statusStage ctx f =
     (if \<not> blank_opt (form_status_code_mapping f) then
        (let mapping = opt_str (form_status_code_mapping f);
             invalidEntries = collectInvalidStatusCodeEntries mapping in
         if 0 < length invalidEntries then Some (InvalidStatusEntries invalidEntries)
         else
           (let riskyRedirects = collectNewDisallowedStatusCodeRedirects (initialStatusCodeMapping ctx) mapping in
            if 0 < length riskyRedirects \<and> \<not> confirmStatusCodeRisk ctx riskyRedirects
            then Some (RiskDeclined riskyRedirects) else None))
      else None)"

definition mappingStage :: "SubmitContext \<Rightarrow> ChannelFormValues \<Rightarrow> SubmitOutcome" where
  "mappingStage ctx f =
     (let hasModelMapping = (\<not> blank_opt (form_model_mapping f));
          modelMappingValue = opt_str (form_model_mapping f) in
      case (if hasModelMapping then validateModelMappingJson modelMappingValue else MappingValid) of
        MappingError e \<Rightarrow> MappingRejected e
      | MappingValid \<Rightarrow>
          (let normalizedModels = parseModelsString (form_models f) in
           if hasModelMapping then
             (let missingModels = findMissingModelsInMapping modelMappingValue normalizedModels;
                  shouldPromptMissing = (0 < length missingModels \<and>
                    hasModelConfigChanged normalizedModels modelMappingValue (initialModels ctx) (initialModelMapping ctx)) in
              if shouldPromptMissing then
                (case confirmMissingModelMappings ctx missingModels of
                   ActionCancel \<Rightarrow> MissingCancelled missingModels
                 | ActionSubmit \<Rightarrow> Submitted f
                 | ActionAdd \<Rightarrow>
                     Submitted (f\<lparr>form_models := formatModelsArray (os_of (normalizedModels @ missingModels))\<rparr>))
              else Submitted f)
           else Submitted f))"

definition onSubmit :: "SubmitContext \<Rightarrow> ChannelFormValues \<Rightarrow> SubmitOutcome" where
  "onSubmit ctx f =
     (case keyStage ctx f of
        Some r \<Rightarrow> r
      | None \<Rightarrow> (case statusStage ctx f of Some r \<Rightarrow> r | None \<Rightarrow> mappingStage ctx f))"

section \<open>What is submitted\<close>

lemma validate_blank: "js_trim m = [] \<Longrightarrow> validateModelMappingJson m = MappingValid"
  by (simp add: validateModelMappingJson_def)

lemma mappingStage_valid: "mappingStage ctx f = Submitted g \<Longrightarrow> validateModelMappingJson (opt_str (form_model_mapping f)) = MappingValid"
  by (auto simp: mappingStage_def Let_def validate_blank split: if_splits MappingValidation.splits)

text \<open>The models that are sent: those of the form, or those and the missing ones.\<close>

definition addedModels :: "ChannelFormValues \<Rightarrow> string list" where
  "addedModels f = findMissingModelsInMapping (opt_str (form_model_mapping f)) (parseModelsString (form_models f))"

lemma mappingStage_cases:
  assumes "mappingStage ctx f = Submitted g"
  shows "g = f \<and> (addedModels f = [] \<or>
      \<not> hasModelConfigChanged (parseModelsString (form_models f)) (opt_str (form_model_mapping f)) (initialModels ctx) (initialModelMapping ctx) \<or>
      confirmMissingModelMappings ctx (addedModels f) = ActionSubmit) \<or>
    confirmMissingModelMappings ctx (addedModels f) = ActionAdd \<and>
      g = f\<lparr>form_models := formatModelsArray (os_of (parseModelsString (form_models f) @ addedModels f))\<rparr>"
  using assms
  by (auto simp: mappingStage_def addedModels_def Let_def findMissing_blank
      split: if_splits MappingValidation.splits MissingModelsAction.splits)

text \<open>After the missing models were added none is missing, unless a name holds a comma.\<close>

lemma added_complete:
  assumes "\<forall>m \<in> set (addedModels f). CHR '','' \<notin> set m"
  shows "findMissingModelsInMapping (opt_str (form_model_mapping f))
    (parseModelsString (formatModelsArray (os_of (parseModelsString (form_models f) @ addedModels f)))) = []"
proof (rule findMissing_mono)
  let ?cur = "parseModelsString (form_models f)"
  have "cleanName m" if "m \<in> set (addedModels f)" for m
    using assms that findMissing_names(1,2) [OF that [unfolded addedModels_def]] by (simp add: cleanName_def)
  then have clean: "\<forall>m \<in> set (?cur @ addedModels f). cleanName m"
    using parseModelsString_clean by auto
  then have "parseModelsString (formatModelsArray (os_of (?cur @ addedModels f))) = os_of (?cur @ addedModels f)"
    by (simp add: parse_formatModelsArray)
  moreover have "normalizeModelName m = m" if "m \<in> set (addedModels f)" for m
    using clean that by (simp add: cleanName_def normalizeModelName_def)
  then have "set (addedModels f) \<subseteq> normalizeModelName ` set (addedModels f)" by force
  ultimately show "normalizeModelName ` set ?cur \<union> set (findMissingModelsInMapping (opt_str (form_model_mapping f)) ?cur)
      \<subseteq> normalizeModelName ` set (parseModelsString (formatModelsArray (os_of (?cur @ addedModels f))))"
    by (auto simp: addedModels_def)
qed


section \<open>A submission that adds a model\<close>

definition submitForm :: "string \<Rightarrow> ChannelFormValues" where
  "submitForm source = CHANNEL_FORM_DEFAULT_VALUES\<lparr>form_key := ''k'', form_models := ''b'',
     form_model_mapping := Some (json_stringify (JObj [(source, JStr ''b'')]))\<rparr>"

definition addingContext :: SubmitContext where
  "addingContext = \<lparr>isEditing = False, sensitiveLocked = False, dirtyField = (\<lambda>_. True), initialStatusCodeMapping = [],
     initialModels = [], initialModelMapping = [], confirmStatusCodeRisk = (\<lambda>_. False),
     confirmMissingModelMappings = (\<lambda>_. ActionAdd)\<rparr>"

lemma js_trim_letters [simp]: "js_trim ''a'' = ''a''" "js_trim ''b'' = ''b''" "js_trim ''k'' = ''k''" "js_trim ''a,c'' = ''a,c''" "js_trim ''c'' = ''c''"
proof -
  have "solid (CHR ''a'')" "solid (CHR ''b'')" "solid (CHR ''c'')" by (simp_all add: solid_def js_ws_def)
  then show "js_trim ''a'' = ''a''" "js_trim ''b'' = ''b''" "js_trim ''k'' = ''k''" "js_trim ''a,c'' = ''a,c''" "js_trim ''c'' = ''c''"
    by (simp_all add: solid_ends)
qed

lemma submit_missing:
  assumes "source = ''a'' \<or> source = ''a,c''"
  shows "addedModels (submitForm source) = [source]" and
    "onSubmit addingContext (submitForm source) =
       Submitted ((submitForm source)\<lparr>form_models := formatModelsArray [''b'', source]\<rparr>)"
proof -
  let ?m = "json_stringify (JObj [(source, JStr ''b'')])"
  have "\<not> is_digit (hd source)" using assms by auto
  then have wf: "json_wf (JObj [(source, JStr ''b'')])" by (simp add: js_object_plain)
  note parsed = json_parse_stringify [OF wf]
  have trim: "js_trim ?m \<noteq> []" by (rule json_pretty_object)
  then have ne: "?m \<noteq> []" by auto
  have b: "parseModelsString ''b'' = [''b'']" by (simp add: parseModelsString_def)
  have missing: "findMissingModelsInMapping ?m [''b''] = [source]"
    using assms trim by (auto simp: findMissing_fields [OF trim, of "[(source, JStr ''b'')]"] parsed normalizeModelName_def)
  then show added: "addedModels (submitForm source) = [source]"
    by (simp add: addedModels_def submitForm_def opt_str_def b)
  have "validateModelMappingJson ?m = MappingValid"
    using validateModelMappingJson_valid [of ?m] parsed by simp
  moreover have "hasModelConfigChanged [''b''] ?m [] []" by (simp add: hasModelConfigChanged_def)
  moreover have "os_of [''b'', source] = [''b'', source]" using assms by auto
  ultimately show "onSubmit addingContext (submitForm source) =
       Submitted ((submitForm source)\<lparr>form_models := formatModelsArray [''b'', source]\<rparr>)"
    using trim missing
    by (simp add: onSubmit_def keyStage_def statusStage_def mappingStage_def submitForm_def addingContext_def opt_str_def b
        CHANNEL_FORM_DEFAULT_VALUES_def Let_def)
qed


text \<open>A source that holds a comma stays missing: writing the list splits it.\<close>

theorem channel_submit_comma:
  "\<exists>g. onSubmit addingContext (submitForm ''a,c'') = Submitted g \<and>
     findMissingModelsInMapping (opt_str (form_model_mapping g)) (parseModelsString (form_models g)) = [''a,c'']"
proof -
  let ?g = "(submitForm ''a,c'')\<lparr>form_models := ''b,a,c''\<rparr>"
  have fm: "formatModelsArray [''b'', ''a,c''] = ''b,a,c''" by (simp add: formatModelsArray_def os_of_def os_add_def)
  have run: "onSubmit addingContext (submitForm ''a,c'') = Submitted ?g" using submit_missing(2) [of "''a,c''"] by (simp add: fm)
  have "parseModelsString ''b,a,c'' = [''b'', ''a'', ''c'']" by (simp add: parseModelsString_def)
  moreover have "json_wf (JObj [(''a,c'', JStr ''b'')])" by (simp add: js_object_plain)
  then have "object_fields (json_parse (json_stringify (JObj [(''a,c'', JStr ''b'')]))) = Some [(''a,c'', JStr ''b'')]"
    by (simp add: json_parse_stringify)
  ultimately have "findMissingModelsInMapping (opt_str (form_model_mapping ?g)) (parseModelsString (form_models ?g)) = [''a,c'']"
    using findMissing_fields [OF json_pretty_object(2)] by (simp add: submitForm_def opt_str_def normalizeModelName_def)
  with run show ?thesis by blast
qed

end
