(* ===== verification/Ratio_Sync.thy ===== *)
theory Ratio_Sync
  imports Js_Coerce
begin

text \<open>
  The selection of upstream prices: \<open>system-settings/models/upstream-ratio-sync-helpers.ts\<close>.  For each
  model and each kind of price the upstreams propose a value; the administrator selects some, and the
  selections are collected per model.  A record of the sources is an insertion-ordered map; its keys
  are names of models, upstreams and kinds of price, none of them an array index (which an object would
  enumerate first) or a property that every object inherits.
\<close>

section \<open>Data\<close>

text \<open>A proposed value is a number or a text, \<open>same\<close> included; a proposal may also be \<open>null\<close>.\<close>

datatype SyncValue = SNum rat | SText string

record RatioDifferenceEntry =
  currentValue :: "SyncValue option"
  upstreams :: "(string, SyncValue option) omap"
  confidence :: "(string, bool) omap"

type_synonym ratio_types = "(string, RatioDifferenceEntry) omap"
type_synonym model_resolution = "(string, SyncValue) omap"
type_synonym resolutions_map = "(string, model_resolution) omap"
type_synonym differences = "(string, ratio_types) omap"

record ResolutionSelection =
  selModel :: string
  selRatioType :: string
  selValue :: SyncValue
  selSourceName :: string

record ResolutionRemoval =
  remModel :: string
  remRatioType :: string

definition RATIO_SYNC_FIELDS :: "string list" where
  "RATIO_SYNC_FIELDS =
     [''model_ratio'', ''completion_ratio'', ''cache_ratio'', ''create_cache_ratio'', ''image_ratio'', ''audio_ratio'',
      ''audio_completion_ratio'']"

definition SYNC_FIELD_ORDER :: "string list" where
  "SYNC_FIELD_ORDER = RATIO_SYNC_FIELDS @ [''model_price'', ''billing_mode'', ''billing_expr'']"

definition NUMERIC_SYNC_FIELDS :: "string list" where
  "NUMERIC_SYNC_FIELDS = RATIO_SYNC_FIELDS @ [''model_price'']"

definition RATIO_TYPE_OPTIONS :: "(string \<times> string) list" where
  "RATIO_TYPE_OPTIONS =
     [(''Model ratio'', ''model_ratio''), (''Completion ratio'', ''completion_ratio''), (''Cache ratio'', ''cache_ratio''),
      (''Create cache ratio'', ''create_cache_ratio''), (''Image ratio'', ''image_ratio''), (''Audio ratio'', ''audio_ratio''),
      (''Audio completion ratio'', ''audio_completion_ratio''), (''Fixed price'', ''model_price''),
      (''Expression billing'', ''billing_expr'')]"

definition OFFICIAL_CHANNEL_ID :: int where "OFFICIAL_CHANNEL_ID = - 100"
definition OFFICIAL_CHANNEL_NAME :: string where
  "OFFICIAL_CHANNEL_NAME =
     [CHR 0xE5, CHR 0xAE, CHR 0x98, CHR 0xE6, CHR 0x96, CHR 0xB9, CHR 0xE5, CHR 0x80, CHR 0x8D, CHR 0xE7, CHR 0x8E, CHR 0x87, CHR 0xE9, CHR 0xA2, CHR 0x84, CHR 0xE8, CHR 0xAE, CHR 0xBE]"
definition MODELS_DEV_PRESET_ID :: int where "MODELS_DEV_PRESET_ID = - 101"
definition MODELS_DEV_PRESET_NAME :: string where
  "MODELS_DEV_PRESET_NAME =
     ''models.dev '' @ [CHR 0xE4, CHR 0xBB, CHR 0xB7, CHR 0xE6, CHR 0xA0, CHR 0xBC, CHR 0xE9, CHR 0xA2, CHR 0x84, CHR 0xE8, CHR 0xAE, CHR 0xBE]"

section \<open>Fields and values\<close>

text \<open>The translation function is an argument.\<close>

definition getSyncFieldLabel :: "string \<Rightarrow> (string \<Rightarrow> string) \<Rightarrow> string" where
  "getSyncFieldLabel ratioType t =
     (case find (\<lambda>(_, v). v = ratioType) RATIO_TYPE_OPTIONS of Some (label, _) \<Rightarrow> t label | None \<Rightarrow> ratioType)"

definition getOrderedRatioTypes :: "ratio_types \<Rightarrow> string option \<Rightarrow> string list" where
  "getOrderedRatioTypes ratioTypes flt =
     (let keys = om_keys ratioTypes;
          ordered = filter (\<lambda>f. f \<in> set keys) SYNC_FIELD_ORDER @ filter (\<lambda>f. f \<notin> set SYNC_FIELD_ORDER) keys in
      case flt of
        None \<Rightarrow> ordered
      | Some s \<Rightarrow> if s = [] \<or> s = ''__all__'' then ordered else filter (\<lambda>f. f = s) ordered)"

text \<open>\<open>ratioTypes[field]?.upstreams?.[source]\<close> when it is a value to select.\<close>

definition isSelectableUpstreamValue :: "SyncValue option option \<Rightarrow> bool" where
  "isSelectableUpstreamValue v = (v \<noteq> Some None \<and> v \<noteq> None \<and> v \<noteq> Some (Some (SText ''same'')))"

definition upstreamValue :: "ratio_types \<Rightarrow> string \<Rightarrow> string \<Rightarrow> SyncValue option option" where
  "upstreamValue ratioTypes field sourceName =
     (case om_get ratioTypes field of None \<Rightarrow> None | Some e \<Rightarrow> om_get (upstreams e) sourceName)"

definition getPreferredSyncField :: "ratio_types \<Rightarrow> string \<Rightarrow> string \<Rightarrow> string" where
  "getPreferredSyncField ratioTypes ratioType sourceName =
     (let exprValue = upstreamValue ratioTypes ''billing_expr'' sourceName in
      if ratioType \<noteq> ''billing_expr'' \<and> isSelectableUpstreamValue exprValue then ''billing_expr'' else ratioType)"

definition getVisibleRatioTypesForSource :: "ratio_types \<Rightarrow> string \<Rightarrow> string option \<Rightarrow> string list" where
  "getVisibleRatioTypesForSource ratioTypes sourceName flt =
     filter (\<lambda>ratioType. getPreferredSyncField ratioTypes ratioType sourceName = ratioType)
       (getOrderedRatioTypes ratioTypes flt)"

definition getAlignedRatioTypes :: "ratio_types \<Rightarrow> string list \<Rightarrow> string option \<Rightarrow> string list" where
  "getAlignedRatioTypes ratioTypes sourceNames flt =
     (let ordered = getOrderedRatioTypes ratioTypes flt in
      if length sourceNames = 0 then ordered
      else
        (let visible = foldl (\<lambda>acc sourceName. foldl os_add acc (getVisibleRatioTypesForSource ratioTypes sourceName flt))
               [] sourceNames in
         filter (\<lambda>ratioType. ratioType \<in> set visible) ordered))"

datatype BillingCategory = CatPrice | CatRatio | CatTiered

definition getBillingCategory :: "string \<Rightarrow> BillingCategory" where
  "getBillingCategory ratioType =
     (if ratioType = ''model_price'' then CatPrice
      else if ratioType = ''billing_mode'' \<or> ratioType = ''billing_expr'' then CatTiered
      else CatRatio)"

definition getUpstreamDisplayName :: "string \<Rightarrow> string" where
  "getUpstreamDisplayName sourceName =
     (let presets = [(OFFICIAL_CHANNEL_NAME, OFFICIAL_CHANNEL_ID), (MODELS_DEV_PRESET_NAME, MODELS_DEV_PRESET_ID)] in
      case find (\<lambda>(name, pid). sourceName = name @ ''('' @ int_str pid @ '')'') presets of
        Some (name, _) \<Rightarrow> name
      | None \<Rightarrow> sourceName)"

fun sync_number :: "SyncValue \<Rightarrow> jsnum" where
  "sync_number (SNum x) = Fin x"
| "sync_number (SText s) = string_to_number s"

definition isSelectedResolutionValue ::
  "resolutions_map \<Rightarrow> string \<Rightarrow> string \<Rightarrow> SyncValue option option \<Rightarrow> bool" where
  "isSelectedResolutionValue resolutions model ratioType upv =
     (if \<not> isSelectableUpstreamValue upv then False
      else
        (case om_get resolutions model of
           None \<Rightarrow> False
         | Some r \<Rightarrow>
             (case om_get r ratioType of
                None \<Rightarrow> False
              | Some selectedValue \<Rightarrow>
                  (case upv of
                     Some (Some u) \<Rightarrow>
                       if ratioType \<in> set NUMERIC_SYNC_FIELDS
                       then num_is_finite (sync_number selectedValue) \<and> num_is_finite (sync_number u) \<and>
                         sync_number selectedValue = sync_number u
                       else selectedValue = u
                   | _ \<Rightarrow> False))))"

section \<open>Selections\<close>

definition resolveResolutionSelection :: "differences \<Rightarrow> ResolutionSelection \<Rightarrow> ResolutionSelection" where
  "resolveResolutionSelection differences selection =
     (let modelDiffs = (case om_get differences (selModel selection) of Some d \<Rightarrow> d | None \<Rightarrow> []);
          preferredType = getPreferredSyncField modelDiffs (selRatioType selection) (selSourceName selection);
          preferredValue =
            (if preferredType = selRatioType selection then selValue selection
             else (case upstreamValue modelDiffs preferredType (selSourceName selection) of
                     Some (Some v) \<Rightarrow> v | _ \<Rightarrow> selValue selection)) in
      selection\<lparr>selRatioType := preferredType, selValue := preferredValue\<rparr>)"

text \<open>The body of \<open>applyResolutionSelectionToDraft\<close> once the draft of the model is at hand: drop the
  prices of the other category, write the value, and keep mode and expression together.\<close>

definition dropOtherCategory :: "BillingCategory \<Rightarrow> model_resolution \<Rightarrow> model_resolution" where
  "dropOtherCategory category draft =
     filter (\<lambda>(rt, _). \<not> (category \<noteq> CatTiered \<and> getBillingCategory rt \<noteq> CatTiered \<and>
       getBillingCategory rt \<noteq> category)) draft"

definition tieredMode :: "ratio_types \<Rightarrow> string \<Rightarrow> string \<Rightarrow> model_resolution \<Rightarrow> model_resolution" where
  "tieredMode modelDiffs sourceName finalType draft =
     (case upstreamValue modelDiffs ''billing_mode'' sourceName of
        Some (Some v) \<Rightarrow>
          if v \<noteq> SText ''same'' then om_set ''billing_mode'' v draft
          else if finalType = ''billing_expr'' then om_set ''billing_mode'' (SText ''tiered_expr'') draft
          else draft
      | _ \<Rightarrow> if finalType = ''billing_expr'' then om_set ''billing_mode'' (SText ''tiered_expr'') draft else draft)"

definition tieredExpr :: "ratio_types \<Rightarrow> string \<Rightarrow> model_resolution \<Rightarrow> model_resolution" where
  "tieredExpr modelDiffs sourceName draft =
     (case upstreamValue modelDiffs ''billing_expr'' sourceName of
        Some (Some v) \<Rightarrow> if v \<noteq> SText ''same'' then om_set ''billing_expr'' v draft else draft
      | _ \<Rightarrow> draft)"

definition draftStep :: "differences \<Rightarrow> ResolutionSelection \<Rightarrow> model_resolution \<Rightarrow> model_resolution" where
  "draftStep differences selection draft =
     (let resolved = resolveResolutionSelection differences selection;
          finalType = selRatioType resolved;
          category = getBillingCategory finalType;
          written = om_set finalType (selValue resolved) (dropOtherCategory category draft) in
      case om_get differences (selModel selection) of
        None \<Rightarrow> written
      | Some modelDiffs \<Rightarrow>
          if category = CatTiered
          then tieredExpr modelDiffs (selSourceName selection)
            (tieredMode modelDiffs (selSourceName selection) finalType written)
          else written)"

type_synonym drafts = "(string, model_resolution) omap"

definition initialDraft :: "resolutions_map \<Rightarrow> string \<Rightarrow> model_resolution" where
  "initialDraft resolutions model = (case om_get resolutions model of Some r \<Rightarrow> r | None \<Rightarrow> [])"

definition getDraftModelResolution :: "drafts \<Rightarrow> resolutions_map \<Rightarrow> string \<Rightarrow> model_resolution" where
  "getDraftModelResolution ds resolutions model =
     (case om_get ds model of Some d \<Rightarrow> d | None \<Rightarrow> initialDraft resolutions model)"

definition applyResolutionSelectionToDraft ::
  "drafts \<Rightarrow> resolutions_map \<Rightarrow> differences \<Rightarrow> ResolutionSelection \<Rightarrow> drafts" where
  "applyResolutionSelectionToDraft ds resolutions differences selection =
     om_set (selModel selection)
       (draftStep differences selection (getDraftModelResolution ds resolutions (selModel selection))) ds"

definition writeDraft :: "string \<times> model_resolution \<Rightarrow> resolutions_map \<Rightarrow> resolutions_map" where
  "writeDraft md next =
     (case md of (model, draft) \<Rightarrow> if length (om_keys draft) = 0 then om_delete model next else om_set model draft next)"

definition applyResolutionSelections :: "resolutions_map \<Rightarrow> differences \<Rightarrow> ResolutionSelection list \<Rightarrow> resolutions_map" where
  "applyResolutionSelections resolutions differences selections =
     (if length selections = 0 then resolutions
      else
        (let ds = foldl (\<lambda>ds selection. applyResolutionSelectionToDraft ds resolutions differences selection) [] selections in
         fold writeDraft ds resolutions))"

definition applyResolutionSelection :: "resolutions_map \<Rightarrow> differences \<Rightarrow> ResolutionSelection \<Rightarrow> resolutions_map" where
  "applyResolutionSelection resolutions differences selection = applyResolutionSelections resolutions differences [selection]"

definition selectionKey :: "ResolutionSelection \<Rightarrow> string" where
  "selectionKey s = selModel s @ [CHR 0x00] @ selRatioType s"

definition effectiveStep ::
  "differences \<Rightarrow> (string, ResolutionSelection) omap \<Rightarrow> ResolutionSelection \<Rightarrow> (string, ResolutionSelection) omap" where
  "effectiveStep differences effectiveByKey selection =
     (let resolved = resolveResolutionSelection differences selection;
          category = getBillingCategory (selRatioType resolved);
          kept = (if category \<noteq> CatTiered then
              filter (\<lambda>(_, existing). \<not> (selModel existing = selModel resolved \<and>
                getBillingCategory (selRatioType existing) \<noteq> CatTiered \<and>
                getBillingCategory (selRatioType existing) \<noteq> category)) effectiveByKey
            else effectiveByKey) in
      om_set (selectionKey resolved) resolved kept)"

definition getEffectiveResolutionSelections :: "differences \<Rightarrow> ResolutionSelection list \<Rightarrow> ResolutionSelection list" where
  "getEffectiveResolutionSelections differences selections = om_values (foldl (effectiveStep differences) [] selections)"

section \<open>Removals\<close>

definition removeField :: "model_resolution \<Rightarrow> string \<Rightarrow> model_resolution" where
  "removeField draft ratioType =
     (let d1 = om_delete ratioType draft;
          d2 = (if ratioType = ''billing_expr'' then om_delete ''billing_mode'' d1 else d1) in
      if ratioType = ''billing_mode'' then om_delete ''billing_expr'' d2 else d2)"

type_synonym removal_plan = "(string, string list) omap"

definition planStep :: "resolutions_map \<Rightarrow> string \<times> string list \<Rightarrow> resolutions_map \<Rightarrow> resolutions_map" where
  "planStep resolutions mr next =
     (case mr of (model, ratioTypes) \<Rightarrow>
        (case om_get resolutions model of
           None \<Rightarrow> next
         | Some current \<Rightarrow> writeDraft (model, foldl removeField current ratioTypes) next))"

definition applyResolutionRemovalPlan :: "resolutions_map \<Rightarrow> removal_plan \<Rightarrow> resolutions_map" where
  "applyResolutionRemovalPlan resolutions plan =
     (if length plan = 0 then resolutions else fold (planStep resolutions) plan resolutions)"

definition addRemoval :: "removal_plan \<Rightarrow> ResolutionRemoval \<Rightarrow> removal_plan" where
  "addRemoval plan removal =
     (case om_get plan (remModel removal) of
        Some ratioTypes \<Rightarrow> om_set (remModel removal) (os_add ratioTypes (remRatioType removal)) plan
      | None \<Rightarrow> om_set (remModel removal) [remRatioType removal] plan)"

definition applyResolutionRemovals :: "resolutions_map \<Rightarrow> ResolutionRemoval list \<Rightarrow> resolutions_map" where
  "applyResolutionRemovals resolutions removals =
     (if length removals = 0 then resolutions
      else applyResolutionRemovalPlan resolutions (foldl addRemoval [] removals))"

definition deleteResolutionField :: "resolutions_map \<Rightarrow> string \<Rightarrow> string \<Rightarrow> resolutions_map" where
  "deleteResolutionField resolutions model ratioType =
     applyResolutionRemovals resolutions [\<lparr>remModel = model, remRatioType = ratioType\<rparr>]"

section \<open>Batches and single steps\<close>

lemma om_get_Nil [simp]: "om_get [] k = None"
  by (simp add: om_get_def)

lemma om_keys_Nil [simp]: "om_keys [] = []"
  by (simp add: om_keys_def)

lemma om_get_delete_key: "om_get (om_delete k m) k' = (if k' = k then None else om_get m k')"
  unfolding om_get_def om_delete_def by (induction m) auto

lemma om_set_nonempty [simp]: "om_set k v m \<noteq> []"
  by (cases m) (auto split: if_splits)

lemma keys_tieredMode:
  "set (om_keys (tieredMode md src t d)) \<subseteq> insert ''billing_mode'' (set (om_keys d))"
  "set (om_keys d) \<subseteq> set (om_keys (tieredMode md src t d))"
  "t = ''billing_expr'' \<Longrightarrow> ''billing_mode'' \<in> set (om_keys (tieredMode md src t d))"
  by (auto simp: tieredMode_def om_keys_set split: option.split)

lemma keys_tieredExpr:
  "set (om_keys (tieredExpr md src d)) \<subseteq> insert ''billing_expr'' (set (om_keys d))"
  "set (om_keys d) \<subseteq> set (om_keys (tieredExpr md src d))"
  by (auto simp: tieredExpr_def om_keys_set split: option.split)

lemma draftStep_cases:
  fixes differences s
  defines "r \<equiv> resolveResolutionSelection differences s"
  defines "t \<equiv> selRatioType r"
  defines "w d \<equiv> om_set t (selValue r) (dropOtherCategory (getBillingCategory t) d)"
  shows "draftStep differences s d =
    (if getBillingCategory t = CatTiered \<and> om_get differences (selModel s) \<noteq> None
     then tieredExpr (the (om_get differences (selModel s))) (selSourceName s)
       (tieredMode (the (om_get differences (selModel s))) (selSourceName s) t (w d))
     else w d)"
  unfolding draftStep_def Let_def r_def t_def w_def by (auto split: option.split)

lemma draftStep_nonempty: "draftStep differences s d \<noteq> []"
proof -
  let ?r = "resolveResolutionSelection differences s"
  have "selRatioType ?r \<in> set (om_keys (draftStep differences s d))"
    unfolding draftStep_cases
    by (auto simp: om_keys_set intro!: subsetD [OF keys_tieredExpr(2)] subsetD [OF keys_tieredMode(2)] simp del: om_set.simps)
  then show ?thesis by (auto simp: om_keys_def)
qed

definition selectionsFor :: "string \<Rightarrow> ResolutionSelection list \<Rightarrow> ResolutionSelection list" where
  "selectionsFor m ss = filter (\<lambda>s. selModel s = m) ss"

lemma drafts_get:
  "om_get (foldl (\<lambda>ds s. applyResolutionSelectionToDraft ds res differences s) [] ss) m =
     (if selectionsFor m ss = [] then None
      else Some (fold (draftStep differences) (selectionsFor m ss) (initialDraft res m)))"
  by (induction ss rule: rev_induct)
    (auto simp: selectionsFor_def applyResolutionSelectionToDraft_def om_get_set getDraftModelResolution_def)

lemma drafts_distinct:
  "distinct (om_keys (foldl (\<lambda>ds s. applyResolutionSelectionToDraft ds res differences s) [] ss))"
  by (induction ss rule: rev_induct) (auto simp: applyResolutionSelectionToDraft_def distinct_om_set)

lemma fold_writeDraft:
  "distinct (om_keys ds) \<Longrightarrow>
   om_get (fold writeDraft ds res) m =
     (case om_get ds m of None \<Rightarrow> om_get res m | Some d \<Rightarrow> if d = [] then None else Some d)"
proof (induction ds arbitrary: res)
  case (Cons e ds)
  obtain k d where e: "e = (k, d)" by (cases e)
  have "om_get (writeDraft (k, d) res) m = (if m = k then (if d = [] then None else Some d) else om_get res m)"
    by (simp add: writeDraft_def om_keys_def om_get_delete_key om_get_set)
  moreover have "om_get ds k = None" using Cons.prems by (auto simp: e om_keys_def om_get_def map_of_eq_None_iff)
  moreover have "om_get (e # ds) m = (if m = k then Some d else om_get ds m)" by (simp add: e om_get_def)
  ultimately show ?case using Cons.IH [of "writeDraft (k, d) res"] Cons.prems
    by (cases "om_get ds m") (auto simp: e om_keys_def)
qed (simp add: om_get_def)

lemma fold_draftStep_nonempty: "ss \<noteq> [] \<Longrightarrow> fold (draftStep differences) ss d \<noteq> []"
  by (cases ss rule: rev_cases) (simp_all add: draftStep_nonempty)

lemma get_applyResolutionSelections:
  "om_get (applyResolutionSelections res differences ss) m =
     (if selectionsFor m ss = [] then om_get res m
      else Some (fold (draftStep differences) (selectionsFor m ss) (initialDraft res m)))"
  using fold_writeDraft [where res = res and m = m, OF drafts_distinct [of res differences ss]]
  by (auto simp: applyResolutionSelections_def Let_def drafts_get fold_draftStep_nonempty selectionsFor_def [of m "[]"])

lemma get_applyResolutionSelection:
  "om_get (applyResolutionSelection r differences s) m =
     (if selModel s = m then Some (draftStep differences s (initialDraft r m)) else om_get r m)"
  by (simp add: applyResolutionSelection_def get_applyResolutionSelections selectionsFor_def)

lemma get_sequential:
  "om_get (foldl (\<lambda>r s. applyResolutionSelection r differences s) res ss) m =
     (if selectionsFor m ss = [] then om_get res m
      else Some (fold (draftStep differences) (selectionsFor m ss) (initialDraft res m)))"
proof (induction ss rule: rev_induct)
  case (snoc s ss)
  then show ?case
    by (simp add: get_applyResolutionSelection selectionsFor_def initialDraft_def)
qed (simp add: selectionsFor_def)

text \<open>
  C30. Applying a batch of selections through drafts gives every model the same prices as applying the
  selections one by one, in order.
\<close>

theorem ratio_selection_batch:
  "om_get (applyResolutionSelections res differences ss) m =
   om_get (foldl (\<lambda>r s. applyResolutionSelection r differences s) res ss) m"
  by (simp add: get_applyResolutionSelections get_sequential)

section \<open>Removals\<close>

text \<open>The fields that go with a field: the mode and the expression go together.\<close>

definition removedWith :: "string \<Rightarrow> string set" where
  "removedWith t = (if t = ''billing_expr'' \<or> t = ''billing_mode'' then {''billing_expr'', ''billing_mode''} else {t})"

definition without :: "string set \<Rightarrow> model_resolution \<Rightarrow> model_resolution" where
  "without T d = filter (\<lambda>(k, _). k \<notin> T) d"

lemma removeField_eq: "removeField d t = without (removedWith t) d"
  by (auto simp: removeField_def om_delete_def without_def removedWith_def Let_def case_prod_beta' conj_commute)

lemma without_without [simp]: "without S (without T d) = without (T \<union> S) d"
  by (simp add: without_def case_prod_beta')

lemma without_empty [simp]: "without {} d = d"
  by (simp add: without_def)

lemma without_Nil: "without T d = [] \<Longrightarrow> without (S \<union> T) d = []"
  by (auto simp: without_def filter_empty_conv)

lemma foldl_removeField: "foldl removeField d ts = without (\<Union>t \<in> set ts. removedWith t) d"
  by (induction ts rule: rev_induct) (simp_all add: removeField_eq Un_commute)

definition removalsFor :: "string \<Rightarrow> ResolutionRemoval list \<Rightarrow> string list" where
  "removalsFor m rs = map remRatioType (filter (\<lambda>r. remModel r = m) rs)"

lemma plan_get:
  "om_get (foldl addRemoval [] rs) m = (if removalsFor m rs = [] then None else Some (os_of (removalsFor m rs)))"
proof (induction rs arbitrary: m rule: rev_induct)
  case (snoc r rs)
  have [simp]: "os_add [] x = [x]" for x :: string by (simp add: os_add_def)
  show ?case
    using snoc [of "remModel r"] snoc [of m]
    by (auto simp: addRemoval_def removalsFor_def om_get_set os_of_snoc split: option.splits if_splits)
qed (simp add: removalsFor_def)

lemma plan_distinct: "distinct (om_keys (foldl addRemoval [] rs))"
  by (induction rs rule: rev_induct) (auto simp: addRemoval_def distinct_om_set split: option.split)

lemma fold_planStep:
  "distinct (om_keys plan) \<Longrightarrow>
   om_get (fold (planStep res) plan nx) m =
     (case om_get plan m of
        None \<Rightarrow> om_get nx m
      | Some ts \<Rightarrow>
          (case om_get res m of
             None \<Rightarrow> om_get nx m
           | Some cur \<Rightarrow> let d = without (\<Union>t \<in> set ts. removedWith t) cur in if d = [] then None else Some d))"
proof (induction plan arbitrary: nx)
  case (Cons e plan)
  obtain k ts where e: "e = (k, ts)" by (cases e)
  have step: "om_get (planStep res (k, ts) nx) m =
      (if m = k then (case om_get res m of None \<Rightarrow> om_get nx m
         | Some cur \<Rightarrow> let d = without (\<Union>t \<in> set ts. removedWith t) cur in if d = [] then None else Some d)
       else om_get nx m)"
    by (auto simp: planStep_def writeDraft_def om_keys_def foldl_removeField om_get_delete_key om_get_set Let_def split: option.split)
  have "om_get plan k = None" using Cons.prems by (auto simp: e om_keys_def om_get_def map_of_eq_None_iff)
  moreover have "om_get (e # plan) m = (if m = k then Some ts else om_get plan m)" by (simp add: e om_get_def)
  ultimately show ?case using Cons.IH [of "planStep res (k, ts) nx"] Cons.prems step
    by (cases "om_get plan m"; cases "om_get res m") (auto simp: e om_keys_def)
qed (simp add: om_get_def)

definition afterRemoval :: "string list \<Rightarrow> model_resolution option \<Rightarrow> model_resolution option" where
  "afterRemoval ts r =
     (if ts = [] then r
      else case r of None \<Rightarrow> None
        | Some cur \<Rightarrow> let d = without (\<Union>t \<in> set ts. removedWith t) cur in if d = [] then None else Some d)"

lemma get_applyResolutionRemovals:
  "om_get (applyResolutionRemovals res rs) m = afterRemoval (removalsFor m rs) (om_get res m)"
  using fold_planStep [where res = res and m = m and nx = res, OF plan_distinct [of rs]]
  by (auto simp: applyResolutionRemovals_def applyResolutionRemovalPlan_def plan_get afterRemoval_def removalsFor_def [of m "[]"]
      split: option.splits if_splits)

text \<open>
  Removing fields in a batch is removing them one by one; a model keeps exactly the fields that were
  not removed, where the billing mode and the billing expression are removed together, and a model
  without fields disappears.
\<close>

theorem ratio_removals:
  "om_get (applyResolutionRemovals res rs) m =
     om_get (foldl (\<lambda>r x. deleteResolutionField r (remModel x) (remRatioType x)) res rs) m \<and>
   om_get (applyResolutionRemovals res rs) m = afterRemoval (removalsFor m rs) (om_get res m)"
proof -
  have step: "afterRemoval (ts @ [t]) r = afterRemoval [t] (afterRemoval ts r)" for ts t and r :: "model_resolution option"
    by (auto simp: afterRemoval_def Let_def Un_commute without_Nil split: option.split)
  have "om_get (foldl (\<lambda>r x. deleteResolutionField r (remModel x) (remRatioType x)) res rs) m =
      afterRemoval (removalsFor m rs) (om_get res m)"
  proof (induction rs rule: rev_induct)
    case (snoc x rs)
    then show ?case
      by (auto simp: deleteResolutionField_def get_applyResolutionRemovals removalsFor_def step)
        (auto simp: afterRemoval_def)
  qed (simp add: removalsFor_def afterRemoval_def)
  then show ?thesis by (simp add: get_applyResolutionRemovals)
qed

section \<open>Prices that agree\<close>

text \<open>The prices selected for a model: never a fixed price with a ratio, and an expression only with
  its mode.\<close>

definition wellPriced :: "model_resolution \<Rightarrow> bool" where
  "wellPriced d \<longleftrightarrow>
     (\<forall>a \<in> set (om_keys d). \<forall>b \<in> set (om_keys d).
        \<not> (getBillingCategory a = CatPrice \<and> getBillingCategory b = CatRatio)) \<and>
     (''billing_expr'' \<in> set (om_keys d) \<longrightarrow> ''billing_mode'' \<in> set (om_keys d))"

lemma category_tiered: "getBillingCategory t = CatTiered \<longleftrightarrow> t = ''billing_mode'' \<or> t = ''billing_expr''"
  by (simp add: getBillingCategory_def)

lemma keys_dropOther:
  "set (om_keys (dropOtherCategory c d)) =
     {k \<in> set (om_keys d). c = CatTiered \<or> getBillingCategory k = CatTiered \<or> getBillingCategory k = c}"
  by (force simp: dropOtherCategory_def om_keys_def)

lemma wellPriced_Nil: "wellPriced []"
  by (simp add: wellPriced_def)

lemma wellPriced_tiered:
  assumes "wellPriced d" and "set (om_keys d') \<subseteq> {''billing_mode'', ''billing_expr''} \<union> set (om_keys d)"
    and "set (om_keys d) \<subseteq> set (om_keys d')" and "''billing_mode'' \<in> set (om_keys d')"
  shows "wellPriced d'"
proof -
  have "k \<in> set (om_keys d)" if "k \<in> set (om_keys d')" "getBillingCategory k \<noteq> CatTiered" for k
    using that assms(2) by (auto simp: category_tiered)
  then show ?thesis using assms(1,4) unfolding wellPriced_def by (metis BillingCategory.distinct(3,5))
qed

lemma wellPriced_draftStep:
  assumes "wellPriced d" and "om_get differences (selModel s) \<noteq> None"
  shows "wellPriced (draftStep differences s d)"
proof -
  define t where "t = selRatioType (resolveResolutionSelection differences s)"
  define v where "v = selValue (resolveResolutionSelection differences s)"
  obtain md where md: "om_get differences (selModel s) = Some md" using assms(2) by blast
  show ?thesis
  proof (cases "getBillingCategory t = CatTiered")
    case True
    define w where "w = om_set t v (dropOtherCategory CatTiered d)"
    define u where "u = tieredMode md (selSourceName s) t w"
    have step: "draftStep differences s d = tieredExpr md (selSourceName s) u"
      by (simp add: draftStep_cases t_def [symmetric] v_def [symmetric] True md u_def w_def)
    have w: "set (om_keys w) = insert t (set (om_keys d))" by (simp add: w_def om_keys_set keys_dropOther)
    have t: "t = ''billing_mode'' \<or> t = ''billing_expr''" using True by (simp add: category_tiered)
    have "''billing_mode'' \<in> set (om_keys u)"
      using t keys_tieredMode(2) [of w md "selSourceName s" t] keys_tieredMode(3) [of t md "selSourceName s" w] w
      unfolding u_def by blast
    moreover have "set (om_keys u) \<subseteq> {''billing_mode'', ''billing_expr''} \<union> set (om_keys d)" "set (om_keys d) \<subseteq> set (om_keys u)"
      using keys_tieredMode(1) [of md "selSourceName s" t w] keys_tieredMode(2) [of w md "selSourceName s" t] w t
      unfolding u_def by blast+
    ultimately have u: "''billing_mode'' \<in> set (om_keys u)"
        "set (om_keys u) \<subseteq> {''billing_mode'', ''billing_expr''} \<union> set (om_keys d)" "set (om_keys d) \<subseteq> set (om_keys u)"
      by simp_all
    show ?thesis unfolding step
    proof (rule wellPriced_tiered [OF assms(1)])
      show "set (om_keys (tieredExpr md (selSourceName s) u)) \<subseteq> {''billing_mode'', ''billing_expr''} \<union> set (om_keys d)"
        using keys_tieredExpr(1) [of md "selSourceName s" u] u(2) by blast
      show "set (om_keys d) \<subseteq> set (om_keys (tieredExpr md (selSourceName s) u))"
        using keys_tieredExpr(2) [of u md "selSourceName s"] u(3) by blast
      show "''billing_mode'' \<in> set (om_keys (tieredExpr md (selSourceName s) u))"
        using keys_tieredExpr(2) [of u md "selSourceName s"] u(1) by blast
    qed
  next
    case False
    then have step: "draftStep differences s d = om_set t v (dropOtherCategory (getBillingCategory t) d)"
      by (simp add: draftStep_cases t_def [symmetric] v_def [symmetric])
    define K where "K = set (om_keys (draftStep differences s d))"
    have keys: "k \<in> K \<longleftrightarrow> k = t \<or> k \<in> set (om_keys d) \<and> (getBillingCategory k = CatTiered \<or> getBillingCategory k = getBillingCategory t)" for k
      using False by (auto simp: K_def step om_keys_set keys_dropOther)
    have "getBillingCategory k \<in> {CatTiered, getBillingCategory t}" if "k \<in> K" for k
      using that keys by auto
    then have "\<not> (getBillingCategory a = CatPrice \<and> getBillingCategory b = CatRatio)" if "a \<in> K" "b \<in> K" for a b
      using that by (metis BillingCategory.distinct insertE singletonD)
    moreover have "''billing_mode'' \<in> K" if "''billing_expr'' \<in> K"
    proof -
      have "''billing_expr'' \<in> set (om_keys d)" using that keys False category_tiered by metis
      then have "''billing_mode'' \<in> set (om_keys d)" using assms(1) by (simp add: wellPriced_def)
      then show ?thesis using keys category_tiered by metis
    qed
    ultimately show ?thesis unfolding wellPriced_def K_def by blast
  qed
qed

lemma wellPriced_fold:
  "wellPriced d \<Longrightarrow> \<forall>s \<in> set ss. om_get differences (selModel s) \<noteq> None \<Longrightarrow> wellPriced (fold (draftStep differences) ss d)"
  by (induction ss arbitrary: d) (auto simp: wellPriced_draftStep)

lemma wellPriced_without: "wellPriced d \<Longrightarrow> wellPriced (without (\<Union>t \<in> set ts. removedWith t) d)"
proof -
  assume d: "wellPriced d"
  let ?T = "\<Union>t \<in> set ts. removedWith t"
  have keys: "set (om_keys (without ?T d)) = set (om_keys d) - ?T"
    by (force simp: without_def om_keys_def)
  have "''billing_mode'' \<in> ?T \<longleftrightarrow> ''billing_expr'' \<in> ?T"
    by (auto simp: removedWith_def)
  then show ?thesis using d unfolding wellPriced_def keys by blast
qed

text \<open>
  However prices are selected and removed, no model ends with both a fixed price and a ratio, and a
  billing expression is never left without a billing mode: selections for models that have
  differences and removals keep this invariant.
\<close>

theorem ratio_well_priced:
  assumes "\<And>m d. om_get res m = Some d \<Longrightarrow> wellPriced d"
    and "\<forall>s \<in> set ss. om_get differences (selModel s) \<noteq> None"
  shows "(\<forall>m d. om_get (applyResolutionSelections res differences ss) m = Some d \<longrightarrow> wellPriced d) \<and>
    (\<forall>m d. om_get (applyResolutionRemovals res rs) m = Some d \<longrightarrow> wellPriced d)"
proof -
  have init: "wellPriced (initialDraft res m)" for m
    using assms(1) by (auto simp: initialDraft_def wellPriced_Nil split: option.split)
  have "\<forall>s \<in> set (selectionsFor m ss). om_get differences (selModel s) \<noteq> None" for m
    using assms(2) by (auto simp: selectionsFor_def)
  then have "wellPriced d" if "om_get (applyResolutionSelections res differences ss) m = Some d" for m d
    using that assms(1) wellPriced_fold [OF init] by (auto simp: get_applyResolutionSelections split: if_splits)
  moreover have "wellPriced d" if "om_get (applyResolutionRemovals res rs) m = Some d" for m d
    using that assms(1) wellPriced_without
    by (auto simp: get_applyResolutionRemovals afterRemoval_def Let_def split: if_splits option.splits)
  ultimately show ?thesis by blast
qed

definition demoDifferences :: differences where
  "demoDifferences =
     [(''m'', [(''model_price'', \<lparr>currentValue = None, upstreams = [(''up'', Some (SNum 2))], confidence = []\<rparr>),
              (''model_ratio'', \<lparr>currentValue = None, upstreams = [(''up'', Some (SNum 3))], confidence = []\<rparr>)])]"

definition demoSelections :: "ResolutionSelection list" where
  "demoSelections =
     [\<lparr>selModel = ''m'', selRatioType = ''model_price'', selValue = SNum 2, selSourceName = ''up''\<rparr>,
      \<lparr>selModel = ''m'', selRatioType = ''model_ratio'', selValue = SNum 3, selSourceName = ''up''\<rparr>]"

theorem ratio_well_priced_witness:
  "om_get (applyResolutionSelections [] demoDifferences demoSelections) ''m'' = Some [(''model_ratio'', SNum 3)] \<and>
   wellPriced [(''model_ratio'', SNum 3)]"
proof -
  have sel: "\<forall>s \<in> set demoSelections. om_get demoDifferences (selModel s) \<noteq> None"
    by (simp add: demoSelections_def demoDifferences_def om_get_def)
  have run: "om_get (applyResolutionSelections [] demoDifferences demoSelections) ''m'' = Some [(''model_ratio'', SNum 3)]"
    by code_simp
  show ?thesis using run ratio_well_priced [of "[]" demoSelections demoDifferences "[]", OF _ sel] by simp
qed

end
