(* ===== verification/Ratio_Bulk.thy ===== *)
theory Ratio_Bulk
  imports Ratio_Sync
begin

text \<open>
  The table of upstream prices, \<open>system-settings/models/upstream-ratio-sync-table.tsx\<close>: its rows, the
  search and the filter, the upstreams shown as columns and, for each of them, what its bulk checkbox
  selects, removes and counts.  The lower-casing of the search is an argument.
\<close>

section \<open>Rows and columns\<close>

record ModelRow =
  rowKey :: string
  rowModel :: string
  rowTypes :: ratio_types
  billingConflict :: bool

definition dataSource :: "differences \<Rightarrow> ModelRow list" where
  "dataSource differences =
     map (\<lambda>(model, ratioTypes).
       (let hasPrice = ''model_price'' \<in> set (om_keys ratioTypes);
            hasOtherRatio = list_ex (\<lambda>rt. rt \<in> set (om_keys ratioTypes)) RATIO_SYNC_FIELDS in
        \<lparr>rowKey = model, rowModel = model, rowTypes = ratioTypes, billingConflict = hasPrice \<and> hasOtherRatio\<rparr>))
       differences"

definition filteredData :: "(string \<Rightarrow> string) \<Rightarrow> ModelRow list \<Rightarrow> string \<Rightarrow> string \<Rightarrow> ModelRow list" where
  "filteredData toLowerCase rows debouncedSearch ratioTypeFilter =
     (let found =
            (if js_trim debouncedSearch \<noteq> []
             then filter (\<lambda>row. js_includes (toLowerCase debouncedSearch) (toLowerCase (rowModel row))) rows
             else rows) in
      if ratioTypeFilter \<noteq> [] \<and> ratioTypeFilter \<noteq> ''__all__''
      then filter (\<lambda>row. ratioTypeFilter \<in> set (om_keys (rowTypes row))) found
      else found)"

definition upstreamNames :: "ModelRow list \<Rightarrow> string \<Rightarrow> string list" where
  "upstreamNames rows ratioTypeFilter =
     foldl (\<lambda>names row.
       foldl (\<lambda>names ratioType.
         foldl os_add names
           (case om_get (rowTypes row) ratioType of None \<Rightarrow> [] | Some e \<Rightarrow> om_keys (upstreams e)))
         names (getOrderedRatioTypes (rowTypes row) (Some ratioTypeFilter)))
       [] rows"

section \<open>Bulk selection\<close>

record UpstreamBulkSelectState =
  displayName :: string
  bulkSelections :: "ResolutionSelection list"
  removalPlan :: removal_plan
  selectableCount :: nat
  selectedCount :: nat

text \<open>What a row proposes from one upstream: a selection for each of its shown kinds of price with a
  value to select.\<close>

definition rowSelections :: "string \<Rightarrow> string \<Rightarrow> ModelRow \<Rightarrow> ResolutionSelection list" where
  "rowSelections upstreamName ratioTypeFilter row =
     concat (map (\<lambda>ratioType.
       (case upstreamValue (rowTypes row) ratioType upstreamName of
          Some (Some v) \<Rightarrow>
            if isSelectableUpstreamValue (Some (Some v))
            then [\<lparr>selModel = rowModel row, selRatioType = ratioType, selValue = v, selSourceName = upstreamName\<rparr>]
            else []
        | _ \<Rightarrow> []))
       (getAlignedRatioTypes (rowTypes row) [upstreamName] (Some ratioTypeFilter)))"

definition planSelection :: "removal_plan \<Rightarrow> ResolutionSelection \<Rightarrow> removal_plan" where
  "planSelection plan s = addRemoval plan \<lparr>remModel = selModel s, remRatioType = selRatioType s\<rparr>"

definition isSelected :: "resolutions_map \<Rightarrow> ResolutionSelection \<Rightarrow> bool" where
  "isSelected resolutions s =
     isSelectedResolutionValue resolutions (selModel s) (selRatioType s) (Some (Some (selValue s)))"

definition bulkSelectState ::
  "differences \<Rightarrow> ModelRow list \<Rightarrow> string \<Rightarrow> resolutions_map \<Rightarrow> string \<Rightarrow> UpstreamBulkSelectState" where
  "bulkSelectState differences rows ratioTypeFilter resolutions upstreamName =
     (let selections = concat (map (rowSelections upstreamName ratioTypeFilter) rows);
          plan = foldl planSelection [] selections;
          effectiveSelections = getEffectiveResolutionSelections differences selections in
      \<lparr>displayName = getUpstreamDisplayName upstreamName, bulkSelections = effectiveSelections, removalPlan = plan,
       selectableCount = length effectiveSelections,
       selectedCount = length (filter (isSelected resolutions) effectiveSelections)\<rparr>)"

definition bulkSelectStateByUpstream ::
  "differences \<Rightarrow> ModelRow list \<Rightarrow> string \<Rightarrow> resolutions_map \<Rightarrow> (string, UpstreamBulkSelectState) omap" where
  "bulkSelectStateByUpstream differences rows ratioTypeFilter resolutions =
     foldl (\<lambda>states upstreamName.
       om_set upstreamName (bulkSelectState differences rows ratioTypeFilter resolutions upstreamName) states)
       [] (upstreamNames rows ratioTypeFilter)"

text \<open>The two handlers of a bulk checkbox, with the handlers of the page they call.\<close>

definition handleSelectValues :: "differences \<Rightarrow> ResolutionSelection list \<Rightarrow> resolutions_map \<Rightarrow> resolutions_map" where
  "handleSelectValues differences selections prev =
     (if length selections = 0 then prev else applyResolutionSelections prev differences selections)"

definition handleUnselectValues :: "removal_plan \<Rightarrow> resolutions_map \<Rightarrow> resolutions_map" where
  "handleUnselectValues plan prev = (if length plan = 0 then prev else applyResolutionRemovalPlan prev plan)"

definition handleBulkSelect ::
  "differences \<Rightarrow> (string, UpstreamBulkSelectState) omap \<Rightarrow> string \<Rightarrow> resolutions_map \<Rightarrow> resolutions_map" where
  "handleBulkSelect differences states upstream prev =
     handleSelectValues differences (case om_get states upstream of Some st \<Rightarrow> bulkSelections st | None \<Rightarrow> []) prev"

definition handleBulkUnselect ::
  "(string, UpstreamBulkSelectState) omap \<Rightarrow> string \<Rightarrow> resolutions_map \<Rightarrow> resolutions_map" where
  "handleBulkUnselect states upstream prev =
     handleUnselectValues (case om_get states upstream of Some st \<Rightarrow> removalPlan st | None \<Rightarrow> []) prev"

section \<open>The selections of an upstream\<close>

text \<open>A selection that takes, unchanged, the value an upstream proposes.\<close>

definition proposed :: "differences \<Rightarrow> string \<Rightarrow> ResolutionSelection \<Rightarrow> bool" where
  "proposed differences u s \<longleftrightarrow>
     selSourceName s = u \<and> resolveResolutionSelection differences s = s \<and>
     (\<exists>md. om_get differences (selModel s) = Some md \<and>
        upstreamValue md (selRatioType s) u = Some (Some (selValue s)) \<and> selValue s \<noteq> SText ''same'')"

text \<open>Selections of which no two price the same model by the request and by the token.\<close>

definition agreeing :: "ResolutionSelection set \<Rightarrow> bool" where
  "agreeing S \<longleftrightarrow>
     (\<forall>a \<in> S. \<forall>b \<in> S. selModel a = selModel b \<longrightarrow>
        getBillingCategory (selRatioType a) = CatTiered \<or> getBillingCategory (selRatioType b) = CatTiered \<or>
        getBillingCategory (selRatioType a) = getBillingCategory (selRatioType b))"

lemma om_values_update: "set (om_values (om_set k v m)) \<subseteq> insert v (set (om_values m))"
  by (induction k v m rule: om_set.induct) (auto simp: om_values_def)

lemma effectiveStep_agreeing:
  assumes "agreeing (set (om_values m))" and "resolveResolutionSelection differences s = s"
  shows "agreeing (set (om_values (effectiveStep differences m s)))"
    and "set (om_values (effectiveStep differences m s)) \<subseteq> insert s (set (om_values m))"
proof -
  define kept where "kept = (if getBillingCategory (selRatioType s) \<noteq> CatTiered then
      filter (\<lambda>(_, e). \<not> (selModel e = selModel s \<and> getBillingCategory (selRatioType e) \<noteq> CatTiered \<and>
        getBillingCategory (selRatioType e) \<noteq> getBillingCategory (selRatioType s))) m else m)"
  have step: "effectiveStep differences m s = om_set (selectionKey s) s kept"
    by (simp add: effectiveStep_def kept_def assms(2))
  have vals: "set (om_values kept) \<subseteq> set (om_values m)" by (auto simp: kept_def om_values_def)
  have fits: "getBillingCategory (selRatioType e) = CatTiered \<or> getBillingCategory (selRatioType s) = CatTiered \<or>
      getBillingCategory (selRatioType e) = getBillingCategory (selRatioType s)"
    if "e \<in> set (om_values kept)" "selModel e = selModel s" for e
    using that by (auto simp: kept_def om_values_def split: if_splits)
  have "agreeing (insert s (set (om_values kept)))"
    unfolding agreeing_def
  proof (intro ballI impI)
    fix a b assume ab: "a \<in> insert s (set (om_values kept))" "b \<in> insert s (set (om_values kept))" "selModel a = selModel b"
    show "getBillingCategory (selRatioType a) = CatTiered \<or> getBillingCategory (selRatioType b) = CatTiered \<or>
      getBillingCategory (selRatioType a) = getBillingCategory (selRatioType b)"
    proof (cases "a = s \<or> b = s")
      case True
      then show ?thesis using ab fits by (metis insertE)
    next
      case False
      then have "a \<in> set (om_values m)" "b \<in> set (om_values m)" using ab vals by auto
      then show ?thesis using assms(1) ab(3) by (simp add: agreeing_def)
    qed
  qed
  then show "agreeing (set (om_values (effectiveStep differences m s)))"
    unfolding step using om_values_update [of "selectionKey s" s kept] unfolding agreeing_def by (meson subsetD)
  show "set (om_values (effectiveStep differences m s)) \<subseteq> insert s (set (om_values m))"
    unfolding step using om_values_update [of "selectionKey s" s kept] vals by blast
qed

lemma effective_selections:
  assumes "\<forall>s \<in> set ss. resolveResolutionSelection differences s = s"
  shows "agreeing (set (getEffectiveResolutionSelections differences ss)) \<and>
    set (getEffectiveResolutionSelections differences ss) \<subseteq> set ss"
  using assms unfolding getEffectiveResolutionSelections_def
proof (induction ss rule: rev_induct)
  case Nil
  show ?case by (simp add: om_values_def agreeing_def)
next
  case (snoc s ss)
  then show ?case using effectiveStep_agreeing [of "foldl (effectiveStep differences) [] ss" differences s] by auto
qed

section \<open>Selecting all that an upstream proposes\<close>

lemma om_get_dropOther:
  "om_get (dropOtherCategory c d) k =
     (if c \<noteq> CatTiered \<and> getBillingCategory k \<noteq> CatTiered \<and> getBillingCategory k \<noteq> c then None else om_get d k)"
  by (induction d) (auto simp: dropOtherCategory_def om_get_def)

lemma tieredMode_keeps:
  assumes "om_get d k = Some v" and "upstreamValue md k src = Some (Some v)" and "v \<noteq> SText ''same''"
  shows "om_get (tieredMode md src t d) k = Some v"
  using assms by (cases "k = ''billing_mode''") (auto simp: tieredMode_def om_get_set split: option.split)

lemma tieredExpr_keeps:
  assumes "om_get d k = Some v" and "upstreamValue md k src = Some (Some v)" and "v \<noteq> SText ''same''"
  shows "om_get (tieredExpr md src d) k = Some v"
  using assms by (cases "k = ''billing_expr''") (auto simp: tieredExpr_def om_get_set split: option.split)

lemma proposed_step:
  assumes "proposed differences u x" and "proposed differences u s" and "selModel s = selModel x"
    and "s = x \<or> om_get d (selRatioType s) = Some (selValue s)" and "agreeing {s, x}"
  shows "om_get (draftStep differences x d) (selRatioType s) = Some (selValue s)"
proof -
  obtain md where md: "om_get differences (selModel x) = Some md"
      "upstreamValue md (selRatioType x) u = Some (Some (selValue x))"
    using assms(1) by (auto simp: proposed_def)
  have s: "upstreamValue md (selRatioType s) u = Some (Some (selValue s))" "selValue s \<noteq> SText ''same''"
    using assms(2,3) md(1) by (auto simp: proposed_def)
  have x: "selSourceName x = u" "resolveResolutionSelection differences x = x"
    using assms(1) by (auto simp: proposed_def)
  define w where "w = om_set (selRatioType x) (selValue x) (dropOtherCategory (getBillingCategory (selRatioType x)) d)"
  have same: "selValue s = selValue x" if "selRatioType s = selRatioType x" using that s(1) md(2) by simp
  have "om_get w (selRatioType s) = Some (selValue s)"
  proof (cases "selRatioType s = selRatioType x")
    case True
    then show ?thesis using same by (simp add: w_def om_get_set)
  next
    case False
    have "getBillingCategory (selRatioType s) = CatTiered \<or> getBillingCategory (selRatioType x) = CatTiered \<or>
        getBillingCategory (selRatioType s) = getBillingCategory (selRatioType x)"
      using assms(3,5) by (simp add: agreeing_def)
    moreover have "om_get d (selRatioType s) = Some (selValue s)" using assms(4) False by auto
    ultimately show ?thesis using False by (auto simp: w_def om_get_set om_get_dropOther)
  qed
  then show ?thesis
    unfolding draftStep_cases x(2) w_def [symmetric] using md(1) x(1) s
    by (simp add: tieredExpr_keeps tieredMode_keeps)
qed

lemma proposed_fold:
  assumes "\<forall>s \<in> set ss. proposed differences u s \<and> selModel s = m" and "agreeing (set ss)" and "s \<in> set ss"
  shows "om_get (fold (draftStep differences) ss d) (selRatioType s) = Some (selValue s)"
  using assms
proof (induction ss arbitrary: s rule: rev_induct)
  case (snoc x ss)
  have "s = x \<or> om_get (fold (draftStep differences) ss d) (selRatioType s) = Some (selValue s)"
    using snoc.IH [of s] snoc.prems by (auto simp: agreeing_def)
  moreover have "agreeing {s, x}" using snoc.prems(2,3) by (auto simp: agreeing_def)
  ultimately show ?case
    using snoc.prems proposed_step [of differences u x s "fold (draftStep differences) ss d"] by auto
qed simp

lemma proposed_applied:
  assumes "\<forall>s \<in> set ss. proposed differences u s" and "agreeing (set ss)" and "s \<in> set ss"
  shows "\<exists>d. om_get (applyResolutionSelections res differences ss) (selModel s) = Some d \<and>
    om_get d (selRatioType s) = Some (selValue s)"
proof -
  let ?ss = "selectionsFor (selModel s) ss"
  have "s \<in> set ?ss" using assms(3) by (simp add: selectionsFor_def)
  moreover have "\<forall>x \<in> set ?ss. proposed differences u x \<and> selModel x = selModel s" "agreeing (set ?ss)"
    using assms(1,2) by (auto simp: selectionsFor_def agreeing_def)
  ultimately have "om_get (fold (draftStep differences) ?ss (initialDraft res (selModel s))) (selRatioType s) = Some (selValue s)"
    using proposed_fold [of ?ss differences u "selModel s" s] by blast
  moreover have "?ss \<noteq> []" using \<open>s \<in> set ?ss\<close> by auto
  ultimately show ?thesis by (simp add: get_applyResolutionSelections)
qed

section \<open>What the table proposes\<close>

text \<open>Rows that show differences, as every row of the table does.\<close>

definition rowsOf :: "differences \<Rightarrow> ModelRow list \<Rightarrow> bool" where
  "rowsOf differences rows \<longleftrightarrow> (\<forall>row \<in> set rows. om_get differences (rowModel row) = Some (rowTypes row))"

lemma filteredData_rows:
  "distinct (om_keys differences) \<Longrightarrow> rowsOf differences (filteredData low (dataSource differences) search flt)"
  by (auto simp: rowsOf_def filteredData_def dataSource_def Let_def om_get_iff)

lemma rowSelections_proposed:
  assumes "om_get differences (rowModel row) = Some (rowTypes row)" and "s \<in> set (rowSelections u flt row)"
  shows "proposed differences u s"
proof -
  from assms(2) obtain t v where t: "t \<in> set (getAlignedRatioTypes (rowTypes row) [u] (Some flt))"
      and v: "upstreamValue (rowTypes row) t u = Some (Some v)" "v \<noteq> SText ''same''"
      and s: "s = \<lparr>selModel = rowModel row, selRatioType = t, selValue = v, selSourceName = u\<rparr>"
    by (auto simp: rowSelections_def isSelectableUpstreamValue_def split: option.splits if_splits)
  have "getPreferredSyncField (rowTypes row) t u = t"
    using t by (auto simp: getAlignedRatioTypes_def getVisibleRatioTypesForSource_def Let_def)
  then show ?thesis
    using assms(1) v by (simp add: proposed_def s resolveResolutionSelection_def)
qed

lemma bulk_proposed:
  assumes "rowsOf differences rows"
  shows "\<forall>s \<in> set (concat (map (rowSelections u flt) rows)). proposed differences u s"
  using assms rowSelections_proposed by (fastforce simp: rowsOf_def)

lemma bulk_effective:
  fixes flt u res
  assumes "rowsOf differences rows"
  defines "E \<equiv> bulkSelections (bulkSelectState differences rows flt res u)"
  shows "agreeing (set E)" and "\<forall>s \<in> set E. proposed differences u s"
    and "set E \<subseteq> set (concat (map (rowSelections u flt) rows))"
proof -
  note p = bulk_proposed [OF assms(1), of u flt]
  have "agreeing (set E) \<and> set E \<subseteq> set (concat (map (rowSelections u flt) rows))"
    unfolding E_def bulkSelectState_def Let_def using p
    by (simp only: UpstreamBulkSelectState.simps) (rule effective_selections, auto simp: proposed_def)
  then show "agreeing (set E)" "set E \<subseteq> set (concat (map (rowSelections u flt) rows))"
      "\<forall>s \<in> set E. proposed differences u s"
    using p by blast+
qed

lemma states_get:
  "u \<in> set (upstreamNames rows flt) \<Longrightarrow>
   om_get (bulkSelectStateByUpstream differences rows flt res) u = Some (bulkSelectState differences rows flt res u)"
proof -
  have "om_get (foldl (\<lambda>states x. om_set x (f x) states) [] xs) u = (if u \<in> set xs then Some (f u) else None)"
    for f :: "string \<Rightarrow> UpstreamBulkSelectState" and xs
    by (induction xs rule: rev_induct) (auto simp: om_get_set)
  then show "u \<in> set (upstreamNames rows flt) \<Longrightarrow> ?thesis" by (simp add: bulkSelectStateByUpstream_def)
qed

lemma bulk_selections_independent:
  "bulkSelections (bulkSelectState differences rows flt res u) = bulkSelections (bulkSelectState differences rows flt res' u)"
  "removalPlan (bulkSelectState differences rows flt res u) = removalPlan (bulkSelectState differences rows flt res' u)"
  by (simp_all add: bulkSelectState_def Let_def)

lemma bulk_counts:
  "selectableCount (bulkSelectState differences rows flt res u) = length (bulkSelections (bulkSelectState differences rows flt res u))"
  "selectedCount (bulkSelectState differences rows flt res u) =
     length (filter (isSelected res) (bulkSelections (bulkSelectState differences rows flt res u)))"
  by (simp_all add: bulkSelectState_def Let_def)

lemma handleSelectValues_eq: "handleSelectValues differences ss res = applyResolutionSelections res differences ss"
  by (simp add: handleSelectValues_def applyResolutionSelections_def)

lemma om_get_without: "om_get (without T d) k = (if k \<in> T then None else om_get d k)"
  by (induction d) (auto simp: without_def om_get_def)

lemma unselected:
  fixes flt u res
  assumes "s \<in> set (concat (map (rowSelections u flt) rows))"
  shows "\<not> isSelected (handleUnselectValues (removalPlan (bulkSelectState differences rows flt res u)) res') s"
proof -
  let ?ss = "concat (map (rowSelections u flt) rows)"
  define rs where "rs = map (\<lambda>s. \<lparr>remModel = selModel s, remRatioType = selRatioType s\<rparr>) ?ss"
  have plan: "removalPlan (bulkSelectState differences rows flt res u) = foldl addRemoval [] rs"
    by (simp add: bulkSelectState_def Let_def foldl_map planSelection_def [abs_def] rs_def)
  have "handleUnselectValues (removalPlan (bulkSelectState differences rows flt res u)) res' = applyResolutionRemovals res' rs"
    unfolding plan by (cases rs) (simp_all add: handleUnselectValues_def applyResolutionRemovals_def applyResolutionRemovalPlan_def)
  moreover have "selRatioType s \<in> set (removalsFor (selModel s) rs)"
    using assms by (force simp: removalsFor_def rs_def)
  moreover have "selRatioType s \<in> removedWith (selRatioType s)" by (simp add: removedWith_def)
  ultimately show ?thesis
    by (auto simp: isSelected_def isSelectedResolutionValue_def get_applyResolutionRemovals afterRemoval_def Let_def
        om_get_without split: option.splits if_splits)
qed

text \<open>
  C29. The bulk checkbox of an upstream does what it shows.  Checking it leaves every value the upstream
  proposes on the shown rows selected, so the count of selected values reaches the count of values to
  select; clearing it, whatever was selected before, leaves none of them selected.  The numeric
  proposals must be numbers.
\<close>

theorem ratio_bulk_select:
  fixes differences low search flt u res
  defines "rows \<equiv> filteredData low (dataSource differences) search flt"
  defines "states \<equiv> bulkSelectStateByUpstream differences rows flt res"
  assumes "distinct (om_keys differences)" and "u \<in> set (upstreamNames rows flt)"
    and "\<And>m md t v. om_get differences m = Some md \<Longrightarrow> t \<in> set NUMERIC_SYNC_FIELDS \<Longrightarrow>
      upstreamValue md t u = Some (Some v) \<Longrightarrow> v \<noteq> SText ''same'' \<Longrightarrow> num_is_finite (sync_number v)"
  shows "selectedCount (bulkSelectState differences rows flt (handleBulkSelect differences states u res) u) =
      selectableCount (bulkSelectState differences rows flt res u) \<and>
    selectedCount (bulkSelectState differences rows flt (handleBulkUnselect states u res') u) = 0"
proof -
  let ?E = "bulkSelections (bulkSelectState differences rows flt res u)"
  have rows: "rowsOf differences rows" using assms(3) by (simp add: rows_def filteredData_rows)
  note E = bulk_effective [OF rows, of flt res u]
  have state: "om_get states u = Some (bulkSelectState differences rows flt res u)"
    using assms(4) by (simp add: states_def states_get)
  have "isSelected (handleBulkSelect differences states u res) s" if s: "s \<in> set ?E" for s
  proof -
    obtain d where d: "om_get (applyResolutionSelections res differences ?E) (selModel s) = Some d"
        "om_get d (selRatioType s) = Some (selValue s)"
      using proposed_applied [OF E(2) E(1) s, of res] by blast
    have "proposed differences u s" using E(2) s by blast
    then have "selValue s \<noteq> SText ''same''"
        "selRatioType s \<in> set NUMERIC_SYNC_FIELDS \<Longrightarrow> num_is_finite (sync_number (selValue s))"
      using assms(5) by (auto simp: proposed_def)
    then show ?thesis
      using d by (simp add: isSelected_def isSelectedResolutionValue_def handleBulkSelect_def state handleSelectValues_eq
          isSelectableUpstreamValue_def)
  qed
  then have "filter (isSelected (handleBulkSelect differences states u res)) ?E = ?E" by simp
  then have all: "selectedCount (bulkSelectState differences rows flt (handleBulkSelect differences states u res) u) =
      selectableCount (bulkSelectState differences rows flt res u)"
    by (simp only: bulk_counts bulk_selections_independent(1) [of _ _ _ "handleBulkSelect differences states u res" _ res])
  have "filter (isSelected (handleBulkUnselect states u res')) ?E = []"
    unfolding filter_empty_conv
  proof (intro ballI)
    fix s assume "s \<in> set ?E"
    then show "\<not> isSelected (handleBulkUnselect states u res') s"
      unfolding handleBulkUnselect_def state option.case by (intro unselected subsetD [OF E(3)])
  qed
  then have "selectedCount (bulkSelectState differences rows flt (handleBulkUnselect states u res') u) = 0"
    by (simp only: bulk_counts bulk_selections_independent(1) [of _ _ _ "handleBulkUnselect states u res'" _ res] list.size)
  then show ?thesis using all by blast
qed

definition demoRows :: "ModelRow list" where
  "demoRows = filteredData js_lower (dataSource demoDifferences) ''M'' []"

definition demoStates :: "(string, UpstreamBulkSelectState) omap" where
  "demoStates = bulkSelectStateByUpstream demoDifferences demoRows [] []"

theorem ratio_bulk_select_witness:
  "bulkSelections (bulkSelectState demoDifferences demoRows [] [] ''up'') =
     [\<lparr>selModel = ''m'', selRatioType = ''model_price'', selValue = SNum 2, selSourceName = ''up''\<rparr>] \<and>
   selectedCount (bulkSelectState demoDifferences demoRows [] [] ''up'') = 0 \<and>
   selectedCount (bulkSelectState demoDifferences demoRows [] (handleBulkSelect demoDifferences demoStates ''up'' []) ''up'') = 1"
proof -
  have state: "bulkSelections (bulkSelectState demoDifferences demoRows [] [] ''up'') =
     [\<lparr>selModel = ''m'', selRatioType = ''model_price'', selValue = SNum 2, selSourceName = ''up''\<rparr>]"
    by code_simp
  have none: "selectedCount (bulkSelectState demoDifferences demoRows [] [] ''up'') = 0" by code_simp
  have keys: "distinct (om_keys demoDifferences)" by (simp add: demoDifferences_def om_keys_def)
  have names: "''up'' \<in> set (upstreamNames (filteredData js_lower (dataSource demoDifferences) ''M'' []) [])" by code_simp
  have "num_is_finite (sync_number v)"
    if "om_get demoDifferences m = Some md" "t \<in> set NUMERIC_SYNC_FIELDS" "upstreamValue md t ''up'' = Some (Some v)"
      "v \<noteq> SText ''same''" for m md t v
    using that by (auto simp: demoDifferences_def om_get_def upstreamValue_def split: if_splits)
  from ratio_bulk_select [where res = "[]" and res' = "[]", OF keys names this] show ?thesis
    using state none by (simp add: demoRows_def [symmetric] demoStates_def [symmetric] bulk_counts(1))
qed

end
