(* ===== verification/Ratio_Apply.thy ===== *)
theory Ratio_Apply
  imports Ratio_Bulk
begin

text \<open>
  The page that syncs prices, \<open>system-settings/models/upstream-ratio-sync.tsx\<close>: its state and handlers,
  the settings it reads, and the settings it writes when the selected prices are applied.  The server's
  answers are events of the page; toasts and rendering are left out.  \<open>None\<close> is an exception.
\<close>

section \<open>Constants and helpers\<close>

definition DEFAULT_ENDPOINT :: string where "DEFAULT_ENDPOINT = ''/api/pricing''"
definition OFFICIAL_CHANNEL_ENDPOINT :: string where
  "OFFICIAL_CHANNEL_ENDPOINT = ''/llm-metadata/api/newapi/ratio_config-v1-base.json''"
definition MODELS_DEV_PRESET_ENDPOINT :: string where "MODELS_DEV_PRESET_ENDPOINT = ''https://models.dev/api.json''"
definition OPENROUTER_ENDPOINT :: string where "OPENROUTER_ENDPOINT = ''openrouter''"
definition OPENROUTER_CHANNEL_TYPE :: int where "OPENROUTER_CHANNEL_TYPE = 20"

record UpstreamChannel =
  upId :: int
  upName :: string
  upBaseUrl :: string
  upStatus :: int
  upType :: "int option"

record UpstreamConfig =
  confId :: int
  confName :: string
  confBaseUrl :: string
  confEndpoint :: string

record ConflictItem =
  ciChannel :: string
  ciModel :: string
  ciCurrent :: string
  ciNewVal :: string

definition getDefaultEndpointForChannel :: "UpstreamChannel \<Rightarrow> string" where
  "getDefaultEndpointForChannel channel =
     (if upId channel = MODELS_DEV_PRESET_ID then MODELS_DEV_PRESET_ENDPOINT
      else if upId channel = OFFICIAL_CHANNEL_ID then OFFICIAL_CHANNEL_ENDPOINT
      else if upType channel = Some OPENROUTER_CHANNEL_TYPE then OPENROUTER_ENDPOINT
      else DEFAULT_ENDPOINT)"

text \<open>The kinds of price are ASCII, and so is the upper-casing here.\<close>

definition upper_char :: "char \<Rightarrow> char" where
  "upper_char c = (if 97 \<le> (of_char c :: nat) \<and> (of_char c :: nat) \<le> 122 then char_of (of_char c - 32 :: nat) else c)"

definition optionKeyBySyncField :: "string \<Rightarrow> string" where
  "optionKeyBySyncField ratioType =
     (if ratioType = ''billing_mode'' then ''billing_setting.billing_mode''
      else if ratioType = ''billing_expr'' then ''billing_setting.billing_expr''
      else join_with [] (map (\<lambda>word. case word of [] \<Rightarrow> [] | c # cs \<Rightarrow> upper_char c # cs) (split_on (CHR ''_'') ratioType)))"

definition parseJsonRecord :: "string option \<Rightarrow> jsval" where
  "parseJsonRecord raw =
     (case json_parse (case raw of Some s \<Rightarrow> if s = [] then ''{}'' else s | None \<Rightarrow> ''{}'') of
        Some v \<Rightarrow> v
      | None \<Rightarrow> JObj [])"

section \<open>The page\<close>

record SyncPage =
  channelDialogOpen :: bool
  conflictDialogOpen :: bool
  channelEndpoints :: "(int, string) omap"
  pageDifferences :: differences
  pageResolutions :: resolutions_map
  conflictItems :: "ConflictItem list"
  confirmLoading :: bool

text \<open>The effect that gives every channel without an endpoint its default.\<close>

definition initEndpoints :: "UpstreamChannel list \<Rightarrow> SyncPage \<Rightarrow> SyncPage" where
  "initEndpoints channels page =
     page\<lparr>channelEndpoints :=
       foldl (\<lambda>nx channel.
         (case om_get nx (upId channel) of
            Some (c # cs) \<Rightarrow> nx
          | _ \<Rightarrow> om_set (upId channel) (getDefaultEndpointForChannel channel) nx))
         (channelEndpoints page) channels\<rparr>"

definition fetchSucceeded :: "bool \<Rightarrow> differences \<Rightarrow> SyncPage \<Rightarrow> SyncPage" where
  "fetchSucceeded success answer page =
     (if \<not> success then page else page\<lparr>pageDifferences := answer, pageResolutions := []\<rparr>)"

definition dropSynced :: "string \<Rightarrow> differences \<Rightarrow> string \<Rightarrow> differences" where
  "dropSynced model newDiffs ratioType =
     (case om_get newDiffs model of
        None \<Rightarrow> newDiffs
      | Some md \<Rightarrow>
          (case om_get md ratioType of
             None \<Rightarrow> newDiffs
           | Some _ \<Rightarrow>
               (let rest = om_delete ratioType md in
                if length (om_keys rest) = 0 then om_delete model newDiffs else om_set model rest newDiffs)))"

definition syncSucceeded :: "SyncPage \<Rightarrow> SyncPage" where
  "syncSucceeded page =
     page\<lparr>pageDifferences :=
         foldl (\<lambda>newDiffs (model, ratios). foldl (dropSynced model) newDiffs (om_keys ratios))
           (pageDifferences page) (pageResolutions page),
       pageResolutions := []\<rparr>"

definition handleOpenChannelDialog :: "SyncPage \<Rightarrow> SyncPage" where
  "handleOpenChannelDialog page = page\<lparr>channelDialogOpen := True\<rparr>"

text \<open>The request for the prices of the selected channels, if there are any.\<close>

definition handleConfirmChannelSelection :: "UpstreamChannel list \<Rightarrow> SyncPage \<Rightarrow> int list \<Rightarrow> UpstreamConfig list option" where
  "handleConfirmChannelSelection channels page selectedIds =
     (let selectedChannels = filter (\<lambda>ch. upId ch \<in> set selectedIds) channels in
      if length selectedChannels = 0 then None
      else Some (map (\<lambda>ch. \<lparr>confId = upId ch, confName = upName ch, confBaseUrl = upBaseUrl ch,
             confEndpoint = (case om_get (channelEndpoints page) (upId ch) of
               Some (c # cs) \<Rightarrow> c # cs | _ \<Rightarrow> DEFAULT_ENDPOINT)\<rparr>) selectedChannels))"

definition handleSelectValue :: "ResolutionSelection \<Rightarrow> SyncPage \<Rightarrow> SyncPage" where
  "handleSelectValue selection page =
     page\<lparr>pageResolutions := applyResolutionSelection (pageResolutions page) (pageDifferences page) selection\<rparr>"

definition handleUnselectValue :: "string \<Rightarrow> string \<Rightarrow> SyncPage \<Rightarrow> SyncPage" where
  "handleUnselectValue model ratioType page =
     page\<lparr>pageResolutions := deleteResolutionField (pageResolutions page) model ratioType\<rparr>"

section \<open>The stored prices\<close>

text \<open>The ten settings, each a record from models to values.  The setting is cast to a record; one that
  is no object is outside the model.\<close>

type_synonym parsed_ratios = "(string, (string, jsval) omap) omap"

definition RATIO_OPTIONS :: "string list" where
  "RATIO_OPTIONS =
     [''ModelRatio'', ''CompletionRatio'', ''CacheRatio'', ''CreateCacheRatio'', ''ImageRatio'', ''AudioRatio'',
      ''AudioCompletionRatio'']"

definition SYNC_OPTIONS :: "string list" where
  "SYNC_OPTIONS = RATIO_OPTIONS @ [''ModelPrice'', ''billing_setting.billing_mode'', ''billing_setting.billing_expr'']"

fun as_record :: "jsval \<Rightarrow> (string, jsval) omap option" where
  "as_record (JObj fs) = Some fs"
| "as_record _ = None"

definition parsedRatios :: "(string \<Rightarrow> string option) \<Rightarrow> parsed_ratios option" where
  "parsedRatios modelRatios =
     those (map (\<lambda>key. map_option (Pair key) (as_record (parseJsonRecord (modelRatios key)))) SYNC_OPTIONS)"

definition stored :: "parsed_ratios \<Rightarrow> string \<Rightarrow> string \<Rightarrow> jsval option" where
  "stored ratios key model = (case om_get ratios key of None \<Rightarrow> None | Some r \<Rightarrow> om_get r model)"

definition getLocalBillingCategory :: "string \<Rightarrow> parsed_ratios \<Rightarrow> BillingCategory option" where
  "getLocalBillingCategory model currentRatios =
     (if stored currentRatios ''ModelPrice'' model \<noteq> None then Some CatPrice
      else if list_ex (\<lambda>key. stored currentRatios key model \<noteq> None) RATIO_OPTIONS then Some CatRatio
      else None)"

section \<open>Applying the selection\<close>

fun sync_json :: "SyncValue \<Rightarrow> jsval" where
  "sync_json (SNum x) = JNum (Fin x)"
| "sync_json (SText s) = JStr s"

definition syncedValue :: "string \<Rightarrow> SyncValue \<Rightarrow> jsval" where
  "syncedValue ratioType v = (if ratioType \<in> set NUMERIC_SYNC_FIELDS then JNum (sync_number v) else sync_json v)"

definition hasPrice :: "model_resolution \<Rightarrow> bool" where
  "hasPrice ratios \<longleftrightarrow> ''model_price'' \<in> set (om_keys ratios)"

definition hasRatio :: "model_resolution \<Rightarrow> bool" where
  "hasRatio ratios \<longleftrightarrow> list_ex (\<lambda>rt. rt \<in> set RATIO_SYNC_FIELDS) (om_keys ratios)"

definition deleteStored :: "string \<Rightarrow> parsed_ratios \<Rightarrow> string \<Rightarrow> parsed_ratios" where
  "deleteStored model final key =
     (case om_get final key of None \<Rightarrow> final | Some r \<Rightarrow> om_set key (om_delete model r) final)"

definition clearOther :: "string \<Rightarrow> model_resolution \<Rightarrow> parsed_ratios \<Rightarrow> parsed_ratios" where
  "clearOther model ratios final =
     (let f1 = (if hasPrice ratios then foldl (deleteStored model) final RATIO_OPTIONS else final) in
      if hasRatio ratios then deleteStored model f1 ''ModelPrice'' else f1)"

fun storeFields :: "string \<Rightarrow> model_resolution \<Rightarrow> parsed_ratios \<Rightarrow> parsed_ratios option" where
  "storeFields model [] final = Some final"
| "storeFields model ((ratioType, v) # ratios) final =
     (case om_get final (optionKeyBySyncField ratioType) of
        None \<Rightarrow> None
      | Some r \<Rightarrow>
          storeFields model ratios (om_set (optionKeyBySyncField ratioType) (om_set model (syncedValue ratioType v) r) final))"

fun finalRatios :: "resolutions_map \<Rightarrow> parsed_ratios \<Rightarrow> parsed_ratios option" where
  "finalRatios [] final = Some final"
| "finalRatios ((model, ratios) # res) final =
     (case storeFields model ratios (clearOther model ratios final) of None \<Rightarrow> None | Some f \<Rightarrow> finalRatios res f)"

definition syncUpdates :: "parsed_ratios \<Rightarrow> (string \<times> string) list" where
  "syncUpdates final = map (\<lambda>(key, r). (key, json_pretty (js_object r))) final"

definition performSync :: "resolutions_map \<Rightarrow> parsed_ratios \<Rightarrow> (string \<times> string) list option" where
  "performSync resolutions currentRatios = map_option syncUpdates (finalRatios resolutions currentRatios)"

definition findSourceChannel :: "differences \<Rightarrow> string \<Rightarrow> string \<Rightarrow> SyncValue \<Rightarrow> string" where
  "findSourceChannel differences model ratioType v =
     (case om_get differences model of
        None \<Rightarrow> ''Unknown''
      | Some md \<Rightarrow>
          (case om_get md ratioType of
             None \<Rightarrow> ''Unknown''
           | Some e \<Rightarrow>
               (case find (\<lambda>(_, x). x = Some v) (upstreams e) of Some (name, _) \<Rightarrow> name | None \<Rightarrow> ''Unknown'')))"

definition or_dash :: "jsval option \<Rightarrow> string" where
  "or_dash v = (case v of None \<Rightarrow> ''-'' | Some x \<Rightarrow> if x = JNull \<or> x = JUndef then ''-'' else js_str x)"

definition newCategory :: "model_resolution \<Rightarrow> BillingCategory" where
  "newCategory ratios =
     (if ''model_price'' \<in> set (om_keys ratios) then CatPrice
      else if list_ex (\<lambda>rt. rt \<in> set (om_keys ratios)) RATIO_SYNC_FIELDS then CatRatio
      else CatTiered)"

definition switchesCategory :: "parsed_ratios \<Rightarrow> string \<times> model_resolution \<Rightarrow> bool" where
  "switchesCategory currentRatios mr =
     (case getLocalBillingCategory (fst mr) currentRatios of
        None \<Rightarrow> False
      | Some localCat \<Rightarrow> newCategory (snd mr) \<noteq> CatTiered \<and> localCat \<noteq> newCategory (snd mr))"

text \<open>The item shown for a model that switches; \<open>t\<close> translates the labels.\<close>

definition conflictItem ::
  "(string \<Rightarrow> string) \<Rightarrow> differences \<Rightarrow> parsed_ratios \<Rightarrow> string \<times> model_resolution \<Rightarrow> ConflictItem" where
  "conflictItem t differences currentRatios mr =
     (let (model, ratios) = mr;
          ratioText = (\<lambda>a b. t ''Model ratio'' @ '': '' @ or_dash a @ [CHR 0x0A] @ t ''Completion ratio'' @ '': '' @ or_dash b);
          priceText = (\<lambda>p. t ''Fixed price'' @ '': '' @ (case p of None \<Rightarrow> ''undefined'' | Some x \<Rightarrow> js_str x));
          chosen = (\<lambda>rt. map_option sync_json (om_get ratios rt)) in
      \<lparr>ciChannel = join_with '', '' (os_of (map (\<lambda>(rt, v). findSourceChannel differences model rt v) ratios)),
       ciModel = model,
       ciCurrent =
         (if getLocalBillingCategory model currentRatios = Some CatPrice then priceText (stored currentRatios ''ModelPrice'' model)
          else ratioText (stored currentRatios ''ModelRatio'' model) (stored currentRatios ''CompletionRatio'' model)),
       ciNewVal =
         (if newCategory ratios = CatPrice then priceText (chosen ''model_price'')
          else ratioText (chosen ''model_ratio'') (chosen ''completion_ratio''))\<rparr>)"

definition conflicts ::
  "(string \<Rightarrow> string) \<Rightarrow> differences \<Rightarrow> resolutions_map \<Rightarrow> parsed_ratios \<Rightarrow> ConflictItem list" where
  "conflicts t differences resolutions currentRatios =
     map (conflictItem t differences currentRatios) (filter (switchesCategory currentRatios) resolutions)"

text \<open>The new page, with the settings written when no confirmation is needed.\<close>

definition handleApplySync ::
  "(string \<Rightarrow> string) \<Rightarrow> parsed_ratios \<Rightarrow> SyncPage \<Rightarrow> (SyncPage \<times> (string \<times> string) list option) option" where
  "handleApplySync t currentRatios page =
     (let cs = conflicts t (pageDifferences page) (pageResolutions page) currentRatios in
      if length cs > 0 then Some (page\<lparr>conflictItems := cs, conflictDialogOpen := True\<rparr>, None)
      else map_option (\<lambda>u. (page, Some u)) (performSync (pageResolutions page) currentRatios))"

text \<open>The confirmation: the settings it writes, and the page once the server has answered.\<close>

definition handleConfirmConflict ::
  "parsed_ratios \<Rightarrow> bool \<Rightarrow> SyncPage \<Rightarrow> (SyncPage \<times> (string \<times> string) list) option" where
  "handleConfirmConflict currentRatios success page =
     (case performSync (pageResolutions page) currentRatios of
        None \<Rightarrow> None
      | Some u \<Rightarrow>
          (let answered = page\<lparr>confirmLoading := True\<rparr>;
               synced = (if success then (syncSucceeded answered)\<lparr>conflictDialogOpen := False\<rparr> else answered) in
           Some (synced\<lparr>confirmLoading := False\<rparr>, u)))"

section \<open>What is stored\<close>

lemma option_keys: "map optionKeyBySyncField SYNC_FIELD_ORDER = SYNC_OPTIONS"
  "map optionKeyBySyncField RATIO_SYNC_FIELDS = RATIO_OPTIONS"
  by code_simp+

lemma option_inj: "inj_on optionKeyBySyncField (set SYNC_FIELD_ORDER)"
proof -
  have "distinct SYNC_OPTIONS" by code_simp
  then show ?thesis using option_keys(1) by (metis distinct_map)
qed

lemma option_member: "t \<in> set SYNC_FIELD_ORDER \<Longrightarrow> optionKeyBySyncField t \<in> set SYNC_OPTIONS"
  by (metis image_eqI list.set_map option_keys(1))

lemma om_keys_set_old: "k \<in> set (om_keys m) \<Longrightarrow> om_keys (om_set k v m) = om_keys m"
  by (simp add: om_keys_set os_add_def)

lemma om_get_keys: "k \<in> set (om_keys m) \<longleftrightarrow> (\<exists>v. om_get m k = Some v)"
  unfolding not_None_eq [symmetric] by (simp add: om_keys_def om_get_def map_of_eq_None_iff)

lemma stored_set:
  "om_get final k = Some r \<Longrightarrow>
   stored (om_set k (om_set m v r) final) key model = (if key = k \<and> model = m then Some v else stored final key model)"
  by (auto simp: stored_def om_get_set)

lemma stored_delete:
  "stored (deleteStored m final k) key model = (if key = k \<and> model = m then None else stored final key model)"
  by (auto simp: stored_def deleteStored_def om_get_set om_get_delete_key split: option.split)

lemma keys_deleteStored: "om_keys (deleteStored m final k) = om_keys final"
  by (auto simp: deleteStored_def om_keys_set_old om_get_keys split: option.split)

lemma foldl_deleteStored:
  "stored (foldl (deleteStored m) final ks) key model = (if key \<in> set ks \<and> model = m then None else stored final key model)"
  "om_keys (foldl (deleteStored m) final ks) = om_keys final"
  by (induction ks rule: rev_induct) (auto simp: stored_delete keys_deleteStored)

definition cleared :: "model_resolution \<Rightarrow> string \<Rightarrow> bool" where
  "cleared ratios key \<longleftrightarrow> hasPrice ratios \<and> key \<in> set RATIO_OPTIONS \<or> hasRatio ratios \<and> key = ''ModelPrice''"

lemma clearOther_stored:
  "stored (clearOther m ratios final) key model = (if model = m \<and> cleared ratios key then None else stored final key model)"
  "om_keys (clearOther m ratios final) = om_keys final"
  by (auto simp: clearOther_def cleared_def foldl_deleteStored stored_delete keys_deleteStored)

text \<open>The value a selection writes under a setting, and the value a model has there after the sync.\<close>

fun writes :: "model_resolution \<Rightarrow> string \<Rightarrow> jsval option" where
  "writes [] key = None"
| "writes ((t, v) # ratios) key = (if optionKeyBySyncField t = key then Some (syncedValue t v) else writes ratios key)"

definition afterSync :: "model_resolution \<Rightarrow> string \<Rightarrow> jsval option \<Rightarrow> jsval option" where
  "afterSync ratios key old =
     (case writes ratios key of Some x \<Rightarrow> Some x | None \<Rightarrow> if cleared ratios key then None else old)"

definition syncFields :: "model_resolution \<Rightarrow> bool" where
  "syncFields ratios \<longleftrightarrow> distinct (om_keys ratios) \<and> set (om_keys ratios) \<subseteq> set SYNC_FIELD_ORDER"

lemma writes_none: "(\<forall>t \<in> set (om_keys ratios). optionKeyBySyncField t \<noteq> key) \<longleftrightarrow> writes ratios key = None"
  by (induction ratios key rule: writes.induct) (auto simp: om_keys_def)

lemma storeFields_stored:
  assumes "syncFields ratios" and "om_keys final = SYNC_OPTIONS"
  shows "\<exists>F. storeFields m ratios final = Some F \<and> om_keys F = SYNC_OPTIONS \<and>
    (\<forall>key model. stored F key model =
       (if model = m \<and> writes ratios key \<noteq> None then writes ratios key else stored final key model))"
  using assms
proof (induction m ratios final rule: storeFields.induct)
  case (2 m t v ratios final)
  have t: "t \<in> set SYNC_FIELD_ORDER" "t \<notin> set (om_keys ratios)" "syncFields ratios"
    using 2(2) by (auto simp: syncFields_def om_keys_def)
  obtain r where r: "om_get final (optionKeyBySyncField t) = Some r"
    using option_member [OF t(1)] 2(3) om_get_keys by metis
  have "writes ratios (optionKeyBySyncField t) = None"
    using t option_inj by (auto simp: writes_none [symmetric] syncFields_def inj_on_def)
  moreover have "om_keys (om_set (optionKeyBySyncField t) (om_set m (syncedValue t v) r) final) = SYNC_OPTIONS"
    using option_member [OF t(1)] 2(3) by (simp add: om_keys_set_old)
  ultimately show ?case
    using 2(1) [OF r t(3)] by (auto simp: r stored_set)
qed simp

lemma finalRatios_stored:
  assumes "distinct (om_keys res)" and "\<forall>(m, ratios) \<in> set res. syncFields ratios" and "om_keys final = SYNC_OPTIONS"
  shows "\<exists>F. finalRatios res final = Some F \<and> om_keys F = SYNC_OPTIONS \<and>
    (\<forall>key model. stored F key model =
       (case om_get res model of None \<Rightarrow> stored final key model | Some ratios \<Rightarrow> afterSync ratios key (stored final key model)))"
  using assms
proof (induction res final rule: finalRatios.induct)
  case (2 m ratios res final)
  obtain f where f: "storeFields m ratios (clearOther m ratios final) = Some f" "om_keys f = SYNC_OPTIONS"
      and st: "\<And>key model. stored f key model = (if model = m \<and> writes ratios key \<noteq> None then writes ratios key
        else stored (clearOther m ratios final) key model)"
    using storeFields_stored [of ratios "clearOther m ratios final" m] 2(3,4) by (auto simp: clearOther_stored)
  have res: "distinct (om_keys res)" "om_get res m = None" "\<forall>(m, ratios) \<in> set res. syncFields ratios"
    using 2(2,3) by (auto simp: om_keys_def om_get_def map_of_eq_None_iff)
  have fm: "stored f key model = (if model = m then afterSync ratios key (stored final key model) else stored final key model)"
    for key model by (auto simp: st afterSync_def clearOther_stored split: option.split)
  obtain F where F: "finalRatios res f = Some F" "om_keys F = SYNC_OPTIONS"
      "\<And>key model. stored F key model =
        (case om_get res model of None \<Rightarrow> stored f key model | Some ratios \<Rightarrow> afterSync ratios key (stored f key model))"
    using 2(1) [OF f(1) res(1,3) f(2)] by blast
  have "om_get ((m, ratios) # res) model = (if model = m then Some ratios else om_get res model)" for model
    by (simp add: om_get_def)
  then have "stored F key model = (case om_get ((m, ratios) # res) model of None \<Rightarrow> stored final key model
      | Some ratios \<Rightarrow> afterSync ratios key (stored final key model))" for key model
    using res(2) by (auto simp: F(3) fm split: option.split)
  then show ?case using F(1,2) by (simp add: f(1))
qed (simp add: om_get_def)

section \<open>Categories after a sync\<close>

lemma writes_get:
  assumes "syncFields ratios" and "t \<in> set SYNC_FIELD_ORDER"
  shows "writes ratios (optionKeyBySyncField t) = map_option (syncedValue t) (om_get ratios t)"
  using assms(1)
proof (induction ratios)
  case (Cons e ratios)
  obtain t' v where e: "e = (t', v)" by (cases e)
  have "t' \<in> set SYNC_FIELD_ORDER" "syncFields ratios" using Cons.prems by (auto simp: e syncFields_def om_keys_def)
  then show ?case using Cons.IH option_inj assms(2) by (auto simp: e om_get_def inj_on_def)
qed (simp add: om_get_def)

lemma ratio_fields: "t \<in> set RATIO_SYNC_FIELDS \<Longrightarrow> t \<in> set SYNC_FIELD_ORDER \<and> getBillingCategory t = CatRatio"
  by (auto simp: RATIO_SYNC_FIELDS_def SYNC_FIELD_ORDER_def getBillingCategory_def)

lemma price_field: "''model_price'' \<in> set SYNC_FIELD_ORDER" "getBillingCategory ''model_price'' = CatPrice"
  "optionKeyBySyncField ''model_price'' = ''ModelPrice''"
  by code_simp+

lemma local_category:
  "getLocalBillingCategory m F =
     (if stored F (optionKeyBySyncField ''model_price'') m \<noteq> None then Some CatPrice
      else if \<exists>t \<in> set RATIO_SYNC_FIELDS. stored F (optionKeyBySyncField t) m \<noteq> None then Some CatRatio else None)"
  by (auto simp: getLocalBillingCategory_def price_field option_keys(2) [symmetric] list_ex_iff)

lemma cleared_fields:
  "cleared ratios (optionKeyBySyncField ''model_price'') \<longleftrightarrow> hasRatio ratios"
  "t \<in> set RATIO_SYNC_FIELDS \<Longrightarrow> cleared ratios (optionKeyBySyncField t) \<longleftrightarrow> hasPrice ratios"
proof -
  have "''ModelPrice'' \<notin> set RATIO_OPTIONS" by code_simp
  then show "cleared ratios (optionKeyBySyncField ''model_price'') \<longleftrightarrow> hasRatio ratios"
    by (simp add: cleared_def price_field)
  assume t: "t \<in> set RATIO_SYNC_FIELDS"
  then have "optionKeyBySyncField t \<in> set RATIO_OPTIONS" by (metis image_eqI list.set_map option_keys(2))
  moreover from this have "optionKeyBySyncField t \<noteq> ''ModelPrice''" using \<open>''ModelPrice'' \<notin> set RATIO_OPTIONS\<close> by metis
  ultimately show "cleared ratios (optionKeyBySyncField t) \<longleftrightarrow> hasPrice ratios" by (simp add: cleared_def)
qed

lemma newCategory_cases:
  "newCategory ratios = (if hasPrice ratios then CatPrice else if hasRatio ratios then CatRatio else CatTiered)"
  by (auto simp: newCategory_def hasPrice_def hasRatio_def list_ex_iff)

lemma wellPriced_exclusive: "wellPriced ratios \<Longrightarrow> \<not> (hasPrice ratios \<and> hasRatio ratios)"
  using ratio_fields price_field(2) by (auto simp: wellPriced_def hasPrice_def hasRatio_def list_ex_iff)

lemma hasPrice_get: "hasPrice ratios \<longleftrightarrow> om_get ratios ''model_price'' \<noteq> None"
  by (auto simp: hasPrice_def om_get_keys)

lemma hasRatio_get: "hasRatio ratios \<longleftrightarrow> (\<exists>t \<in> set RATIO_SYNC_FIELDS. om_get ratios t \<noteq> None)"
  by (auto simp: hasRatio_def list_ex_iff om_get_keys)

text \<open>The category of a model after the sync is the selected one, and its category before when neither a
  price nor a ratio is selected; with a selected one, the other category has nothing stored.\<close>

lemma category_after:
  assumes "syncFields ratios" and "wellPriced ratios"
    and after: "\<And>key. stored F key m = afterSync ratios key (stored cur key m)"
  shows "getLocalBillingCategory m F =
      (if newCategory ratios = CatTiered then getLocalBillingCategory m cur else Some (newCategory ratios))"
    and "newCategory ratios \<noteq> CatTiered \<Longrightarrow> t \<in> set RATIO_SYNC_FIELDS \<Longrightarrow>
      stored F ''ModelPrice'' m = None \<or> stored F (optionKeyBySyncField t) m = None"
proof -
  have price: "stored F (optionKeyBySyncField ''model_price'') m =
      (case om_get ratios ''model_price'' of Some v \<Rightarrow> Some (syncedValue ''model_price'' v)
       | None \<Rightarrow> if hasRatio ratios then None else stored cur (optionKeyBySyncField ''model_price'') m)"
    by (simp add: after afterSync_def writes_get [OF assms(1) price_field(1)] cleared_fields split: option.split)
  have ratio: "stored F (optionKeyBySyncField t) m =
      (case om_get ratios t of Some v \<Rightarrow> Some (syncedValue t v)
       | None \<Rightarrow> if hasPrice ratios then None else stored cur (optionKeyBySyncField t) m)"
    if "t \<in> set RATIO_SYNC_FIELDS" for t
    using that by (simp add: after afterSync_def writes_get [OF assms(1)] ratio_fields cleared_fields split: option.split)
  note excl = wellPriced_exclusive [OF assms(2)]
  show "getLocalBillingCategory m F =
      (if newCategory ratios = CatTiered then getLocalBillingCategory m cur else Some (newCategory ratios))"
  proof (cases "hasPrice ratios \<or> hasRatio ratios")
    case True
    then show ?thesis
      using excl price ratio unfolding local_category newCategory_cases by (auto simp: hasPrice_get hasRatio_get)
  next
    case False
    then have "om_get ratios ''model_price'' = None" "\<forall>t \<in> set RATIO_SYNC_FIELDS. om_get ratios t = None"
      by (auto simp: hasPrice_get hasRatio_get)
    then show ?thesis using False price ratio unfolding local_category newCategory_cases by simp
  qed
  show "newCategory ratios \<noteq> CatTiered \<Longrightarrow> t \<in> set RATIO_SYNC_FIELDS \<Longrightarrow>
      stored F ''ModelPrice'' m = None \<or> stored F (optionKeyBySyncField t) m = None"
    using excl price ratio [of t] unfolding newCategory_cases price_field(3)
    by (auto simp: hasPrice_get hasRatio_get split: if_splits)
qed

section \<open>The page keeps its selection in order\<close>

definition goodPrices :: "model_resolution \<Rightarrow> bool" where
  "goodPrices d \<longleftrightarrow> syncFields d \<and> wellPriced d"

definition goodResolutions :: "resolutions_map \<Rightarrow> bool" where
  "goodResolutions res \<longleftrightarrow> distinct (om_keys res) \<and> (\<forall>(m, d) \<in> set res. goodPrices d)"

text \<open>What the table offers: a known kind of price of a model with differences.\<close>

definition offered :: "differences \<Rightarrow> ResolutionSelection \<Rightarrow> bool" where
  "offered differences s \<longleftrightarrow> selRatioType s \<in> set SYNC_FIELD_ORDER \<and> om_get differences (selModel s) \<noteq> None"

definition initialPage :: SyncPage where
  "initialPage = \<lparr>channelDialogOpen = False, conflictDialogOpen = False, channelEndpoints = [], pageDifferences = [],
     pageResolutions = [], conflictItems = [], confirmLoading = False\<rparr>"

inductive reachablePage :: "SyncPage \<Rightarrow> bool" where
  opened: "reachablePage initialPage"
| endpoints: "reachablePage p \<Longrightarrow> reachablePage (initEndpoints channels p)"
| dialog: "reachablePage p \<Longrightarrow> reachablePage (handleOpenChannelDialog p)"
| fetched: "reachablePage p \<Longrightarrow> reachablePage (fetchSucceeded success answer p)"
| selected: "reachablePage p \<Longrightarrow> offered (pageDifferences p) s \<Longrightarrow> reachablePage (handleSelectValue s p)"
| selectedMany: "reachablePage p \<Longrightarrow> list_all (offered (pageDifferences p)) ss \<Longrightarrow>
    reachablePage (p\<lparr>pageResolutions := handleSelectValues (pageDifferences p) ss (pageResolutions p)\<rparr>)"
| unselected: "reachablePage p \<Longrightarrow> reachablePage (handleUnselectValue model ratioType p)"
| unselectedMany: "reachablePage p \<Longrightarrow>
    reachablePage (p\<lparr>pageResolutions := handleUnselectValues plan (pageResolutions p)\<rparr>)"
| applied: "reachablePage p \<Longrightarrow> handleApplySync t cur p = Some (p', u) \<Longrightarrow> reachablePage p'"
| confirmed: "reachablePage p \<Longrightarrow> handleConfirmConflict cur success p = Some (p', u') \<Longrightarrow> reachablePage p'"
| synced: "reachablePage p \<Longrightarrow> reachablePage (syncSucceeded p)"

lemma good_Nil: "goodPrices []"
  by (simp add: goodPrices_def syncFields_def wellPriced_Nil)

lemma syncFields_set: "syncFields d \<Longrightarrow> k \<in> set SYNC_FIELD_ORDER \<Longrightarrow> syncFields (om_set k v d)"
  by (simp add: syncFields_def om_keys_set)

lemma syncFields_filter: "syncFields d \<Longrightarrow> syncFields (filter P d)"
  by (auto simp: syncFields_def om_keys_def distinct_map_filter)

lemma tiered_fields: "''billing_mode'' \<in> set SYNC_FIELD_ORDER" "''billing_expr'' \<in> set SYNC_FIELD_ORDER"
  by code_simp+

lemma syncFields_tiered:
  "syncFields d \<Longrightarrow> syncFields (tieredMode md src t d)"
  "syncFields d \<Longrightarrow> syncFields (tieredExpr md src d)"
  using tiered_fields by (auto simp: tieredMode_def tieredExpr_def syncFields_set split: option.split)

lemma good_draftStep:
  assumes "goodPrices d" and "offered differences s"
  shows "goodPrices (draftStep differences s d)"
proof -
  have "selRatioType (resolveResolutionSelection differences s) \<in> set SYNC_FIELD_ORDER"
    using assms(2) tiered_fields by (simp add: offered_def resolveResolutionSelection_def getPreferredSyncField_def Let_def)
  then have "syncFields (draftStep differences s d)"
    using assms(1) unfolding draftStep_cases
    by (simp add: goodPrices_def syncFields_set syncFields_filter syncFields_tiered dropOtherCategory_def)
  then show ?thesis using assms wellPriced_draftStep by (simp add: goodPrices_def offered_def)
qed

lemma good_initial: "goodResolutions res \<Longrightarrow> goodPrices (initialDraft res m)"
  by (auto simp: goodResolutions_def initialDraft_def good_Nil om_get_iff split: option.split)

lemma good_set: "goodResolutions res \<Longrightarrow> goodPrices d \<Longrightarrow> goodResolutions (om_set m d res)"
  using om_set_invariant [of res "\<lambda>_. goodPrices" m d] by (simp add: goodResolutions_def distinct_om_set)

lemma good_write: "goodResolutions res \<Longrightarrow> goodPrices d \<Longrightarrow> goodResolutions (writeDraft (m, d) res)"
  by (auto simp: writeDraft_def good_set) (auto simp: goodResolutions_def om_delete_def om_keys_def distinct_map_filter)

lemma good_writes: "goodResolutions res \<Longrightarrow> \<forall>(m, d) \<in> set ds. goodPrices d \<Longrightarrow> goodResolutions (fold writeDraft ds res)"
  by (induction ds arbitrary: res) (auto simp: good_write)

lemma good_selections:
  assumes "goodResolutions res" and "\<forall>s \<in> set ss. offered differences s"
  shows "goodResolutions (applyResolutionSelections res differences ss)"
proof -
  have "goodResolutions (foldl (\<lambda>ds s. applyResolutionSelectionToDraft ds res differences s) [] ss)"
    using assms(2)
  proof (induction ss rule: rev_induct)
    case (snoc s ss)
    let ?ds = "foldl (\<lambda>ds s. applyResolutionSelectionToDraft ds res differences s) [] ss"
    have ds: "goodResolutions ?ds" using snoc by simp
    then have "goodPrices (getDraftModelResolution ?ds res (selModel s))"
      using good_initial [OF assms(1)] by (auto simp: getDraftModelResolution_def goodResolutions_def om_get_iff split: option.split)
    then show ?case using ds snoc.prems by (simp add: applyResolutionSelectionToDraft_def good_set good_draftStep)
  qed (simp add: goodResolutions_def)
  then have "goodResolutions (fold writeDraft (foldl (\<lambda>ds s. applyResolutionSelectionToDraft ds res differences s) [] ss) res)"
    using assms(1) by (intro good_writes) (simp_all add: goodResolutions_def)
  then show ?thesis using assms(1) by (simp add: applyResolutionSelections_def Let_def)
qed

lemma good_removed: "goodPrices d \<Longrightarrow> goodPrices (foldl removeField d ts)"
  unfolding foldl_removeField using wellPriced_without by (simp add: goodPrices_def) (simp add: without_def syncFields_filter)

lemma good_removal_plan:
  assumes "goodResolutions res"
  shows "goodResolutions (applyResolutionRemovalPlan res plan)"
proof -
  have step: "goodResolutions (planStep res mr nx)" if "goodResolutions nx" for mr nx
    using that assms
    by (cases mr) (auto simp: planStep_def goodResolutions_def [of res] om_get_iff good_write good_removed split: option.split)
  have "goodResolutions (fold (planStep res) plan nx)" if "goodResolutions nx" for nx
    using that by (induction plan arbitrary: nx) (auto simp: step)
  then show ?thesis using assms by (simp add: applyResolutionRemovalPlan_def)
qed

lemma good_removals: "goodResolutions res \<Longrightarrow> goodResolutions (applyResolutionRemovals res rs)"
  by (simp add: applyResolutionRemovals_def good_removal_plan)

lemma reachable_good: "reachablePage p \<Longrightarrow> goodResolutions (pageResolutions p)"
proof (induction rule: reachablePage.induct)
  case (applied p t cur p' u)
  then show ?case by (auto simp: handleApplySync_def Let_def split: if_splits)
next
  case (confirmed p cur success p' u')
  have [simp]: "goodResolutions []" by (simp add: goodResolutions_def)
  show ?case using confirmed
    by (auto simp: handleConfirmConflict_def Let_def syncSucceeded_def split: option.splits if_splits)
qed (auto simp: initialPage_def initEndpoints_def handleOpenChannelDialog_def fetchSucceeded_def handleSelectValue_def
    applyResolutionSelection_def good_selections handleSelectValues_def handleUnselectValue_def deleteResolutionField_def
    good_removals handleUnselectValues_def good_removal_plan syncSucceeded_def list_all_iff goodResolutions_def [of "[]"])

section \<open>Applying prices\<close>

lemma parsed_keys: "parsedRatios settings = Some cur \<Longrightarrow> om_keys cur = SYNC_OPTIONS"
proof -
  have "those (map (\<lambda>key. map_option (Pair key) (f key)) ks) = Some xs \<Longrightarrow> map fst xs = ks"
    for f :: "string \<Rightarrow> (string, jsval) omap option" and ks and xs :: parsed_ratios
    by (induction ks arbitrary: xs) (auto split: option.splits)
  then show "parsedRatios settings = Some cur \<Longrightarrow> ?thesis" by (simp add: parsedRatios_def om_keys_def)
qed

lemma reachable_final:
  assumes "reachablePage p" and "parsedRatios settings = Some cur"
  obtains F where "finalRatios (pageResolutions p) cur = Some F"
    "\<And>key model. stored F key model =
       (case om_get (pageResolutions p) model of None \<Rightarrow> stored cur key model
        | Some ratios \<Rightarrow> afterSync ratios key (stored cur key model))"
proof -
  have "distinct (om_keys (pageResolutions p))" "\<forall>(m, ratios) \<in> set (pageResolutions p). syncFields ratios"
    using reachable_good [OF assms(1)] by (auto simp: goodResolutions_def goodPrices_def)
  then show ?thesis using finalRatios_stored [of "pageResolutions p" cur] parsed_keys [OF assms(2)] that by auto
qed

lemma reachable_entry:
  assumes "reachablePage p" and "om_get (pageResolutions p) m = Some ratios"
  shows "syncFields ratios" and "wellPriced ratios"
  using reachable_good [OF assms(1)] assms(2) by (auto simp: goodResolutions_def goodPrices_def om_get_iff)

text \<open>
  C27. Whatever was fetched, selected and unselected before, applying the selection does not fail, and the
  settings written hold each selected value under its setting, leave models without a selection as they
  were, and for a model with a selected price or ratio store the one or the other and not both.
\<close>

theorem ratio_sync_written:
  assumes "reachablePage p" and "parsedRatios settings = Some cur"
  shows "\<exists>F. performSync (pageResolutions p) cur = Some (syncUpdates F) \<and>
    (\<forall>m key. om_get (pageResolutions p) m = None \<longrightarrow> stored F key m = stored cur key m) \<and>
    (\<forall>m ratios. om_get (pageResolutions p) m = Some ratios \<longrightarrow>
       (\<forall>t v. om_get ratios t = Some v \<longrightarrow> stored F (optionKeyBySyncField t) m = Some (syncedValue t v)) \<and>
       (newCategory ratios \<noteq> CatTiered \<longrightarrow>
          getLocalBillingCategory m F = Some (newCategory ratios) \<and>
          (\<forall>t \<in> set RATIO_SYNC_FIELDS. stored F ''ModelPrice'' m = None \<or> stored F (optionKeyBySyncField t) m = None)))"
proof -
  obtain F where F: "finalRatios (pageResolutions p) cur = Some F"
      "\<And>key model. stored F key model =
         (case om_get (pageResolutions p) model of None \<Rightarrow> stored cur key model
          | Some ratios \<Rightarrow> afterSync ratios key (stored cur key model))"
    using reachable_final [OF assms] by metis
  have written: "stored F (optionKeyBySyncField t) m = Some (syncedValue t v)"
    if "om_get (pageResolutions p) m = Some ratios" "om_get ratios t = Some v" for m ratios t v
  proof -
    have "t \<in> set SYNC_FIELD_ORDER"
      using reachable_entry(1) [OF assms(1) that(1)] that(2) by (auto simp: syncFields_def om_get_keys)
    then show ?thesis
      using that writes_get [OF reachable_entry(1) [OF assms(1) that(1)]] by (simp add: F(2) afterSync_def)
  qed
  have after: "stored F key m = afterSync ratios key (stored cur key m)" if "om_get (pageResolutions p) m = Some ratios" for key m ratios
    using that by (simp add: F(2))
  note cat = category_after [OF reachable_entry [OF assms(1)] after]
  show ?thesis
    using F written cat by (intro exI [of _ F]) (simp add: performSync_def)
qed


definition demoSettings :: "string \<Rightarrow> string option" where
  "demoSettings key = (if key = ''ModelPrice'' then Some (''{'' @ json_quote ''m'' @ '':1}'') else None)"

definition demoStored :: parsed_ratios where
  "demoStored = map (\<lambda>key. (key, if key = ''ModelPrice'' then [(''m'', JNum (Fin 1))] else [])) SYNC_OPTIONS"

definition demoPage :: SyncPage where
  "demoPage = handleSelectValue (hd (tl demoSelections))
     (handleSelectValue (hd demoSelections) (fetchSucceeded True demoDifferences initialPage))"

lemma demo_parsed: "parsedRatios demoSettings = Some demoStored"
  by code_simp

lemma demo_reachable: "reachablePage demoPage"
  unfolding demoPage_def
  by (intro selected fetched opened)
    (simp_all add: offered_def demoSelections_def demoDifferences_def om_get_def SYNC_FIELD_ORDER_def RATIO_SYNC_FIELDS_def
      fetchSucceeded_def handleSelectValue_def)

theorem ratio_sync_written_witness:
  "\<exists>F. performSync (pageResolutions demoPage) demoStored = Some (syncUpdates F) \<and>
     stored F ''ModelRatio'' ''m'' = Some (JNum (Fin 3)) \<and> getLocalBillingCategory ''m'' F = Some CatRatio"
proof -
  have res: "om_get (pageResolutions demoPage) ''m'' = Some [(''model_ratio'', SNum 3)]" by code_simp
  have cat: "newCategory [(''model_ratio'', SNum 3)] = CatRatio" by code_simp
  have get: "om_get [(''model_ratio'', SNum 3)] ''model_ratio'' = Some (SNum 3)" by (simp add: om_get_def)
  have opt: "optionKeyBySyncField ''model_ratio'' = ''ModelRatio''" "syncedValue ''model_ratio'' (SNum 3) = JNum (Fin 3)"
    by code_simp+
  obtain F where F: "performSync (pageResolutions demoPage) demoStored = Some (syncUpdates F)"
      "\<forall>m ratios. om_get (pageResolutions demoPage) m = Some ratios \<longrightarrow>
       (\<forall>t v. om_get ratios t = Some v \<longrightarrow> stored F (optionKeyBySyncField t) m = Some (syncedValue t v)) \<and>
       (newCategory ratios \<noteq> CatTiered \<longrightarrow> getLocalBillingCategory m F = Some (newCategory ratios) \<and>
          (\<forall>t \<in> set RATIO_SYNC_FIELDS. stored F ''ModelPrice'' m = None \<or> stored F (optionKeyBySyncField t) m = None))"
    using ratio_sync_written [OF demo_reachable demo_parsed] by metis
  note m = F(2) [rule_format, OF res]
  have "stored F ''ModelRatio'' ''m'' = Some (JNum (Fin 3))" using conjunct1 [OF m, rule_format, OF get] unfolding opt .
  moreover have "getLocalBillingCategory ''m'' F = Some CatRatio" using conjunct2 [OF m] by (simp add: cat)
  ultimately show ?thesis using F(1) by blast
qed


end
