(* ===== verification/Playground_Messages.thy ===== *)
theory Playground_Messages
  imports Js_Coerce
begin

text \<open>
  The messages of the playground: \<open>features/playground/types.ts\<close> and the modules of
  \<open>features/playground/lib/message\<close> with \<open>payload-builder.ts\<close>.  A clock gives the successive readings
  of \<open>Date.now()\<close> within a call, in milliseconds; the identifiers \<open>nanoid()\<close> draws are arguments, and so
  is the translation \<open>t\<close>.
\<close>

section \<open>Messages\<close>

datatype MessageRole = RoleUser | RoleAssistant | RoleSystem

datatype MessageStatus = MsgLoading | MsgStreaming | MsgComplete | MsgError

record MessageVersion =
  ver_id :: string
  ver_content :: string

record MessageReasoning =
  rs_content :: string
  rs_duration :: int
  rs_startedAt :: "int option"
  rs_completedAt :: "int option"
  rs_durationMs :: "int option"

text \<open>An optional field is \<open>None\<close> when it is \<open>undefined\<close>; an error code may also be \<open>null\<close>.\<close>

record Message =
  msg_key :: string
  msg_from :: MessageRole
  msg_versions :: "MessageVersion list"
  msg_createdAt :: "int option"
  msg_startedAt :: "int option"
  msg_completedAt :: "int option"
  msg_durationMs :: "int option"
  msg_sources :: "(string \<times> string) list option"
  msg_reasoning :: "MessageReasoning option"
  msg_isReasoningStreaming :: "bool option"
  msg_isReasoningComplete :: "bool option"
  msg_isContentComplete :: "bool option"
  msg_status :: "MessageStatus option"
  msg_errorCode :: "string option option"

type_synonym clock = "nat \<Rightarrow> int"

definition ERROR_API_REQUEST :: string where "ERROR_API_REQUEST = ''Request error occurred''"
definition ERROR_NETWORK :: string where "ERROR_NETWORK = ''Network connection failed or server not responding''"
definition ERROR_PARSE :: string where "ERROR_PARSE = ''Error parsing response data''"
definition ERROR_STREAM_START :: string where "ERROR_STREAM_START = ''Error establishing connection''"
definition ERROR_CONNECTION_CLOSED :: string where "ERROR_CONNECTION_CLOSED = ''Connection closed''"
definition ERROR_INTERRUPTED :: string where "ERROR_INTERRUPTED = ''Generation was interrupted''"

definition createMessageVersion :: "string \<Rightarrow> string \<Rightarrow> MessageVersion" where
  "createMessageVersion nanoid content = \<lparr>ver_id = nanoid, ver_content = content\<rparr>"

definition getCurrentVersion :: "Message \<Rightarrow> MessageVersion" where
  "getCurrentVersion message =
     (case msg_versions message of v # vs \<Rightarrow> v | [] \<Rightarrow> \<lparr>ver_id = ''default'', ver_content = []\<rparr>)"

definition getMessageContent :: "Message \<Rightarrow> string" where
  "getMessageContent message = ver_content (getCurrentVersion message)"

definition hasMessageContent :: "Message \<Rightarrow> bool" where
  "hasMessageContent message \<longleftrightarrow> js_trim (getMessageContent message) \<noteq> []"

definition updateCurrentVersionContent :: "Message \<Rightarrow> string \<Rightarrow> Message" where
  "updateCurrentVersionContent message content =
     message\<lparr>msg_versions := [(getCurrentVersion message)\<lparr>ver_content := content\<rparr>]\<rparr>"

definition createUserMessage :: "string \<Rightarrow> string \<Rightarrow> string \<Rightarrow> int \<Rightarrow> Message" where
  "createUserMessage key versionId content createdAt =
     \<lparr>msg_key = key, msg_from = RoleUser, msg_versions = [createMessageVersion versionId content],
      msg_createdAt = Some createdAt, msg_startedAt = None, msg_completedAt = None, msg_durationMs = None,
      msg_sources = None, msg_reasoning = None, msg_isReasoningStreaming = None, msg_isReasoningComplete = None,
      msg_isContentComplete = None, msg_status = None, msg_errorCode = None\<rparr>"

definition createLoadingAssistantMessage :: "string \<Rightarrow> string \<Rightarrow> int \<Rightarrow> Message" where
  "createLoadingAssistantMessage key versionId startedAt =
     \<lparr>msg_key = key, msg_from = RoleAssistant, msg_versions = [createMessageVersion versionId []],
      msg_createdAt = Some startedAt, msg_startedAt = Some startedAt, msg_completedAt = None, msg_durationMs = None,
      msg_sources = None, msg_reasoning = None, msg_isReasoningStreaming = Some False,
      msg_isReasoningComplete = Some False, msg_isContentComplete = Some False, msg_status = Some MsgLoading,
      msg_errorCode = None\<rparr>"

datatype ContentPart = TextPart string | ImagePart string

datatype MessagePayload = PlainText string | Parts "ContentPart list"

definition buildMessageContent :: "string \<Rightarrow> string list \<Rightarrow> MessagePayload" where
  "buildMessageContent txt imageUrls =
     (let validImages = filter (\<lambda>url. js_trim url \<noteq> []) imageUrls in
      if length validImages = 0 then PlainText txt
      else Parts (TextPart txt # map (\<lambda>url. ImagePart (js_trim url)) validImages))"

fun getTextContent :: "MessagePayload \<Rightarrow> string" where
  "getTextContent (PlainText s) = s"
| "getTextContent (Parts ps) =
     (case find (\<lambda>p. case p of TextPart _ \<Rightarrow> True | ImagePart _ \<Rightarrow> False) ps of
        Some (TextPart s) \<Rightarrow> s | _ \<Rightarrow> [])"

record ChatCompletionMessage =
  cc_role :: MessageRole
  cc_content :: string

definition formatMessageForAPI :: "Message \<Rightarrow> ChatCompletionMessage" where
  "formatMessageForAPI message = \<lparr>cc_role = msg_from message, cc_content = ver_content (getCurrentVersion message)\<rparr>"

definition isValidMessage :: "Message \<Rightarrow> bool" where
  "isValidMessage message =
     (if length (msg_versions message) = 0 then False
      else if msg_from message = RoleAssistant \<and> \<not> hasMessageContent message then False
      else True)"

section \<open>Reasoning in think tags\<close>

record ParsedThinkTags =
  visibleContent :: string
  think_reasoning :: string
  hasUnclosedTag :: bool

definition THINK_OPEN :: string where "THINK_OPEN = ''<think>''"
definition THINK_CLOSE :: string where "THINK_CLOSE = ''</think>''"

text \<open>\<open>s.indexOf(pat)\<close> and \<open>s.indexOf(pat, from)\<close>, for a position within the string.\<close>

fun index_first :: "string \<Rightarrow> string \<Rightarrow> nat option" where
  "index_first pat [] = (if pat = [] then Some 0 else None)"
| "index_first pat (c # cs) = (if prefix pat (c # cs) then Some 0 else map_option Suc (index_first pat cs))"

definition js_index_of :: "string \<Rightarrow> string \<Rightarrow> nat \<Rightarrow> nat option" where
  "js_index_of s pat from = map_option (\<lambda>i. from + i) (index_first pat (drop from s))"

definition js_slice :: "string \<Rightarrow> nat \<Rightarrow> nat \<Rightarrow> string" where
  "js_slice s a b = drop a (take b s)"

lemma index_first_bound: "index_first pat s = Some i \<Longrightarrow> i + length pat \<le> length s"
proof (induction pat s arbitrary: i rule: index_first.induct)
  case (2 pat c cs)
  then show ?case by (auto split: if_splits dest: prefix_length_le)
qed (auto split: if_splits)

lemma js_index_of_bound: "js_index_of s pat from = Some i \<Longrightarrow> from \<le> i \<and> i + length pat \<le> max from (length s)"
  using index_first_bound by (fastforce simp: js_index_of_def)

text \<open>The loop of \<open>parseThinkTags\<close>: the position and the parts collected so far.\<close>

function thinkLoop :: "string \<Rightarrow> nat \<Rightarrow> string list \<Rightarrow> string list \<Rightarrow> string list \<times> string list \<times> bool" where
  "thinkLoop content currentPos visibleParts reasoningParts =
     (case js_index_of content THINK_OPEN currentPos of
        None \<Rightarrow> (visibleParts @ (if currentPos < length content then [drop currentPos content] else []), reasoningParts, False)
      | Some openPos \<Rightarrow>
          (let visible = visibleParts @ (if openPos > currentPos then [js_slice content currentPos openPos] else []) in
           case js_index_of content THINK_CLOSE (openPos + 7) of
             None \<Rightarrow> (visible, reasoningParts @ [drop (openPos + 7) content], True)
           | Some closePos \<Rightarrow>
               thinkLoop content (closePos + 8) visible (reasoningParts @ [js_slice content (openPos + 7) closePos])))"
  by pat_completeness auto

text \<open>Every turn moves past an opening tag that lies within the content.\<close>

termination
proof (relation "measure (\<lambda>(content, currentPos, _, _). length content - currentPos)")
  fix content :: string and currentPos openPos closePos :: nat and visibleParts reasoningParts visible :: "string list"
  assume o: "js_index_of content THINK_OPEN currentPos = Some openPos"
    and c: "js_index_of content THINK_CLOSE (openPos + 7) = Some closePos"
  have "currentPos + 7 \<le> length content"
    using js_index_of_bound [OF o] by (auto simp: THINK_OPEN_def max_def split: if_splits)
  moreover have "openPos + 7 \<le> closePos" "currentPos \<le> openPos"
    using js_index_of_bound [OF o] js_index_of_bound [OF c] by auto
  ultimately show "((content, closePos + 8, visible, reasoningParts @ [js_slice content (openPos + 7) closePos]),
      content, currentPos, visibleParts, reasoningParts) \<in> measure (\<lambda>(content, currentPos, _, _). length content - currentPos)"
    by simp
qed simp

declare thinkLoop.simps [simp del]

definition NEWLINES :: string where "NEWLINES = [CHR 0x0A, CHR 0x0A]"

definition parseThinkTags :: "string \<Rightarrow> ParsedThinkTags" where
  "parseThinkTags content =
     (if \<not> js_includes THINK_OPEN content
      then \<lparr>visibleContent = content, think_reasoning = [], hasUnclosedTag = False\<rparr>
      else
        (case thinkLoop content 0 [] [] of
           (visibleParts, reasoningParts, unclosed) \<Rightarrow>
             \<lparr>visibleContent = js_trim (join_with [] visibleParts),
              think_reasoning = js_trim (join_with NEWLINES reasoningParts),
              hasUnclosedTag = unclosed\<rparr>))"

section \<open>Timing\<close>

definition completeAssistantTiming :: "Message \<Rightarrow> int \<Rightarrow> Message" where
  "completeAssistantTiming message completedAt =
     (if msg_from message \<noteq> RoleAssistant then message
      else
        (let startedAt = (case msg_startedAt message of Some s \<Rightarrow> s
             | None \<Rightarrow> (case msg_createdAt message of Some c \<Rightarrow> c | None \<Rightarrow> completedAt)) in
         message\<lparr>msg_startedAt := Some startedAt, msg_completedAt := Some completedAt,
           msg_durationMs := Some (max 0 (completedAt - startedAt))\<rparr>))"

definition startReasoningTiming :: "Message \<Rightarrow> int \<Rightarrow> MessageReasoning" where
  "startReasoningTiming message startedAt =
     (case msg_reasoning message of
        None \<Rightarrow> \<lparr>rs_content = [], rs_duration = 0, rs_startedAt = Some startedAt, rs_completedAt = None, rs_durationMs = None\<rparr>
      | Some r \<Rightarrow> r\<lparr>rs_startedAt := Some (case rs_startedAt r of Some s \<Rightarrow> s | None \<Rightarrow> startedAt)\<rparr>)"

text \<open>\<open>Math.ceil(durationMs / 1000)\<close>.\<close>

definition ceil_seconds :: "int \<Rightarrow> int" where
  "ceil_seconds ms = - ((- ms) div 1000)"

definition completeReasoningTiming :: "Message \<Rightarrow> int \<Rightarrow> Message" where
  "completeReasoningTiming message completedAt =
     (case msg_reasoning message of
        None \<Rightarrow> message
      | Some r \<Rightarrow>
          if rs_durationMs r \<noteq> None then message
          else
            (let startedAt = (case rs_startedAt r of Some s \<Rightarrow> s
                 | None \<Rightarrow> (case msg_startedAt message of Some s \<Rightarrow> s | None \<Rightarrow> completedAt));
                 durationMs = max 0 (completedAt - startedAt) in
             message\<lparr>msg_reasoning := Some (r\<lparr>rs_startedAt := Some startedAt, rs_completedAt := Some completedAt,
               rs_durationMs := Some durationMs, rs_duration := ceil_seconds durationMs\<rparr>)\<rparr>))"

section \<open>Streaming into a message\<close>

text \<open>The argument is the chunk to append; no chunk and an empty one are the same.\<close>

definition processStreamingContent :: "clock \<Rightarrow> Message \<Rightarrow> string \<Rightarrow> Message" where
  "processStreamingContent clk message contentChunk =
     (let fullContent = ver_content (getCurrentVersion message) @ contentChunk in
      if msg_reasoning message = None \<and> \<not> js_includes THINK_OPEN fullContent
      then (updateCurrentVersionContent message fullContent)\<lparr>msg_isReasoningStreaming := Some False\<rparr>
      else
        (let parsed = parseThinkTags fullContent;
             finalReasoning =
               (if think_reasoning parsed \<noteq> []
                then Some ((startReasoningTiming message (clk 0))\<lparr>rs_content := think_reasoning parsed\<rparr>)
                else msg_reasoning message) in
         (updateCurrentVersionContent message fullContent)\<lparr>msg_reasoning := finalReasoning,
           msg_isReasoningStreaming := Some (hasUnclosedTag parsed)\<rparr>))"

datatype StreamChunkType = ReasoningChunk | ContentChunk

definition getAppendableChunk :: "string \<Rightarrow> string \<Rightarrow> string" where
  "getAppendableChunk currentContent chunk =
     (if currentContent = [] \<or> \<not> prefix currentContent chunk then chunk else drop (length currentContent) chunk)"

definition applyStreamingChunk :: "clock \<Rightarrow> Message \<Rightarrow> StreamChunkType \<Rightarrow> string \<Rightarrow> Message" where
  "applyStreamingChunk clk message typ chunk =
     (if msg_status message = Some MsgError then message
      else
        (case typ of
           ReasoningChunk \<Rightarrow>
             (let reasoning = startReasoningTiming message (clk 0);
                  appendableChunk = getAppendableChunk (rs_content reasoning) chunk in
              message\<lparr>msg_reasoning := Some (reasoning\<lparr>rs_content := rs_content reasoning @ appendableChunk\<rparr>),
                msg_isReasoningStreaming := Some True, msg_status := Some MsgStreaming\<rparr>)
         | ContentChunk \<Rightarrow>
             (let appendableChunk = getAppendableChunk (ver_content (getCurrentVersion message)) chunk;
                  contentMessage = processStreamingContent clk message appendableChunk in
              (if msg_isReasoningStreaming contentMessage = Some True then contentMessage
               else completeReasoningTiming contentMessage (clk 1))\<lparr>msg_status := Some MsgStreaming\<rparr>)))"

definition finalizeMessage :: "clock \<Rightarrow> Message \<Rightarrow> string option \<Rightarrow> Message" where
  "finalizeMessage clk message apiReasoningContent =
     (let content = ver_content (getCurrentVersion message);
          parsed = (if js_includes THINK_OPEN content then Some (parseThinkTags content) else None);
          visible = (case parsed of Some p \<Rightarrow> visibleContent p | None \<Rightarrow> content);
          candidates = [case apiReasoningContent of Some s \<Rightarrow> s | None \<Rightarrow> [],
            case msg_reasoning message of Some r \<Rightarrow> rs_content r | None \<Rightarrow> [],
            case parsed of Some p \<Rightarrow> think_reasoning p | None \<Rightarrow> []];
          finalReasoning = (case find (\<lambda>s. s \<noteq> []) candidates of Some s \<Rightarrow> s | None \<Rightarrow> []) in
      completeReasoningTiming
        ((updateCurrentVersionContent message visible)\<lparr>msg_reasoning :=
            (if finalReasoning \<noteq> []
             then Some ((startReasoningTiming message (clk 0))\<lparr>rs_content := finalReasoning\<rparr>) else None),
          msg_isReasoningStreaming := Some False\<rparr>)
        (clk 1))"

definition completeAssistantMessage :: "clock \<Rightarrow> Message \<Rightarrow> Message" where
  "completeAssistantMessage clk message =
     completeAssistantTiming ((finalizeMessage clk message None)\<lparr>msg_status := Some MsgComplete\<rparr>) (clk 2)"

definition isAssistantMessageFinal :: "Message \<Rightarrow> bool" where
  "isAssistantMessageFinal message \<longleftrightarrow> msg_status message = Some MsgComplete \<or> msg_status message = Some MsgError"

definition isAssistantMessagePending :: "Message \<Rightarrow> bool" where
  "isAssistantMessagePending message \<longleftrightarrow> msg_status message = Some MsgLoading \<or> msg_status message = Some MsgStreaming"

definition isPendingAssistantMessage :: "Message \<Rightarrow> bool" where
  "isPendingAssistantMessage message \<longleftrightarrow> msg_from message = RoleAssistant \<and> isAssistantMessagePending message"

text \<open>A choice of an answer: its content and its reasoning, where present.\<close>

record ChatCompletionChoice =
  choice_content :: "string option"
  choice_reasoning :: "string option"

definition hasChatCompletionChoice :: "ChatCompletionChoice list \<Rightarrow> bool" where
  "hasChatCompletionChoice choices \<longleftrightarrow> choices \<noteq> []"

definition applyChatCompletionChoice :: "clock \<Rightarrow> Message \<Rightarrow> ChatCompletionChoice \<Rightarrow> Message" where
  "applyChatCompletionChoice clk message choice =
     completeAssistantTiming
       ((finalizeMessage clk
          (updateCurrentVersionContent message (case choice_content choice of Some s \<Rightarrow> s | None \<Rightarrow> []))
          (choice_reasoning choice))\<lparr>msg_status := Some MsgComplete\<rparr>)
       (clk 2)"

definition applyChatCompletionResponse :: "clock \<Rightarrow> Message \<Rightarrow> ChatCompletionChoice list \<Rightarrow> Message option" where
  "applyChatCompletionResponse clk message choices =
     (case choices of [] \<Rightarrow> None | choice # _ \<Rightarrow> Some (applyChatCompletionChoice clk message choice))"

section \<open>Lists of messages\<close>

definition updateLastAssistantMessage :: "Message list \<Rightarrow> (Message \<Rightarrow> Message) \<Rightarrow> Message list" where
  "updateLastAssistantMessage messages updater =
     (if length messages = 0 then messages
      else if msg_from (last messages) \<noteq> RoleAssistant then messages
      else messages[length messages - 1 := updater (last messages)])"

definition updateAssistantMessageWithError ::
  "int \<Rightarrow> Message list \<Rightarrow> string \<Rightarrow> string option \<Rightarrow> string \<Rightarrow> Message list" where
  "updateAssistantMessageWithError now messages errorMessage errorCode ttl =
     updateLastAssistantMessage messages (\<lambda>message.
       completeAssistantTiming
         ((updateCurrentVersionContent message (ttl @ '': '' @ errorMessage))\<lparr>msg_status := Some MsgError,
           msg_isReasoningStreaming := Some False,
           msg_errorCode := Some (case errorCode of Some c \<Rightarrow> if c = [] then None else Some c | None \<Rightarrow> None)\<rparr>)
         now)"

text \<open>The loop of \<open>sanitizeMessagesOnLoad\<close> looks from the end for a pending message of the assistant.\<close>

fun lastPending :: "Message list \<Rightarrow> nat \<Rightarrow> nat option" where
  "lastPending messages 0 = None"
| "lastPending messages (Suc i) = (if isPendingAssistantMessage (messages ! i) then Some i else lastPending messages i)"

definition sanitizeMessage :: "(string \<Rightarrow> string) \<Rightarrow> clock \<Rightarrow> Message \<Rightarrow> Message" where
  "sanitizeMessage t clk message =
     (let finalized = finalizeMessage clk message None;
          hasReasoning = (case msg_reasoning finalized of Some r \<Rightarrow> js_trim (rs_content r) \<noteq> [] | None \<Rightarrow> False) in
      if hasMessageContent finalized \<or> hasReasoning
      then completeAssistantTiming
        (finalized\<lparr>msg_status := Some MsgComplete, msg_isReasoningStreaming := Some False\<rparr>) (clk 2)
      else completeAssistantTiming
        ((updateCurrentVersionContent finalized (t ERROR_API_REQUEST @ '': '' @ t ERROR_INTERRUPTED))\<lparr>
          msg_status := Some MsgError, msg_isReasoningStreaming := Some False\<rparr>) (clk 2))"

definition sanitizeMessagesOnLoad :: "(string \<Rightarrow> string) \<Rightarrow> clock \<Rightarrow> Message list \<Rightarrow> Message list" where
  "sanitizeMessagesOnLoad t clk messages =
     (case lastPending messages (length messages) of
        None \<Rightarrow> messages
      | Some i \<Rightarrow> messages[i := sanitizeMessage t clk (messages ! i)])"

section \<open>Conversations\<close>

text \<open>The identifiers drawn for the new messages: key and version of each.\<close>

definition appendUserMessagePair :: "string \<times> string \<Rightarrow> string \<times> string \<Rightarrow> int \<Rightarrow> Message list \<Rightarrow> string \<Rightarrow> Message list" where
  "appendUserMessagePair uid aid submittedAt messages content =
     messages @ [createUserMessage (fst uid) (snd uid) content submittedAt,
       createLoadingAssistantMessage (fst aid) (snd aid) submittedAt]"

fun find_index :: "('a \<Rightarrow> bool) \<Rightarrow> 'a list \<Rightarrow> nat option" where
  "find_index P [] = None"
| "find_index P (x # xs) = (if P x then Some 0 else map_option Suc (find_index P xs))"

definition createRegeneratedMessages :: "string \<times> string \<Rightarrow> int \<Rightarrow> Message list \<Rightarrow> string \<Rightarrow> Message list option" where
  "createRegeneratedMessages aid now messages messageKey =
     (case find_index (\<lambda>m. msg_key m = messageKey) messages of
        None \<Rightarrow> None
      | Some i \<Rightarrow>
          if msg_from (messages ! i) = RoleUser
          then Some (take (i + 1) messages @ [createLoadingAssistantMessage (fst aid) (snd aid) now])
          else Some (take i messages @ [createLoadingAssistantMessage (fst aid) (snd aid) now]))"

definition removeMessageByKey :: "Message list \<Rightarrow> string \<Rightarrow> Message list" where
  "removeMessageByKey messages messageKey = filter (\<lambda>m. msg_key m \<noteq> messageKey) messages"

fun getPreviousUserMessage :: "Message list \<Rightarrow> nat \<Rightarrow> Message option" where
  "getPreviousUserMessage messages 0 = None"
| "getPreviousUserMessage messages (Suc i) =
     (if msg_from (messages ! i) = RoleUser then Some (messages ! i) else getPreviousUserMessage messages i)"

text \<open>The messages after an edit, and whether they are to be sent.\<close>

definition applyMessageEdit ::
  "string \<times> string \<Rightarrow> int \<Rightarrow> Message list \<Rightarrow> string \<Rightarrow> string \<Rightarrow> bool \<Rightarrow> (Message list \<times> bool) option" where
  "applyMessageEdit aid submittedAt messages messageKey content shouldSubmit =
     (case find_index (\<lambda>m. msg_key m = messageKey) messages of
        None \<Rightarrow> None
      | Some i \<Rightarrow>
          (let updatedMessages = map (\<lambda>m.
                 if msg_key m = messageKey
                 then (updateCurrentVersionContent m content)\<lparr>msg_createdAt :=
                   (if shouldSubmit then Some submittedAt else msg_createdAt m)\<rparr>
                 else m) messages in
           if \<not> shouldSubmit \<or> msg_from (updatedMessages ! i) \<noteq> RoleUser then Some (updatedMessages, False)
           else Some (take (i + 1) updatedMessages @
             [createLoadingAssistantMessage (fst aid) (snd aid) submittedAt], True)))"

definition getEditingMessageContent :: "Message list \<Rightarrow> string option \<Rightarrow> string" where
  "getEditingMessageContent messages editingKey =
     (case editingKey of
        None \<Rightarrow> []
      | Some k \<Rightarrow>
          if k = [] then []
          else (case find (\<lambda>m. msg_key m = k) messages of Some m \<Rightarrow> getMessageContent m | None \<Rightarrow> []))"

record ChatMessageRenderState =
  alwaysShowActions :: bool
  render_content :: string
  isEditing :: bool

definition getChatMessageRenderState :: "Message list \<Rightarrow> Message \<Rightarrow> nat \<Rightarrow> string option \<Rightarrow> ChatMessageRenderState" where
  "getChatMessageRenderState messages message messageIndex editingKey =
     \<lparr>alwaysShowActions = (int messageIndex = int (length messages) - 1 \<and> msg_from message = RoleAssistant),
      render_content = getMessageContent message, isEditing = (editingKey = Some (msg_key message))\<rparr>"

section \<open>What is shown\<close>

record MessageContentState =
  displayContent :: string
  hasSources :: bool
  isAssistant :: bool
  showLoader :: bool
  showMessageContent :: bool
  shownSources :: "(string \<times> string) list"
  reasoningContent :: "string option"

definition shouldShowMessageLoader :: "Message \<Rightarrow> bool \<Rightarrow> string \<Rightarrow> bool" where
  "shouldShowMessageLoader message assistant versionContent \<longleftrightarrow>
     assistant \<and> msg_isReasoningStreaming message \<noteq> Some True \<and>
     (msg_status message = Some MsgLoading \<or> msg_status message = Some MsgStreaming \<and> versionContent = [])"

definition shouldShowMessageContent :: "Message \<Rightarrow> string \<Rightarrow> bool" where
  "shouldShowMessageContent message versionContent \<longleftrightarrow>
     (msg_from message = RoleUser \<or> msg_isReasoningStreaming message \<noteq> Some True) \<and> length versionContent > 0"

definition getDisplayContent :: "Message \<Rightarrow> string \<Rightarrow> string" where
  "getDisplayContent message versionContent =
     (if msg_from message \<noteq> RoleAssistant then versionContent
      else if \<not> js_includes THINK_OPEN versionContent then versionContent
      else visibleContent (parseThinkTags versionContent))"

definition getMessageContentState :: "Message \<Rightarrow> string \<Rightarrow> MessageContentState" where
  "getMessageContentState message versionContent =
     (let assistant = (msg_from message = RoleAssistant);
          sources = (case msg_sources message of Some s \<Rightarrow> s | None \<Rightarrow> []);
          rc = (if assistant then map_option rs_content (msg_reasoning message) else None) in
      \<lparr>displayContent = getDisplayContent message versionContent, hasSources = (length sources > 0),
       isAssistant = assistant, showLoader = shouldShowMessageLoader message assistant versionContent,
       showMessageContent = shouldShowMessageContent message versionContent, shownSources = sources,
       reasoningContent = (case rc of Some s \<Rightarrow> if s = [] then None else Some s | None \<Rightarrow> None)\<rparr>)"

datatype MessageErrorKind = GenericError | ModelPriceError

record MessageErrorState =
  error_content :: string
  error_kind :: MessageErrorKind
  showSettingsLink :: bool

definition FALLBACK_ERROR_CONTENT :: string where "FALLBACK_ERROR_CONTENT = ''An unknown error occurred''"
definition MODEL_PRICE_ERROR_CODE :: string where "MODEL_PRICE_ERROR_CODE = ''model_price_error''"

definition isAdminRole :: "int option \<Rightarrow> bool" where
  "isAdminRole role = (case role of None \<Rightarrow> False | Some r \<Rightarrow> r \<ge> 10)"

definition isErrorMessage :: "Message \<Rightarrow> bool" where
  "isErrorMessage message \<longleftrightarrow> msg_status message = Some MsgError"

definition getMessageErrorState :: "Message \<Rightarrow> bool \<Rightarrow> MessageErrorState option" where
  "getMessageErrorState message isAdmin =
     (if \<not> isErrorMessage message then None
      else
        (let content = (if getMessageContent message = [] then FALLBACK_ERROR_CONTENT else getMessageContent message);
             isModelPriceError = (msg_errorCode message = Some (Some MODEL_PRICE_ERROR_CODE)) in
         Some \<lparr>error_content = content, error_kind = (if isModelPriceError then ModelPriceError else GenericError),
           showSettingsLink = (isModelPriceError \<and> isAdmin)\<rparr>))"

record MessageActionState =
  action_content :: string
  action_hasContent :: bool
  action_isAssistant :: bool
  action_isLoading :: bool
  action_isUser :: bool

definition getMessageActionState :: "Message \<Rightarrow> MessageActionState" where
  "getMessageActionState message =
     \<lparr>action_content = getMessageContent message, action_hasContent = hasMessageContent message,
      action_isAssistant = (msg_from message = RoleAssistant),
      action_isLoading = (msg_status message = Some MsgLoading \<or> msg_status message = Some MsgStreaming),
      action_isUser = (msg_from message = RoleUser)\<rparr>"

record MessageEditorState =
  canSave :: bool
  hasChanged :: bool
  showSaveAndSubmit :: bool

definition getMessageEditorState :: "Message \<Rightarrow> string \<Rightarrow> string \<Rightarrow> MessageEditorState" where
  "getMessageEditorState message editText originalText =
     (let hasText = (length (js_trim editText) > 0); changed = (editText \<noteq> originalText) in
      \<lparr>canSave = (hasText \<and> changed), hasChanged = changed, showSaveAndSubmit = (msg_from message = RoleUser)\<rparr>)"

section \<open>The request\<close>

record PlaygroundConfig =
  cfg_model :: string
  cfg_group :: string
  cfg_temperature :: rat
  cfg_top_p :: rat
  cfg_max_tokens :: rat
  cfg_frequency_penalty :: rat
  cfg_presence_penalty :: rat
  cfg_seed :: "rat option"
  cfg_stream :: bool

record ParameterEnabled =
  on_temperature :: bool
  on_top_p :: bool
  on_max_tokens :: bool
  on_frequency_penalty :: bool
  on_presence_penalty :: bool
  on_seed :: bool

record ChatCompletionRequest =
  req_model :: string
  req_group :: string
  req_messages :: "ChatCompletionMessage list"
  req_stream :: bool
  req_temperature :: "rat option"
  req_top_p :: "rat option"
  req_max_tokens :: "rat option"
  req_frequency_penalty :: "rat option"
  req_presence_penalty :: "rat option"
  req_seed :: "rat option"

definition buildChatCompletionPayload ::
  "Message list \<Rightarrow> PlaygroundConfig \<Rightarrow> ParameterEnabled \<Rightarrow> ChatCompletionRequest" where
  "buildChatCompletionPayload messages config parameterEnabled =
     \<lparr>req_model = cfg_model config, req_group = cfg_group config,
      req_messages = map formatMessageForAPI (filter isValidMessage messages), req_stream = cfg_stream config,
      req_temperature = (if on_temperature parameterEnabled then Some (cfg_temperature config) else None),
      req_top_p = (if on_top_p parameterEnabled then Some (cfg_top_p config) else None),
      req_max_tokens = (if on_max_tokens parameterEnabled then Some (cfg_max_tokens config) else None),
      req_frequency_penalty =
        (if on_frequency_penalty parameterEnabled then Some (cfg_frequency_penalty config) else None),
      req_presence_penalty =
        (if on_presence_penalty parameterEnabled then Some (cfg_presence_penalty config) else None),
      req_seed = (if on_seed parameterEnabled then cfg_seed config else None)\<rparr>"

end
