(* ===== verification/Playground_Think.thy ===== *)
theory Playground_Think
  imports Playground_Messages
begin

text \<open>
  What \<open>parseThinkTags\<close> makes of a text: every text is a sequence of visible pieces and closed think
  sections with a tail that may be an open section, and the parser returns the visible text, the
  reasoning and whether a section is open.
\<close>

section \<open>Searching for a tag\<close>

lemma index_first_None: "pat \<noteq> [] \<Longrightarrow> index_first pat s = None \<longleftrightarrow> \<not> js_includes pat s"
  by (induction pat s rule: index_first.induct) auto

text \<open>A tag begins with a character that it does not repeat, so it cannot overlap itself.\<close>

definition tag :: "string \<Rightarrow> bool" where
  "tag pat \<longleftrightarrow> pat \<noteq> [] \<and> hd pat \<notin> set (tl pat)"

lemma tags: "tag THINK_OPEN" "tag THINK_CLOSE" "length THINK_OPEN = 7" "length THINK_CLOSE = 8"
  by (simp_all add: tag_def THINK_OPEN_def THINK_CLOSE_def)

lemma tag_no_overlap:
  assumes "tag pat" and "prefix pat (v @ pat @ s)" and "v \<noteq> []"
  shows "prefix pat v"
proof (rule ccontr)
  assume "\<not> prefix pat v"
  then obtain w where w: "pat = v @ w" "prefix w (pat @ s)"
    using assms(2) unfolding prefix_append by blast
  have w0: "w \<noteq> []" using \<open>\<not> prefix pat v\<close> w(1) by (metis append_Nil2 prefix_order.refl)
  have "hd w = hd (pat @ s)" using w(2) w0 by (auto simp: prefix_def)
  then have "hd w = hd pat" using assms(1) by (simp add: tag_def)
  moreover have "hd w \<in> set (tl pat)" using w(1) w0 assms(3) by (cases v; cases w) auto
  ultimately show False using assms(1) by (simp add: tag_def)
qed

lemma index_first_tag: "tag pat \<Longrightarrow> \<not> js_includes pat v \<Longrightarrow> index_first pat (v @ pat @ s) = Some (length v)"
proof (induction v)
  case Nil
  then show ?case by (cases pat) (auto simp: tag_def)
next
  case (Cons c v)
  have "\<not> prefix pat ((c # v) @ pat @ s)"
    using tag_no_overlap [OF Cons.prems(1), of "c # v" s] Cons.prems(2) by auto
  then show ?case using Cons by simp
qed

lemma index_first_SomeD:
  "index_first pat s = Some i \<Longrightarrow> pat \<noteq> [] \<Longrightarrow>
   s = take i s @ pat @ drop (i + length pat) s \<and> \<not> js_includes pat (take i s)"
proof (induction pat s arbitrary: i rule: index_first.induct)
  case (2 pat c cs)
  show ?case
  proof (cases "prefix pat (c # cs)")
    case True
    then have "i = 0" using 2(2) by simp
    then show ?thesis using True 2(3) by (auto simp: prefix_def)
  next
    case False
    then obtain j where j: "i = Suc j" "index_first pat cs = Some j" using 2(2) by auto
    have IH: "cs = take j cs @ pat @ drop (j + length pat) cs" "\<not> js_includes pat (take j cs)"
      using 2(1) [OF False j(2) 2(3)] by auto
    have "\<not> prefix pat (c # take j cs)"
      using False by (metis append_Cons append_take_drop_id prefix_append prefixI prefix_order.trans)
    then show ?thesis using IH j(1) by simp
  qed
qed (auto split: if_splits)

section \<open>Texts with think sections\<close>

datatype think_tail = ClosedTail string | OpenTail string string

fun render :: "(string \<times> string) list \<Rightarrow> think_tail \<Rightarrow> string" where
  "render [] (ClosedTail v) = v"
| "render [] (OpenTail v r) = v @ THINK_OPEN @ r"
| "render ((v, r) # ps) t = v @ THINK_OPEN @ r @ THINK_CLOSE @ render ps t"

fun cleanTail :: "think_tail \<Rightarrow> bool" where
  "cleanTail (ClosedTail v) = (\<not> js_includes THINK_OPEN v)"
| "cleanTail (OpenTail v r) = (\<not> js_includes THINK_OPEN v \<and> \<not> js_includes THINK_CLOSE r)"

definition clean :: "(string \<times> string) list \<Rightarrow> think_tail \<Rightarrow> bool" where
  "clean ps t \<longleftrightarrow> (\<forall>(v, r) \<in> set ps. \<not> js_includes THINK_OPEN v \<and> \<not> js_includes THINK_CLOSE r) \<and> cleanTail t"

fun tailVisible :: "think_tail \<Rightarrow> string" where
  "tailVisible (ClosedTail v) = v"
| "tailVisible (OpenTail v r) = v"

fun tailReasoning :: "think_tail \<Rightarrow> string list" where
  "tailReasoning (ClosedTail v) = []"
| "tailReasoning (OpenTail v r) = [r]"

definition meaning :: "(string \<times> string) list \<Rightarrow> think_tail \<Rightarrow> ParsedThinkTags" where
  "meaning ps t =
     (if ps = [] \<and> tailReasoning t = []
      then \<lparr>visibleContent = tailVisible t, think_reasoning = [], hasUnclosedTag = False\<rparr>
      else \<lparr>visibleContent = js_trim (concat (map fst ps) @ tailVisible t),
        think_reasoning = js_trim (join_with NEWLINES (map snd ps @ tailReasoning t)),
        hasUnclosedTag = (tailReasoning t \<noteq> [])\<rparr>)"

lemma join_nonempty: "join_with [] (filter (\<lambda>v. v \<noteq> []) vs) = concat vs"
proof -
  have "join_with [] xs = concat xs" for xs :: "string list"
    by (induction "[] :: string" xs rule: join_with.induct) auto
  moreover have "concat (filter (\<lambda>v. v \<noteq> []) vs) = concat vs" by (induction vs) auto
  ultimately show ?thesis by simp
qed

lemma js_index_of_tag:
  "tag pat \<Longrightarrow> \<not> js_includes pat v \<Longrightarrow> js_index_of (pre @ v @ pat @ s) pat (length pre) = Some (length pre + length v)"
  by (simp add: js_index_of_def index_first_tag)

lemma js_index_of_none: "pat \<noteq> [] \<Longrightarrow> \<not> js_includes pat v \<Longrightarrow> js_index_of (pre @ v) pat (length pre) = None"
  by (simp add: js_index_of_def index_first_None)

lemma js_slice_middle: "js_slice (a @ b @ c) (length a) (length a + length b) = b"
  by (simp add: js_slice_def)

lemma thinkLoop_closed:
  assumes "\<not> js_includes THINK_OPEN v" and "\<not> js_includes THINK_CLOSE r"
  shows "thinkLoop (pre @ v @ THINK_OPEN @ r @ THINK_CLOSE @ s) (length pre) vis reas =
    thinkLoop ((pre @ v @ THINK_OPEN @ r @ THINK_CLOSE) @ s) (length (pre @ v @ THINK_OPEN @ r @ THINK_CLOSE))
      (vis @ filter (\<lambda>v. v \<noteq> []) [v]) (reas @ [r])"
proof -
  let ?s = "pre @ v @ THINK_OPEN @ r @ THINK_CLOSE @ s"
  have o: "js_index_of ?s THINK_OPEN (length pre) = Some (length pre + length v)"
    using assms(1) js_index_of_tag [OF tags(1), of v pre "r @ THINK_CLOSE @ s"] by simp
  have c: "js_index_of ?s THINK_CLOSE (length pre + length v + 7) = Some (length pre + length v + 7 + length r)"
    using assms(2) js_index_of_tag [OF tags(2), of r "pre @ v @ THINK_OPEN" s] tags by (simp add: add.assoc)
  have "js_slice ?s (length pre) (length pre + length v) = v"
    by (rule js_slice_middle)
  moreover have "js_slice ?s (length pre + length v + 7) (length pre + length v + 7 + length r) = r"
    using js_slice_middle [of "pre @ v @ THINK_OPEN" r "THINK_CLOSE @ s"] tags by (simp add: add.assoc)
  moreover have "length pre + length v + 7 + length r + 8 = length (pre @ v @ THINK_OPEN @ r @ THINK_CLOSE)"
    using tags by simp
  ultimately show ?thesis
    by (subst thinkLoop.simps) (simp only: o c option.case Let_def append_assoc, simp)
qed

lemma thinkLoop_render:
  "clean ps t \<Longrightarrow>
   thinkLoop (pre @ render ps t) (length pre) vis reas =
     (vis @ filter (\<lambda>v. v \<noteq> []) (map fst ps @ [tailVisible t]), reas @ map snd ps @ tailReasoning t, tailReasoning t \<noteq> [])"
proof (induction ps t arbitrary: pre vis reas rule: render.induct)
  case (1 v)
  then show ?case
    using js_index_of_none [of THINK_OPEN v pre] tags by (subst thinkLoop.simps) (auto simp: clean_def tag_def)
next
  case (2 v r)
  have "js_index_of (pre @ v @ THINK_OPEN @ r) THINK_OPEN (length pre) = Some (length pre + length v)"
    using 2 js_index_of_tag [OF tags(1), of v pre r] by (simp add: clean_def)
  moreover have "js_index_of (pre @ v @ THINK_OPEN @ r) THINK_CLOSE (length pre + length v + 7) = None"
    using 2 js_index_of_none [of THINK_CLOSE r "pre @ v @ THINK_OPEN"] tags by (simp add: clean_def tag_def add.assoc)
  ultimately show ?case by (subst thinkLoop.simps) (auto simp: js_slice_def tags)
next
  case (3 v r ps t)
  have "clean ps t" "\<not> js_includes THINK_OPEN v" "\<not> js_includes THINK_CLOSE r" using 3(2) by (simp_all add: clean_def)
  then show ?case
    using 3(1) [of "pre @ v @ THINK_OPEN @ r @ THINK_CLOSE"] thinkLoop_closed [of v r pre "render ps t" vis reas] by simp
qed

lemma includes_render: "js_includes THINK_OPEN (render ps t) \<longleftrightarrow> \<not> (ps = [] \<and> tailReasoning t = [])" if "clean ps t"
  using that by (cases "(ps, t)" rule: render.cases) (auto simp: clean_def js_includes_sublist sublist_append)

lemma render_exists: "\<exists>ps t. clean ps t \<and> render ps t = content"
proof (induction content rule: length_induct)
  case (1 content)
  show ?case
  proof (cases "index_first THINK_OPEN content")
    case None
    then have "clean [] (ClosedTail content)" using tags by (simp add: clean_def index_first_None tag_def)
    then show ?thesis by (metis render.simps(1))
  next
    case (Some i)
    define v where "v = take i content"
    define s where "s = drop (i + 7) content"
    have c: "content = v @ THINK_OPEN @ s" "\<not> js_includes THINK_OPEN v"
      using index_first_SomeD [OF Some] tags by (auto simp: v_def s_def tag_def)
    show ?thesis
    proof (cases "index_first THINK_CLOSE s")
      case None
      then have "clean [] (OpenTail v s)" using tags c(2) by (simp add: clean_def index_first_None tag_def)
      then show ?thesis using c(1) by (metis render.simps(2))
    next
      case (Some j)
      define r where "r = take j s"
      define s' where "s' = drop (j + 8) s"
      have d: "s = r @ THINK_CLOSE @ s'" "\<not> js_includes THINK_CLOSE r"
        using index_first_SomeD [OF Some] tags by (auto simp: r_def s'_def tag_def)
      obtain ps t where "clean ps t" "render ps t = s'"
        using 1 [rule_format, of s'] c(1) d(1) tags by auto
      then have "clean ((v, r) # ps) t \<and> render ((v, r) # ps) t = content" using c d by (simp add: clean_def)
      then show ?thesis by blast
    qed
  qed
qed

text \<open>
  C8. Every text is a sequence of visible pieces and think sections, the last of them possibly still
  open, and reading it as such gives exactly what the parser returns: the visible pieces joined, the
  sections joined by blank lines, both trimmed, and whether a section is open; a text without a section
  is returned unchanged.
\<close>

theorem think_tags_parsed:
  "(\<exists>ps t. clean ps t \<and> render ps t = content) \<and>
   (\<forall>ps t. clean ps t \<and> render ps t = content \<longrightarrow> parseThinkTags content = meaning ps t)"
proof -
  have "parseThinkTags (render ps t) = meaning ps t" if "clean ps t" for ps t
  proof (cases "ps = [] \<and> tailReasoning t = []")
    case True
    then show ?thesis
      using includes_render [OF that] by (cases t) (auto simp: parseThinkTags_def meaning_def)
  next
    case False
    then show ?thesis
      using includes_render [OF that] thinkLoop_render [OF that, of "[]" "[]" "[]"]
      by (auto simp: parseThinkTags_def meaning_def join_nonempty [of "map fst ps @ [tailVisible t]", simplified])
  qed
  then show ?thesis using render_exists by blast
qed

theorem think_tags_parsed_witness:
  "parseThinkTags ''a<think>b</think> c<think>d'' =
     \<lparr>visibleContent = ''a c'', think_reasoning = ''b'' @ NEWLINES @ ''d'', hasUnclosedTag = True\<rparr>"
proof -
  have "clean [(''a'', ''b'')] (OpenTail '' c'' ''d'') \<and>
      render [(''a'', ''b'')] (OpenTail '' c'' ''d'') = ''a<think>b</think> c<think>d''" by code_simp
  then have "parseThinkTags ''a<think>b</think> c<think>d'' = meaning [(''a'', ''b'')] (OpenTail '' c'' ''d'')"
    using think_tags_parsed [of "''a<think>b</think> c<think>d''"] by blast
  also have "\<dots> = \<lparr>visibleContent = ''a c'', think_reasoning = ''b'' @ NEWLINES @ ''d'', hasUnclosedTag = True\<rparr>" by code_simp
  finally show ?thesis .
qed

end
