(* ===== verification/Playground_Stream.thy ===== *)
theory Playground_Stream
  imports Playground_Think
begin

text \<open>
  The playground while an answer streams in: the parsing of stream events (\<open>stream-utils.ts\<close>,
  \<open>request-error-utils.ts\<close>), the controller that keeps one event source (\<open>use-stream-request.ts\<close>), the
  handler that buffers chunks and updates the messages (\<open>use-chat-handler.ts\<close>) and the conversation
  (\<open>use-playground-conversation.ts\<close>).  One state holds them all; what happens outside (headers, source
  events, timers, answers, clicks, renders) is an event.

  An update of the messages is queued and runs at the next render.  The first update after a render may
  instead run at once, as React may compute it eagerly; the flag \<open>eager\<close> of an event is this choice.
\<close>

section \<open>Stream events\<close>

definition text_or_none :: "jsval \<Rightarrow> string option" where
  "text_or_none v = (case v of JStr s \<Rightarrow> if s = [] then None else Some s | _ \<Rightarrow> None)"

text \<open>The code, where there is one, and the message of an error event.\<close>

definition parseStreamErrorDetails :: "string option \<Rightarrow> string option \<times> string" where
  "parseStreamErrorDetails data =
     (case data of
        None \<Rightarrow> (None, ERROR_API_REQUEST)
      | Some d \<Rightarrow>
          if d = [] then (None, ERROR_API_REQUEST)
          else
            (case json_parse d of
               None \<Rightarrow> (None, d)
             | Some parsed \<Rightarrow>
                 (let err = jprop parsed ''error'' in
                  if \<not> truthy err then (None, d)
                  else (text_or_none (jprop err ''code''),
                    case text_or_none (jprop err ''message'') of Some m \<Rightarrow> m | None \<Rightarrow> d))))"

text \<open>The updates in a chunk, which is typed: its texts are strings.  \<open>None\<close> is an exception.\<close>

definition parseStreamMessageUpdates :: "string \<Rightarrow> (StreamChunkType \<times> string) list option" where
  "parseStreamMessageUpdates data =
     (case json_parse data of
        None \<Rightarrow> None
      | Some JNull \<Rightarrow> None
      | Some chunk \<Rightarrow>
          (let delta = (case jprop chunk ''choices'' of JArr (c # _) \<Rightarrow> jprop c ''delta'' | _ \<Rightarrow> JUndef) in
           Some (if \<not> truthy delta then []
             else (case text_or_none (jprop delta ''reasoning_content'') of Some r \<Rightarrow> [(ReasoningChunk, r)] | None \<Rightarrow> []) @
               (case text_or_none (jprop delta ''content'') of Some c \<Rightarrow> [(ContentChunk, c)] | None \<Rightarrow> []))))"

definition isStreamDoneMessage :: "string \<Rightarrow> bool" where
  "isStreamDoneMessage data \<longleftrightarrow> data = ''[DONE]''"

definition isStreamClosedReadyState :: "int option \<Rightarrow> bool" where
  "isStreamClosedReadyState readyState \<longleftrightarrow> readyState = Some 2"

definition getStreamReadyStateError :: "int option \<Rightarrow> int option \<Rightarrow> string option" where
  "getStreamReadyStateError eventReadyState status =
     (case (eventReadyState, status) of
        (Some r, Some s) \<Rightarrow>
          if r \<ge> 2 \<and> s \<noteq> 200 then Some (''HTTP '' @ int_str s @ '': '' @ ERROR_CONNECTION_CLOSED) else None
      | _ \<Rightarrow> None)"

text \<open>A request error: the code and message of its response and its own message.\<close>

record RequestErrorLike =
  re_code :: "string option"
  re_dataMessage :: "string option"
  re_message :: "string option"

definition nonempty_opt :: "string option \<Rightarrow> string option" where
  "nonempty_opt s = (case s of Some (c # cs) \<Rightarrow> Some (c # cs) | _ \<Rightarrow> None)"

definition parseRequestErrorDetails :: "RequestErrorLike \<Rightarrow> string option \<times> string" where
  "parseRequestErrorDetails err =
     (nonempty_opt (re_code err),
      case nonempty_opt (re_dataMessage err) of
        Some m \<Rightarrow> m
      | None \<Rightarrow> (case nonempty_opt (re_message err) of Some m \<Rightarrow> m | None \<Rightarrow> ERROR_API_REQUEST))"

section \<open>The state\<close>

text \<open>The requests under way, by generation, are those whose answer is awaited.  A call of \<open>send\<close> is named by its \<open>requestGeneration\<close>, which
  also names the source it creates; its callbacks carry the generation of the chat handler.\<close>

datatype call_stage = AwaitHeaders | Live | Completed | Abandoned

record send_call =
  call_chat :: nat
  call_stage :: call_stage

record PendingStreamChunks =
  pend_generation :: nat
  pend_content :: string
  pend_reasoning :: string

datatype MessageUpdate =
    FlushUpdate nat string string
  | CompleteUpdate nat
  | ErrorUpdate nat string "string option" string
  | ResponseUpdate nat "ChatCompletionChoice list"
  | StopUpdate nat
  | SetMessages "Message list"
  | RemoveMessage string

record ChatState =
  ctl_source :: "nat option"
  ctl_generation :: nat
  st_isStreaming :: bool
  ctl_calls :: "nat \<Rightarrow> send_call option"
  requestGeneration :: nat
  pendingChunks :: PendingStreamChunks
  flushTimer :: "nat option"
  st_isRequesting :: bool
  abortController :: "nat option"
  openRequests :: "nat list"
  abortedRequests :: "nat list"
  st_messages :: "Message list"
  st_updates :: "MessageUpdate list"
  st_dirty :: bool
  st_rendered :: "Message list"
  editingMessageKey :: "string option"

text \<open>The updaters passed to \<open>onMessageUpdate\<close>, run when the generation of the handler is \<open>gen\<close>.\<close>

fun runUpdate :: "clock \<Rightarrow> nat \<Rightarrow> MessageUpdate \<Rightarrow> Message list \<Rightarrow> Message list" where
  "runUpdate clk gen (FlushUpdate generation reasoning content) prev =
     (if generation \<noteq> gen then prev
      else updateLastAssistantMessage prev (\<lambda>message.
        (let m1 = (if reasoning \<noteq> [] then applyStreamingChunk clk message ReasoningChunk reasoning else message) in
         if content \<noteq> [] then applyStreamingChunk (\<lambda>n. clk (n + 1)) m1 ContentChunk content else m1)))"
| "runUpdate clk gen (CompleteUpdate generation) prev =
     (if generation \<noteq> gen then prev
      else updateLastAssistantMessage prev (\<lambda>message.
        if isAssistantMessageFinal message then message else completeAssistantMessage clk message))"
| "runUpdate clk gen (ErrorUpdate generation displayError errorCode errorTitle) prev =
     (if generation \<noteq> gen then prev
      else updateAssistantMessageWithError (clk 0) prev displayError errorCode errorTitle)"
| "runUpdate clk gen (ResponseUpdate generation choices) prev =
     (if generation \<noteq> gen then prev
      else updateLastAssistantMessage prev (\<lambda>message.
        (case applyChatCompletionResponse clk message choices of Some m \<Rightarrow> m | None \<Rightarrow> message)))"
| "runUpdate clk gen (StopUpdate idleGeneration) prev =
     (if idleGeneration \<noteq> gen then prev
      else updateLastAssistantMessage prev (\<lambda>message.
        if isAssistantMessagePending message then completeAssistantMessage clk message else message))"
| "runUpdate clk gen (SetMessages messages) prev = messages"
| "runUpdate clk gen (RemoveMessage key) prev = removeMessageByKey prev key"

definition onMessageUpdate :: "bool \<Rightarrow> clock \<Rightarrow> MessageUpdate \<Rightarrow> ChatState \<Rightarrow> ChatState" where
  "onMessageUpdate eager clk u st =
     (if eager \<and> \<not> st_dirty st
      then st\<lparr>st_messages := runUpdate clk (requestGeneration st) u (st_messages st), st_dirty := True\<rparr>
      else st\<lparr>st_updates := st_updates st @ [u], st_dirty := True\<rparr>)"

text \<open>A render runs the queued updates; the \<open>i\<close>-th of them reads the clock \<open>clks i\<close>.\<close>

fun runUpdates :: "(nat \<Rightarrow> clock) \<Rightarrow> nat \<Rightarrow> MessageUpdate list \<Rightarrow> Message list \<Rightarrow> Message list" where
  "runUpdates clks gen [] prev = prev"
| "runUpdates clks gen (u # us) prev = runUpdates (\<lambda>i. clks (i + 1)) gen us (runUpdate (clks 0) gen u prev)"

definition renderMessages :: "(nat \<Rightarrow> clock) \<Rightarrow> ChatState \<Rightarrow> ChatState" where
  "renderMessages clks st =
     (let ms = runUpdates clks (requestGeneration st) (st_updates st) (st_messages st) in
      st\<lparr>st_messages := ms, st_updates := [], st_dirty := False, st_rendered := ms\<rparr>)"

section \<open>The chat handler\<close>

definition mergePendingStreamChunk :: "string \<Rightarrow> string \<Rightarrow> string" where
  "mergePendingStreamChunk currentChunk nextChunk =
     (if currentChunk = [] \<or> \<not> prefix currentChunk nextChunk then currentChunk @ nextChunk else nextChunk)"

definition discardPendingStreamUpdates :: "nat \<Rightarrow> ChatState \<Rightarrow> ChatState" where
  "discardPendingStreamUpdates generation st =
     st\<lparr>flushTimer := None, pendingChunks := \<lparr>pend_generation = generation, pend_content = [], pend_reasoning = []\<rparr>\<rparr>"

definition flushStreamUpdates :: "bool \<Rightarrow> clock \<Rightarrow> nat \<Rightarrow> ChatState \<Rightarrow> ChatState" where
  "flushStreamUpdates eager clk generation st =
     (if generation \<noteq> requestGeneration st then st
      else
        (let st1 = st\<lparr>flushTimer := None\<rparr>; p = pendingChunks st in
         if pend_generation p \<noteq> generation then st1
         else if pend_reasoning p = [] \<and> pend_content p = [] then st1
         else onMessageUpdate eager clk (FlushUpdate generation (pend_reasoning p) (pend_content p))
           (st1\<lparr>pendingChunks := \<lparr>pend_generation = generation, pend_content = [], pend_reasoning = []\<rparr>\<rparr>)))"

definition scheduleStreamFlush :: "nat \<Rightarrow> ChatState \<Rightarrow> ChatState" where
  "scheduleStreamFlush generation st =
     (if generation \<noteq> requestGeneration st then st
      else if flushTimer st \<noteq> None then st
      else st\<lparr>flushTimer := Some generation\<rparr>)"

definition KNOWN_ERROR_MESSAGES :: "string list" where
  "KNOWN_ERROR_MESSAGES =
     [ERROR_API_REQUEST, ERROR_NETWORK, ERROR_PARSE, ERROR_STREAM_START, ERROR_CONNECTION_CLOSED, ERROR_INTERRUPTED]"

definition getDisplayError :: "(string \<Rightarrow> string) \<Rightarrow> string \<Rightarrow> string" where
  "getDisplayError t err =
     (if err \<in> set KNOWN_ERROR_MESSAGES then t err
      else if suffix ('': '' @ ERROR_CONNECTION_CLOSED) err
      then take (length err - length ERROR_CONNECTION_CLOSED) err @ t ERROR_CONNECTION_CLOSED
      else err)"

definition handleStreamUpdate :: "nat \<Rightarrow> ChatState \<Rightarrow> StreamChunkType \<times> string \<Rightarrow> ChatState" where
  "handleStreamUpdate generation st upd =
     (if generation \<noteq> requestGeneration st then st
      else if pend_generation (pendingChunks st) \<noteq> generation then st
      else
        (let p = pendingChunks st;
             p' = (case fst upd of
               ReasoningChunk \<Rightarrow> p\<lparr>pend_reasoning := mergePendingStreamChunk (pend_reasoning p) (snd upd)\<rparr>
             | ContentChunk \<Rightarrow> p\<lparr>pend_content := mergePendingStreamChunk (pend_content p) (snd upd)\<rparr>) in
         scheduleStreamFlush generation (st\<lparr>pendingChunks := p'\<rparr>)))"

definition handleStreamComplete :: "bool \<Rightarrow> clock \<Rightarrow> nat \<Rightarrow> ChatState \<Rightarrow> ChatState" where
  "handleStreamComplete eager clk generation st =
     (if generation \<noteq> requestGeneration st then st
      else onMessageUpdate eager clk (CompleteUpdate generation)
        ((flushStreamUpdates eager clk generation st)\<lparr>st_isRequesting := False\<rparr>))"

definition handleStreamError ::
  "(string \<Rightarrow> string) \<Rightarrow> bool \<Rightarrow> clock \<Rightarrow> nat \<Rightarrow> string \<Rightarrow> string option \<Rightarrow> ChatState \<Rightarrow> ChatState" where
  "handleStreamError t eager clk generation err errorCode st =
     (if generation \<noteq> requestGeneration st then st
      else onMessageUpdate eager clk (ErrorUpdate generation (getDisplayError t err) errorCode (t ERROR_API_REQUEST))
        ((flushStreamUpdates eager clk generation st)\<lparr>st_isRequesting := False\<rparr>))"

section \<open>The stream controller\<close>

definition set_stage :: "nat \<Rightarrow> call_stage \<Rightarrow> ChatState \<Rightarrow> ChatState" where
  "set_stage c stage st =
     (case ctl_calls st c of
        None \<Rightarrow> st
      | Some k \<Rightarrow> st\<lparr>ctl_calls := (ctl_calls st)(c \<mapsto> k\<lparr>call_stage := stage\<rparr>)\<rparr>)"

definition closeActiveSource :: "nat \<Rightarrow> ChatState \<Rightarrow> ChatState" where
  "closeActiveSource target st =
     (if ctl_source st = Some target then st\<lparr>ctl_source := None, st_isStreaming := False\<rparr> else st)"

text \<open>\<open>send\<close> up to its first \<open>await\<close>.\<close>

definition sendStreamRequest :: "nat \<Rightarrow> ChatState \<Rightarrow> ChatState" where
  "sendStreamRequest chatGeneration st =
     (let c = ctl_generation st + 1 in
      st\<lparr>ctl_generation := c, ctl_source := None, st_isStreaming := False,
        ctl_calls := (ctl_calls st)(c \<mapsto> \<lparr>call_chat = chatGeneration, call_stage = AwaitHeaders\<rparr>)\<rparr>)"

definition isCurrent :: "nat \<Rightarrow> ChatState \<Rightarrow> bool" where
  "isCurrent c st \<longleftrightarrow> ctl_generation st = c \<and> ctl_source st = Some c"

text \<open>Whether the listeners of a source act: it is current and its call has not completed.\<close>

definition listening :: "nat \<Rightarrow> ChatState \<Rightarrow> nat option" where
  "listening c st =
     (case ctl_calls st c of
        Some k \<Rightarrow> if isCurrent c st \<and> call_stage k = Live then Some (call_chat k) else None
      | None \<Rightarrow> None)"

definition handleCallError ::
  "(string \<Rightarrow> string) \<Rightarrow> bool \<Rightarrow> clock \<Rightarrow> nat \<Rightarrow> string \<Rightarrow> string option \<Rightarrow> ChatState \<Rightarrow> ChatState" where
  "handleCallError t eager clk c errorMessage errorCode st =
     (case listening c st of
        None \<Rightarrow> st
      | Some chat \<Rightarrow>
          closeActiveSource c (handleStreamError t eager clk chat errorMessage errorCode (set_stage c Completed st)))"

text \<open>The rest of \<open>send\<close> once the headers are there; \<open>throws\<close> says that \<open>stream()\<close> throws.\<close>

definition headersReady :: "(string \<Rightarrow> string) \<Rightarrow> bool \<Rightarrow> clock \<Rightarrow> nat \<Rightarrow> bool \<Rightarrow> ChatState \<Rightarrow> ChatState" where
  "headersReady t eager clk c throws st =
     (case ctl_calls st c of
        None \<Rightarrow> st
      | Some k \<Rightarrow>
          if call_stage k \<noteq> AwaitHeaders then st
          else if ctl_generation st \<noteq> c then set_stage c Abandoned st
          else
            (let st1 = (set_stage c Live st)\<lparr>ctl_source := Some c, st_isStreaming := True\<rparr> in
             if throws then handleCallError t eager clk c ERROR_STREAM_START None st1 else st1))"

definition headersFailed :: "(string \<Rightarrow> string) \<Rightarrow> bool \<Rightarrow> clock \<Rightarrow> nat \<Rightarrow> string option \<Rightarrow> ChatState \<Rightarrow> ChatState" where
  "headersFailed t eager clk c errorText st =
     (case ctl_calls st c of
        None \<Rightarrow> st
      | Some k \<Rightarrow>
          if call_stage k \<noteq> AwaitHeaders then st
          else if ctl_generation st \<noteq> c then set_stage c Abandoned st
          else handleStreamError t eager clk (call_chat k)
            (case errorText of Some m \<Rightarrow> m | None \<Rightarrow> ERROR_STREAM_START) None (set_stage c Abandoned st))"

definition sourceMessage :: "(string \<Rightarrow> string) \<Rightarrow> bool \<Rightarrow> clock \<Rightarrow> nat \<Rightarrow> string \<Rightarrow> ChatState \<Rightarrow> ChatState" where
  "sourceMessage t eager clk c data st =
     (case listening c st of
        None \<Rightarrow> st
      | Some chat \<Rightarrow>
          if isStreamDoneMessage data
          then handleStreamComplete eager clk chat (closeActiveSource c (set_stage c Completed st))
          else
            (case parseStreamMessageUpdates data of
               None \<Rightarrow> handleCallError t eager clk c ERROR_PARSE None st
             | Some updates \<Rightarrow> foldl (handleStreamUpdate chat) st updates))"

definition sourceError ::
  "(string \<Rightarrow> string) \<Rightarrow> bool \<Rightarrow> clock \<Rightarrow> nat \<Rightarrow> int option \<Rightarrow> string option \<Rightarrow> ChatState \<Rightarrow> ChatState" where
  "sourceError t eager clk c readyState data st =
     (case listening c st of
        None \<Rightarrow> st
      | Some chat \<Rightarrow>
          if \<not> isStreamClosedReadyState readyState
          then (case parseStreamErrorDetails data of
            (errorCode, errorMessage) \<Rightarrow> handleCallError t eager clk c errorMessage errorCode st)
          else st)"

definition sourceReadyState ::
  "(string \<Rightarrow> string) \<Rightarrow> bool \<Rightarrow> clock \<Rightarrow> nat \<Rightarrow> int option \<Rightarrow> int option \<Rightarrow> ChatState \<Rightarrow> ChatState" where
  "sourceReadyState t eager clk c eventReadyState status st =
     (case listening c st of
        None \<Rightarrow> st
      | Some chat \<Rightarrow>
          (case getStreamReadyStateError eventReadyState status of
             None \<Rightarrow> st
           | Some errorMessage \<Rightarrow> handleCallError t eager clk c errorMessage None st))"

definition cancelStream :: "bool \<Rightarrow> ChatState \<Rightarrow> ChatState" where
  "cancelStream notify st =
     (let st1 = st\<lparr>ctl_generation := ctl_generation st + 1, ctl_source := None\<rparr> in
      if notify then st1\<lparr>st_isStreaming := False\<rparr> else st1)"

section \<open>Sending and stopping\<close>

definition abortActive :: "ChatState \<Rightarrow> ChatState" where
  "abortActive st =
     st\<lparr>abortedRequests := (case abortController st of Some g \<Rightarrow> g # abortedRequests st | None \<Rightarrow> abortedRequests st),
       abortController := None\<rparr>"

definition sendStreamingChat :: "ChatState \<Rightarrow> ChatState" where
  "sendStreamingChat st =
     (let generation = requestGeneration st + 1;
          st1 = abortActive (st\<lparr>requestGeneration := generation\<rparr>);
          st2 = (discardPendingStreamUpdates generation st1)\<lparr>st_isRequesting := True\<rparr> in
      sendStreamRequest generation st2)"

text \<open>\<open>sendNonStreamingChat\<close> up to its \<open>await\<close>, and what follows an answer or a failure.\<close>

definition sendNonStreamingChat :: "ChatState \<Rightarrow> ChatState" where
  "sendNonStreamingChat st =
     (let generation = requestGeneration st + 1;
          st1 = cancelStream True (st\<lparr>requestGeneration := generation\<rparr>);
          st2 = abortActive (discardPendingStreamUpdates generation st1) in
      st2\<lparr>abortController := Some generation, st_isRequesting := True, openRequests := generation # openRequests st2\<rparr>)"

definition settleRequest :: "nat \<Rightarrow> ChatState \<Rightarrow> ChatState" where
  "settleRequest generation st =
     (let st1 = st\<lparr>openRequests := removeAll generation (openRequests st)\<rparr> in
      if requestGeneration st = generation then st1\<lparr>abortController := None, st_isRequesting := False\<rparr> else st1)"

definition responseArrived ::
  "(string \<Rightarrow> string) \<Rightarrow> bool \<Rightarrow> clock \<Rightarrow> nat \<Rightarrow> ChatCompletionChoice list \<Rightarrow> ChatState \<Rightarrow> ChatState" where
  "responseArrived t eager clk generation choices st =
     (if generation \<notin> set (openRequests st) then st
      else settleRequest generation
       (if generation \<in> set (abortedRequests st) \<or> requestGeneration st \<noteq> generation then st
        else if \<not> hasChatCompletionChoice choices then handleStreamError t eager clk generation ERROR_API_REQUEST None st
        else onMessageUpdate eager clk (ResponseUpdate generation choices) st))"

definition requestFailed ::
  "(string \<Rightarrow> string) \<Rightarrow> bool \<Rightarrow> clock \<Rightarrow> nat \<Rightarrow> RequestErrorLike \<Rightarrow> ChatState \<Rightarrow> ChatState" where
  "requestFailed t eager clk generation err st =
     (if generation \<notin> set (openRequests st) then st
      else settleRequest generation
       (if generation \<in> set (abortedRequests st) \<or> requestGeneration st \<noteq> generation then st
        else (case parseRequestErrorDetails err of
          (errorCode, errorMessage) \<Rightarrow> handleStreamError t eager clk generation errorMessage errorCode st)))"

definition sendChat :: "bool \<Rightarrow> ChatState \<Rightarrow> ChatState" where
  "sendChat stream st = (if stream then sendStreamingChat st else sendNonStreamingChat st)"

definition stopGeneration :: "bool \<Rightarrow> clock \<Rightarrow> ChatState \<Rightarrow> ChatState" where
  "stopGeneration eager clk st =
     (let stoppedGeneration = requestGeneration st;
          st1 = flushStreamUpdates eager clk stoppedGeneration st;
          idleGeneration = stoppedGeneration + 1;
          st2 = discardPendingStreamUpdates idleGeneration (st1\<lparr>requestGeneration := idleGeneration\<rparr>);
          st3 = abortActive (cancelStream True st2) in
      onMessageUpdate eager clk (StopUpdate idleGeneration) (st3\<lparr>st_isRequesting := False\<rparr>))"

text \<open>The cleanups of both hooks when the page goes away.\<close>

definition unmount :: "ChatState \<Rightarrow> ChatState" where
  "unmount st =
     cancelStream False (abortActive (st\<lparr>requestGeneration := requestGeneration st + 1, flushTimer := None\<rparr>))"

definition isGenerating :: "ChatState \<Rightarrow> bool" where
  "isGenerating st \<longleftrightarrow> st_isStreaming st \<or> st_isRequesting st"

section \<open>The conversation\<close>

definition handleSendMessage ::
  "bool \<Rightarrow> bool \<Rightarrow> clock \<Rightarrow> string \<times> string \<Rightarrow> string \<times> string \<Rightarrow> string \<Rightarrow> ChatState \<Rightarrow> ChatState" where
  "handleSendMessage stream eager clk uid aid content st =
     (let nextMessages = appendUserMessagePair uid aid (clk 0) (st_rendered st) content in
      sendChat stream (onMessageUpdate eager clk (SetMessages nextMessages) st))"

definition handleRegenerateMessage :: "bool \<Rightarrow> bool \<Rightarrow> clock \<Rightarrow> string \<times> string \<Rightarrow> string \<Rightarrow> ChatState \<Rightarrow> ChatState" where
  "handleRegenerateMessage stream eager clk aid key st =
     (case createRegeneratedMessages aid (clk 0) (st_rendered st) key of
        None \<Rightarrow> st
      | Some nextMessages \<Rightarrow> sendChat stream (onMessageUpdate eager clk (SetMessages nextMessages) st))"

definition handleEditMessage :: "string \<Rightarrow> ChatState \<Rightarrow> ChatState" where
  "handleEditMessage key st = st\<lparr>editingMessageKey := Some key\<rparr>"

definition handleEditOpenChange :: "bool \<Rightarrow> ChatState \<Rightarrow> ChatState" where
  "handleEditOpenChange opn st = (if \<not> opn then st\<lparr>editingMessageKey := None\<rparr> else st)"

definition applyEdit ::
  "bool \<Rightarrow> bool \<Rightarrow> clock \<Rightarrow> string \<times> string \<Rightarrow> string \<Rightarrow> bool \<Rightarrow> ChatState \<Rightarrow> ChatState" where
  "applyEdit stream eager clk aid newContent shouldSubmit st =
     (case nonempty_opt (editingMessageKey st) of
        None \<Rightarrow> st
      | Some key \<Rightarrow>
          (case applyMessageEdit aid (clk 0) (st_rendered st) key newContent shouldSubmit of
             None \<Rightarrow> st
           | Some (ms, shouldSend) \<Rightarrow>
               (let st1 = onMessageUpdate eager clk (SetMessages ms) (st\<lparr>editingMessageKey := None\<rparr>) in
                if shouldSend then sendChat stream st1 else st1)))"

definition handleDeleteMessage :: "bool \<Rightarrow> clock \<Rightarrow> string \<Rightarrow> ChatState \<Rightarrow> ChatState" where
  "handleDeleteMessage eager clk key st = onMessageUpdate eager clk (RemoveMessage key) st"

section \<open>Events\<close>

text \<open>The timer that flushes the chunks.\<close>

definition flushTimerFired :: "bool \<Rightarrow> clock \<Rightarrow> ChatState \<Rightarrow> ChatState" where
  "flushTimerFired eager clk st =
     (case flushTimer st of None \<Rightarrow> st | Some generation \<Rightarrow> flushStreamUpdates eager clk generation st)"

datatype ChatEvent =
    EvSend "string \<times> string" "string \<times> string" string
  | EvRegenerate "string \<times> string" string
  | EvEdit string
  | EvEditOpen bool
  | EvApplyEdit "string \<times> string" string bool
  | EvDelete string
  | EvStop
  | EvUnmount
  | EvHeaders nat bool
  | EvHeadersFailed nat "string option"
  | EvMessage nat string
  | EvSourceError nat "int option" "string option"
  | EvReadyState nat "int option" "int option"
  | EvTimer
  | EvResponse nat "ChatCompletionChoice list"
  | EvRequestFailed nat RequestErrorLike
  | EvRender "nat \<Rightarrow> clock"

fun chatStep :: "(string \<Rightarrow> string) \<Rightarrow> bool \<Rightarrow> bool \<times> clock \<times> ChatEvent \<Rightarrow> ChatState \<Rightarrow> ChatState" where
  "chatStep t stream (eager, clk, EvSend uid aid content) = handleSendMessage stream eager clk uid aid content"
| "chatStep t stream (eager, clk, EvRegenerate aid key) = handleRegenerateMessage stream eager clk aid key"
| "chatStep t stream (eager, clk, EvEdit key) = handleEditMessage key"
| "chatStep t stream (eager, clk, EvEditOpen opn) = handleEditOpenChange opn"
| "chatStep t stream (eager, clk, EvApplyEdit aid content submit) = applyEdit stream eager clk aid content submit"
| "chatStep t stream (eager, clk, EvDelete key) = handleDeleteMessage eager clk key"
| "chatStep t stream (eager, clk, EvStop) = stopGeneration eager clk"
| "chatStep t stream (eager, clk, EvUnmount) = unmount"
| "chatStep t stream (eager, clk, EvHeaders c throws) = headersReady t eager clk c throws"
| "chatStep t stream (eager, clk, EvHeadersFailed c err) = headersFailed t eager clk c err"
| "chatStep t stream (eager, clk, EvMessage c data) = sourceMessage t eager clk c data"
| "chatStep t stream (eager, clk, EvSourceError c readyState data) = sourceError t eager clk c readyState data"
| "chatStep t stream (eager, clk, EvReadyState c eventReadyState status) = sourceReadyState t eager clk c eventReadyState status"
| "chatStep t stream (eager, clk, EvTimer) = flushTimerFired eager clk"
| "chatStep t stream (eager, clk, EvResponse generation choices) = responseArrived t eager clk generation choices"
| "chatStep t stream (eager, clk, EvRequestFailed generation err) = requestFailed t eager clk generation err"
| "chatStep t stream (eager, clk, EvRender clks) = renderMessages clks"

text \<open>The page with the messages loaded from storage.\<close>

definition initialChat :: "Message list \<Rightarrow> ChatState" where
  "initialChat ms =
     \<lparr>ctl_source = None, ctl_generation = 0, st_isStreaming = False, ctl_calls = (\<lambda>_. None), requestGeneration = 0,
      pendingChunks = \<lparr>pend_generation = 0, pend_content = [], pend_reasoning = []\<rparr>, flushTimer = None,
      st_isRequesting = False, abortController = None, openRequests = [], abortedRequests = [], st_messages = ms,
      st_updates = [], st_dirty = False, st_rendered = ms, editingMessageKey = None\<rparr>"

inductive reachableChat :: "(string \<Rightarrow> string) \<Rightarrow> ChatState \<Rightarrow> bool" for t where
  loaded: "reachableChat t (initialChat ms)"
| stepped: "reachableChat t st \<Longrightarrow> reachableChat t (chatStep t stream ev st)"

end
