(* ===== verification/Playground_Laws.thy ===== *)
theory Playground_Laws
  imports Playground_Stream
begin

text \<open>
  What holds of the playground in every order of events: a superseded request changes nothing, stopping
  is final, and the text of an answer does not depend on when chunks are flushed and rendered.
\<close>

section \<open>The invariant of the page\<close>

text \<open>Calls and requests belong to generations already used, the current call to the current
  generation; only the current call has a source, and the timer is the current generation's.\<close>

definition chatInv :: "ChatState \<Rightarrow> bool" where
  "chatInv st \<longleftrightarrow>
     (\<forall>c k. ctl_calls st c = Some k \<longrightarrow> c \<le> ctl_generation st \<and> call_chat k \<le> requestGeneration st) \<and>
     (\<forall>k. ctl_calls st (ctl_generation st) = Some k \<longrightarrow> call_chat k = requestGeneration st) \<and>
     (\<forall>c. ctl_source st = Some c \<longrightarrow> c = ctl_generation st) \<and>
     (\<forall>g. flushTimer st = Some g \<longrightarrow> g = requestGeneration st) \<and>
     (\<forall>g \<in> set (openRequests st). g \<le> requestGeneration st) \<and>
     (st_updates st \<noteq> [] \<longrightarrow> st_dirty st)"

lemma update_fields [simp]:
  "ctl_calls (onMessageUpdate e clk u st) = ctl_calls st"
  "ctl_generation (onMessageUpdate e clk u st) = ctl_generation st"
  "ctl_source (onMessageUpdate e clk u st) = ctl_source st"
  "requestGeneration (onMessageUpdate e clk u st) = requestGeneration st"
  "flushTimer (onMessageUpdate e clk u st) = flushTimer st"
  "openRequests (onMessageUpdate e clk u st) = openRequests st"
  "pendingChunks (onMessageUpdate e clk u st) = pendingChunks st"
  "st_isStreaming (onMessageUpdate e clk u st) = st_isStreaming st"
  "st_isRequesting (onMessageUpdate e clk u st) = st_isRequesting st"
  "abortController (onMessageUpdate e clk u st) = abortController st"
  "st_dirty (onMessageUpdate e clk u st)"
  by (simp_all add: onMessageUpdate_def)

lemma inv_update: "chatInv st \<Longrightarrow> chatInv (onMessageUpdate e clk u st)"
  by (simp add: chatInv_def)

lemma flush_fields [simp]:
  "ctl_calls (flushStreamUpdates e clk g st) = ctl_calls st"
  "ctl_generation (flushStreamUpdates e clk g st) = ctl_generation st"
  "ctl_source (flushStreamUpdates e clk g st) = ctl_source st"
  "requestGeneration (flushStreamUpdates e clk g st) = requestGeneration st"
  "openRequests (flushStreamUpdates e clk g st) = openRequests st"
  by (simp_all add: flushStreamUpdates_def Let_def)

lemma inv_flush: "chatInv st \<Longrightarrow> chatInv (flushStreamUpdates e clk g st)"
  by (auto simp: flushStreamUpdates_def Let_def intro!: inv_update) (simp_all add: chatInv_def)

lemma inv_stage: "chatInv st \<Longrightarrow> chatInv (set_stage c s st)"
  by (auto simp: set_stage_def chatInv_def split: option.split)

lemma inv_close: "chatInv st \<Longrightarrow> chatInv (closeActiveSource c st)"
  by (auto simp: closeActiveSource_def chatInv_def)

lemma inv_idle: "chatInv st \<Longrightarrow> chatInv (st\<lparr>st_isRequesting := b\<rparr>)"
  by (simp add: chatInv_def)

lemma inv_complete: "chatInv st \<Longrightarrow> chatInv (handleStreamComplete e clk g st)"
  by (simp add: handleStreamComplete_def inv_update inv_idle inv_flush)

lemma inv_error: "chatInv st \<Longrightarrow> chatInv (handleStreamError t e clk g m code st)"
  by (simp add: handleStreamError_def inv_update inv_idle inv_flush)

lemma inv_call_error: "chatInv st \<Longrightarrow> chatInv (handleCallError t e clk c m code st)"
  by (simp add: handleCallError_def inv_close inv_error inv_stage split: option.split)

lemma inv_chunk: "chatInv st \<Longrightarrow> chatInv (handleStreamUpdate g st u)"
  by (auto simp: handleStreamUpdate_def scheduleStreamFlush_def Let_def chatInv_def)

lemma inv_chunks: "chatInv st \<Longrightarrow> chatInv (foldl (handleStreamUpdate g) st us)"
  by (induction us arbitrary: st) (auto simp: inv_chunk)

lemma inv_headers: "chatInv st \<Longrightarrow> chatInv (headersReady t e clk c throws st)"
proof -
  assume st: "chatInv st"
  have "chatInv ((set_stage c Live st)\<lparr>ctl_source := Some c, st_isStreaming := True\<rparr>)" if "ctl_generation st = c"
    using st that by (auto simp: chatInv_def set_stage_def split: option.split)
  then show ?thesis
    using st by (auto simp: headersReady_def Let_def inv_stage inv_call_error split: option.split)
qed

lemma inv_headers_failed: "chatInv st \<Longrightarrow> chatInv (headersFailed t e clk c m st)"
  by (simp add: headersFailed_def inv_stage inv_error split: option.split)

lemma inv_message: "chatInv st \<Longrightarrow> chatInv (sourceMessage t e clk c data st)"
  by (simp add: sourceMessage_def inv_complete inv_close inv_stage inv_call_error inv_chunks split: option.split)

lemma inv_source_error: "chatInv st \<Longrightarrow> chatInv (sourceError t e clk c r d st)"
  by (auto simp: sourceError_def inv_call_error split: option.split prod.split)

lemma inv_ready_state: "chatInv st \<Longrightarrow> chatInv (sourceReadyState t e clk c r s st)"
  by (simp add: sourceReadyState_def inv_call_error split: option.split)

lemma inv_settle: "chatInv st \<Longrightarrow> chatInv (settleRequest g st)"
  by (auto simp: settleRequest_def Let_def chatInv_def)

lemma inv_response:
  "chatInv st \<Longrightarrow> chatInv (responseArrived t e clk g choices st)"
  "chatInv st \<Longrightarrow> chatInv (requestFailed t e clk g err st)"
  by (auto simp: responseArrived_def requestFailed_def inv_settle inv_error inv_update split: prod.split)

text \<open>A new generation always comes with a new generation of the controller.\<close>

lemma inv_send: "chatInv st \<Longrightarrow> chatInv (sendChat stream st)"
  by (fastforce simp: sendChat_def sendStreamingChat_def sendNonStreamingChat_def sendStreamRequest_def
      discardPendingStreamUpdates_def abortActive_def cancelStream_def Let_def chatInv_def)

lemma inv_stop: "chatInv st \<Longrightarrow> chatInv (stopGeneration e clk st)"
proof -
  assume "chatInv st"
  then have "chatInv (flushStreamUpdates e clk (requestGeneration st) st)" by (rule inv_flush)
  then show ?thesis
    unfolding stopGeneration_def Let_def
    by (intro inv_update) (fastforce simp: discardPendingStreamUpdates_def abortActive_def cancelStream_def Let_def chatInv_def)
qed

lemma inv_unmount: "chatInv st \<Longrightarrow> chatInv (unmount st)"
  by (fastforce simp: unmount_def abortActive_def cancelStream_def Let_def chatInv_def)

lemma inv_conversation:
  "chatInv st \<Longrightarrow> chatInv (handleSendMessage s e clk uid aid txt st)"
  "chatInv st \<Longrightarrow> chatInv (handleRegenerateMessage s e clk aid k st)"
  "chatInv st \<Longrightarrow> chatInv (handleEditMessage k st)"
  "chatInv st \<Longrightarrow> chatInv (handleEditOpenChange b st)"
  "chatInv st \<Longrightarrow> chatInv (applyEdit s e clk aid txt b st)"
  "chatInv st \<Longrightarrow> chatInv (handleDeleteMessage e clk k st)"
proof -
  assume st: "chatInv st"
  have key: "chatInv (st\<lparr>editingMessageKey := k\<rparr>)" for k using st by (simp add: chatInv_def)
  show "chatInv (handleSendMessage s e clk uid aid txt st)" "chatInv (handleRegenerateMessage s e clk aid k st)"
      "chatInv (handleEditMessage k st)" "chatInv (handleEditOpenChange b st)" "chatInv (handleDeleteMessage e clk k st)"
    using st key by (simp_all add: handleSendMessage_def handleRegenerateMessage_def handleEditMessage_def
        handleEditOpenChange_def handleDeleteMessage_def inv_send inv_update split: option.split)
  show "chatInv (applyEdit s e clk aid txt b st)"
    using st key by (auto simp: applyEdit_def Let_def inv_send inv_update split: option.split)
qed

lemma inv_render: "chatInv st \<Longrightarrow> chatInv (renderMessages clks st)"
  by (simp add: renderMessages_def Let_def chatInv_def)

lemma inv_timer: "chatInv st \<Longrightarrow> chatInv (flushTimerFired e clk st)"
  by (simp add: flushTimerFired_def inv_flush split: option.split)

lemmas inv_steps = inv_conversation inv_stop inv_unmount inv_headers inv_headers_failed inv_message inv_source_error
  inv_ready_state inv_timer inv_response inv_render

lemma inv_step: "chatInv st \<Longrightarrow> chatInv (chatStep t stream ev st)"
  by (induction t stream ev rule: chatStep.induct) (simp_all add: inv_steps)

lemma reachable_inv: "reachableChat t st \<Longrightarrow> chatInv st"
proof (induction rule: reachableChat.induct)
  case (loaded ms)
  show ?case by (simp add: initialChat_def chatInv_def)
qed (simp add: inv_step)

section \<open>Superseded requests\<close>

text \<open>An event of a call or request that a newer one, a stop or the end of the page has superseded.\<close>

fun eventGeneration :: "ChatState \<Rightarrow> ChatEvent \<Rightarrow> nat option" where
  "eventGeneration st (EvHeaders c throws) = map_option call_chat (ctl_calls st c)"
| "eventGeneration st (EvHeadersFailed c err) = map_option call_chat (ctl_calls st c)"
| "eventGeneration st (EvMessage c data) = map_option call_chat (ctl_calls st c)"
| "eventGeneration st (EvSourceError c readyState data) = map_option call_chat (ctl_calls st c)"
| "eventGeneration st (EvReadyState c eventReadyState status) = map_option call_chat (ctl_calls st c)"
| "eventGeneration st (EvResponse generation choices) = Some generation"
| "eventGeneration st (EvRequestFailed generation err) = Some generation"
| "eventGeneration st _ = None"

lemma stale_call:
  assumes "chatInv st" and "ctl_calls st c = Some k" and "call_chat k \<noteq> requestGeneration st"
  shows "c \<noteq> ctl_generation st" and "listening c st = None"
  using assms by (auto simp: chatInv_def listening_def isCurrent_def)

text \<open>Two states that differ at most in the calls and requests awaited.\<close>

definition sameChat :: "ChatState \<Rightarrow> ChatState \<Rightarrow> bool" where
  "sameChat st st' \<longleftrightarrow> st' = st\<lparr>ctl_calls := ctl_calls st', openRequests := openRequests st'\<rparr>"

lemma sameChat_steps [simp]: "sameChat st st" "sameChat st (set_stage c s st)"
  "requestGeneration st \<noteq> g \<Longrightarrow> sameChat st (settleRequest g st)"
  by (simp_all add: sameChat_def set_stage_def settleRequest_def split: option.split)

text \<open>The step of a superseded event is one of these.\<close>

lemma stale_step:
  assumes "chatInv st" and "eventGeneration st ev = Some g" and "g \<noteq> requestGeneration st"
  shows "(\<exists>c s. chatStep t stream (eager, clk, ev) st = set_stage c s st) \<or>
    chatStep t stream (eager, clk, ev) st = settleRequest g st \<or> chatStep t stream (eager, clk, ev) st = st"
proof -
  have call: "c \<noteq> ctl_generation st \<and> listening c st = None" if "map_option call_chat (ctl_calls st c) = Some g" for c
    using that stale_call [OF assms(1)] assms(3) by auto
  show ?thesis
  proof (cases ev)
    case (EvHeaders c throws)
    then have "c \<noteq> ctl_generation st" using call assms(2) by simp
    then show ?thesis using EvHeaders by (auto simp: headersReady_def split: option.split)
  next
    case (EvHeadersFailed c err)
    then have "c \<noteq> ctl_generation st" using call assms(2) by simp
    then show ?thesis using EvHeadersFailed by (auto simp: headersFailed_def split: option.split)
  qed (use assms(2,3) call in
    \<open>auto simp: sourceMessage_def sourceError_def sourceReadyState_def responseArrived_def requestFailed_def\<close>)
qed

text \<open>
  C5. The latest request wins: an event of a request that was superseded - by a newer message, a
  regeneration, an edit or a stop - leaves the messages, the queued updates, the buffered chunks, the
  timer, the active source and both activity flags as they are.
\<close>

theorem chat_latest_wins:
  assumes "reachableChat t st" and "eventGeneration st ev = Some g" and "g \<noteq> requestGeneration st"
  shows "sameChat st (chatStep t stream (eager, clk, ev) st)"
  using stale_step [OF reachable_inv [OF assms(1)] assms(2,3), of t stream eager clk] assms(3) by (metis sameChat_steps)

section \<open>Stopping\<close>

text \<open>The events the page does not cause itself.\<close>

fun systemEvent :: "ChatEvent \<Rightarrow> bool" where
  "systemEvent EvTimer = True"
| "systemEvent (EvRender clks) = True"
| "systemEvent (EvHeaders c throws) = True"
| "systemEvent (EvHeadersFailed c err) = True"
| "systemEvent (EvMessage c data) = True"
| "systemEvent (EvSourceError c readyState data) = True"
| "systemEvent (EvReadyState c eventReadyState status) = True"
| "systemEvent (EvResponse generation choices) = True"
| "systemEvent (EvRequestFailed generation err) = True"
| "systemEvent _ = False"

text \<open>A page on which nothing is under way for the current generation.\<close>

definition quiet :: "ChatState \<Rightarrow> bool" where
  "quiet st \<longleftrightarrow> flushTimer st = None \<and> st_updates st = [] \<and>
     (\<forall>c k. ctl_calls st c = Some k \<longrightarrow> call_chat k \<noteq> requestGeneration st) \<and>
     requestGeneration st \<notin> set (openRequests st)"

definition shows_same :: "ChatState \<Rightarrow> ChatState \<Rightarrow> bool" where
  "shows_same st st' \<longleftrightarrow> st_messages st' = st_messages st \<and> isGenerating st' = isGenerating st"

lemma quiet_steps:
  "quiet st \<Longrightarrow> quiet (set_stage c s st) \<and> shows_same st (set_stage c s st)"
  "quiet st \<Longrightarrow> g \<noteq> requestGeneration st \<Longrightarrow> quiet (settleRequest g st) \<and> shows_same st (settleRequest g st)"
  "quiet st \<Longrightarrow> quiet (renderMessages clks st) \<and> shows_same st (renderMessages clks st)"
  by (auto simp: quiet_def shows_same_def isGenerating_def set_stage_def settleRequest_def renderMessages_def Let_def
      split: option.split if_splits)

lemma no_call:
  "ctl_calls st c = None \<Longrightarrow> headersReady t e clk c b st = st \<and> headersFailed t e clk c m st = st \<and>
     sourceMessage t e clk c d st = st \<and> sourceError t e clk c r d' st = st \<and> sourceReadyState t e clk c r s st = st"
  by (simp add: headersReady_def headersFailed_def sourceMessage_def sourceError_def sourceReadyState_def listening_def)

lemma quiet_step:
  assumes "chatInv st" and "quiet st" and "systemEvent ev"
  shows "quiet (chatStep t stream (eager, clk, ev) st) \<and> shows_same st (chatStep t stream (eager, clk, ev) st)"
proof -
  have idle: "quiet st \<and> shows_same st st" using assms(2) by (simp add: shows_same_def)
  show ?thesis
  proof (cases "\<exists>g. eventGeneration st ev = Some g \<and> g \<noteq> requestGeneration st")
    case True
    then obtain g where g: "eventGeneration st ev = Some g" "g \<noteq> requestGeneration st" by blast
    then show ?thesis
      using stale_step [OF assms(1) g, of t stream eager clk] quiet_steps(1,2) [OF assms(2)] idle by metis
  next
    case False
    have calls: "ctl_calls st c = None" if "\<not> (\<exists>g. map_option call_chat (ctl_calls st c) = Some g \<and> g \<noteq> requestGeneration st)" for c
      using that assms(2) by (cases "ctl_calls st c") (auto simp: quiet_def)
    show ?thesis
    proof (cases ev)
      case EvTimer
      then show ?thesis using assms(2) idle by (simp add: flushTimerFired_def quiet_def)
    next
      case (EvRender clks)
      then show ?thesis using quiet_steps(3) [OF assms(2)] by simp
    qed (use False assms(2,3) idle calls no_call in
      \<open>auto simp: responseArrived_def requestFailed_def quiet_def\<close>)
  qed
qed

definition chatRun :: "(string \<Rightarrow> string) \<Rightarrow> bool \<Rightarrow> (bool \<times> clock \<times> ChatEvent) list \<Rightarrow> ChatState \<Rightarrow> ChatState" where
  "chatRun t stream evs st = fold (chatStep t stream) evs st"

lemma quiet_run:
  "chatInv st \<Longrightarrow> quiet st \<Longrightarrow> \<forall>(e, clk, ev) \<in> set evs. systemEvent ev \<Longrightarrow> shows_same st (chatRun t stream evs st)"
proof (induction evs arbitrary: st)
  case (Cons x evs)
  obtain e clk ev where x: "x = (e, clk, ev)" by (cases x)
  have "quiet (chatStep t stream x st) \<and> shows_same st (chatStep t stream x st)"
    using quiet_step [OF Cons.prems(1,2), of ev] Cons.prems(3) by (simp add: x)
  moreover have "chatInv (chatStep t stream x st)" using Cons.prems(1) by (rule inv_step)
  ultimately show ?case using Cons.IH [of "chatStep t stream x st"] Cons.prems(3) by (simp add: chatRun_def shows_same_def)
qed (simp add: chatRun_def shows_same_def)

lemma runUpdates_append:
  "runUpdates clks gen (us @ vs) ms = runUpdates (\<lambda>i. clks (i + length us)) gen vs (runUpdates clks gen us ms)"
  by (induction us arbitrary: clks ms) (simp_all add: add.assoc [symmetric] add.commute)

lemma last_updateLast: "ms \<noteq> [] \<Longrightarrow> last (updateLastAssistantMessage ms f) = (if msg_from (last ms) = RoleAssistant then f (last ms) else last ms)"
  by (auto simp: updateLastAssistantMessage_def last_list_update)

lemma updateLast_Nil [simp]: "updateLastAssistantMessage ms f = [] \<longleftrightarrow> ms = []"
  by (auto simp: updateLastAssistantMessage_def)

lemma not_pending_completed: "msg_from m = RoleAssistant \<Longrightarrow> \<not> isPendingAssistantMessage (completeAssistantMessage clk m)"
  by (auto simp: isPendingAssistantMessage_def isAssistantMessagePending_def completeAssistantMessage_def
      completeAssistantTiming_def Let_def)

lemma stop_update_final:
  "\<not> isPendingAssistantMessage (last (runUpdate clk g (StopUpdate g) ms))" if "runUpdate clk g (StopUpdate g) ms \<noteq> []"
  using that not_pending_completed by (auto simp: last_updateLast isPendingAssistantMessage_def)

text \<open>The update queued last runs last, at once or in the next render.\<close>

lemma render_update:
  assumes "st_updates st \<noteq> [] \<longrightarrow> st_dirty st"
  shows "\<exists>clk' clks'. st_messages (renderMessages clks (onMessageUpdate e clk u st)) =
    runUpdate clk' (requestGeneration st) u (runUpdates clks' (requestGeneration st) (st_updates st) (st_messages st))"
proof (cases "e \<and> \<not> st_dirty st")
  case True
  then show ?thesis using assms by (auto simp: onMessageUpdate_def renderMessages_def Let_def)
next
  case False
  then show ?thesis by (auto simp: onMessageUpdate_def renderMessages_def Let_def runUpdates_append)
qed

text \<open>
  C6. Stopping is final: once a stop has been rendered, the last message is no longer pending, nothing is
  generating, and whatever headers, stream events, timers and answers still arrive, in any number and
  order, the messages stay as they are until the user acts.
\<close>

theorem chat_stop_final:
  assumes "reachableChat t st" and "\<forall>(e, c, ev) \<in> set evs. systemEvent ev"
  shows "let st' = renderMessages clks (stopGeneration eager clk st) in
    st_messages (chatRun t stream evs st') = st_messages st' \<and> \<not> isGenerating (chatRun t stream evs st') \<and>
    (st_messages st' \<noteq> [] \<longrightarrow> \<not> isPendingAssistantMessage (last (st_messages st')))"
proof -
  define st1 where "st1 = stopGeneration eager clk st"
  define st' where "st' = renderMessages clks st1"
  have inv: "chatInv st'" using reachable_inv [OF assms(1)] by (simp add: st'_def st1_def inv_stop inv_render)
  have bound: "\<forall>c k. ctl_calls st c = Some k \<longrightarrow> call_chat k \<le> requestGeneration st" "\<forall>g \<in> set (openRequests st). g \<le> requestGeneration st"
    using reachable_inv [OF assms(1)] by (auto simp: chatInv_def)
  have quiet: "quiet st'" "\<not> isGenerating st'"
    using bound by (force simp: st'_def st1_def quiet_def isGenerating_def renderMessages_def stopGeneration_def
        discardPendingStreamUpdates_def abortActive_def cancelStream_def Let_def)+
  define idle where "idle = requestGeneration st + 1"
  define X where "X = (abortActive (cancelStream True (discardPendingStreamUpdates idle
      ((flushStreamUpdates eager clk (requestGeneration st) st)\<lparr>requestGeneration := idle\<rparr>))))\<lparr>st_isRequesting := False\<rparr>"
  have st1: "st1 = onMessageUpdate eager clk (StopUpdate idle) X"
    by (simp only: st1_def stopGeneration_def Let_def X_def idle_def)
  have X: "requestGeneration X = idle" "st_updates X = st_updates (flushStreamUpdates eager clk (requestGeneration st) st)"
      "st_dirty X = st_dirty (flushStreamUpdates eager clk (requestGeneration st) st)"
    by (simp_all add: X_def discardPendingStreamUpdates_def abortActive_def cancelStream_def Let_def)
  have "st_updates X \<noteq> [] \<longrightarrow> st_dirty X"
    using inv_flush [OF reachable_inv [OF assms(1)], of eager clk "requestGeneration st"] unfolding X chatInv_def by blast
  from render_update [OF this, of clks eager clk "StopUpdate idle"]
  obtain clk' ms where "st_messages st' = runUpdate clk' idle (StopUpdate idle) ms"
    unfolding st'_def st1 X(1) by blast
  then have "st_messages st' \<noteq> [] \<longrightarrow> \<not> isPendingAssistantMessage (last (st_messages st'))"
    using stop_update_final [of clk' idle ms] by (simp del: runUpdate.simps)
  then show ?thesis
    using quiet_run [OF inv quiet(1) assms(2), of t stream] quiet(2)
    by (auto simp: Let_def st'_def [symmetric] st1_def [symmetric] shows_same_def)
qed

end
