(* ===== verification/Playground_Text.thy ===== *)
theory Playground_Text
  imports Playground_Laws
begin

text \<open>
  The text of a streamed answer.  Chunks are buffered, flushed by a timer, queued as updates and
  rendered; whatever the interleaving, the finished message holds the chunks in order.
\<close>

section \<open>Messages while streaming\<close>

definition inProgress :: "Message \<Rightarrow> bool" where
  "inProgress m \<longleftrightarrow> msg_from m = RoleAssistant \<and> \<not> isAssistantMessageFinal m"

lemma content_update [simp]:
  "getMessageContent (updateCurrentVersionContent m txt) = txt"
  "msg_from (updateCurrentVersionContent m txt) = msg_from m"
  "msg_status (updateCurrentVersionContent m txt) = msg_status m"
  "msg_reasoning (updateCurrentVersionContent m txt) = msg_reasoning m"
  by (simp_all add: updateCurrentVersionContent_def getMessageContent_def getCurrentVersion_def)

lemma content_fields [simp]:
  "getMessageContent (m\<lparr>msg_status := s\<rparr>) = getMessageContent m"
  "getMessageContent (m\<lparr>msg_reasoning := r\<rparr>) = getMessageContent m"
  "getMessageContent (m\<lparr>msg_isReasoningStreaming := b\<rparr>) = getMessageContent m"
  by (simp_all add: getMessageContent_def getCurrentVersion_def)

lemma timing_fields [simp]:
  "getMessageContent (completeReasoningTiming m now) = getMessageContent m"
  "msg_from (completeReasoningTiming m now) = msg_from m"
  "msg_status (completeReasoningTiming m now) = msg_status m"
  "getMessageContent (completeAssistantTiming m now) = getMessageContent m"
  "msg_from (completeAssistantTiming m now) = msg_from m"
  "msg_status (completeAssistantTiming m now) = msg_status m"
  by (auto simp: completeReasoningTiming_def completeAssistantTiming_def getMessageContent_def getCurrentVersion_def Let_def
      split: option.split)

lemma streaming_fields [simp]:
  "getMessageContent (processStreamingContent clk m chunk) = getMessageContent m @ chunk"
  "msg_from (processStreamingContent clk m chunk) = msg_from m"
  by (simp_all add: processStreamingContent_def Let_def getMessageContent_def [of m, symmetric])

lemma chunk_applied:
  assumes "inProgress m"
  shows "inProgress (applyStreamingChunk clk m typ chunk)"
    and "getMessageContent (applyStreamingChunk clk m typ chunk) =
      (case typ of ReasoningChunk \<Rightarrow> getMessageContent m
       | ContentChunk \<Rightarrow> getMessageContent m @ getAppendableChunk (getMessageContent m) chunk)"
  using assms by (auto simp: applyStreamingChunk_def inProgress_def isAssistantMessageFinal_def Let_def
      getMessageContent_def [of m, symmetric] split: StreamChunkType.split)

lemma completed_fields:
  "getMessageContent (completeAssistantMessage clk m) = visibleContent (parseThinkTags (getMessageContent m))"
  "msg_status (completeAssistantMessage clk m) = Some MsgComplete"
  by (auto simp: completeAssistantMessage_def finalizeMessage_def Let_def getMessageContent_def [of m, symmetric] parseThinkTags_def)

section \<open>Lists of messages while streaming\<close>

definition streamingList :: "Message list \<Rightarrow> Message list \<Rightarrow> string \<Rightarrow> bool" where
  "streamingList earlier ms txt \<longleftrightarrow>
     ms \<noteq> [] \<and> butlast ms = earlier \<and> inProgress (last ms) \<and> getMessageContent (last ms) = txt"

lemma updateLast_list:
  assumes "ms \<noteq> []" and "msg_from (last ms) = RoleAssistant"
  shows "updateLastAssistantMessage ms f = butlast ms @ [f (last ms)]"
  using assms by (cases ms rule: rev_cases) (simp_all add: updateLastAssistantMessage_def)

lemma flush_list:
  assumes "streamingList earlier ms txt"
  shows "streamingList earlier (runUpdate clk g (FlushUpdate g r c) ms)
    (txt @ (if c = [] then [] else getAppendableChunk txt c))"
proof -
  have last: "inProgress (last ms)" "getMessageContent (last ms) = txt" "ms \<noteq> []" "butlast ms = earlier"
    using assms by (simp_all add: streamingList_def)
  define m1 where "m1 = (if r \<noteq> [] then applyStreamingChunk clk (last ms) ReasoningChunk r else last ms)"
  have m1: "inProgress m1" "getMessageContent m1 = txt" using last by (simp_all add: m1_def chunk_applied)
  have "runUpdate clk g (FlushUpdate g r c) ms =
      earlier @ [if c \<noteq> [] then applyStreamingChunk (\<lambda>n. clk (n + 1)) m1 ContentChunk c else m1]"
    using last by (simp add: updateLast_list inProgress_def m1_def Let_def)
  then show ?thesis using m1 by (simp add: streamingList_def chunk_applied)
qed

section \<open>Chunks that do not repeat what came before\<close>

text \<open>The buffer and the message take a chunk that begins with what they hold for a repetition of it, and
  keep it only once.  Here no chunk begins with the chunks since some earlier point, and no run of chunks
  begins with all that came before it.\<close>

definition freshAt :: "string list \<Rightarrow> nat \<Rightarrow> nat \<Rightarrow> bool" where
  "freshAt cs n i \<longleftrightarrow>
     (concat (take i cs) = [] \<or> \<not> prefix (concat (take i cs)) (concat (drop i (take n cs)))) \<and>
     (n < length cs \<longrightarrow> concat (drop i (take n cs)) = [] \<or> \<not> prefix (concat (drop i (take n cs))) (cs ! n))"

definition fresh :: "string list \<Rightarrow> bool" where
  "fresh cs \<longleftrightarrow> list_all (\<lambda>n. list_all (freshAt cs n) [0..<Suc n]) [0..<Suc (length cs)]"

lemma fresh_at: "fresh cs \<Longrightarrow> i \<le> n \<Longrightarrow> n \<le> length cs \<Longrightarrow> freshAt cs n i"
  by (simp add: fresh_def list_all_iff del: upt_Suc)

lemma fresh_prefix: "fresh (cs @ ds) \<Longrightarrow> fresh cs"
proof -
  assume "fresh (cs @ ds)"
  then have "freshAt cs n i" if "i \<le> n" "n \<le> length cs" for n i
    using fresh_at [of "cs @ ds" i n] that by (cases "n < length cs") (simp_all add: freshAt_def nth_append)
  then show ?thesis by (simp add: fresh_def list_all_iff del: upt_Suc)
qed

lemma fresh_chunk: "fresh (cs @ [s]) \<Longrightarrow> i \<le> length cs \<Longrightarrow> concat (drop i cs) = [] \<or> \<not> prefix (concat (drop i cs)) s"
  using fresh_at [of "cs @ [s]" i "length cs"] by (simp add: freshAt_def)

lemma fresh_run: "fresh cs \<Longrightarrow> i \<le> length cs \<Longrightarrow> concat (take i cs) = [] \<or> \<not> prefix (concat (take i cs)) (concat (drop i cs))"
  using fresh_at [of cs i "length cs"] by (simp add: freshAt_def)

section \<open>One event\<close>

text \<open>What is settled, queued and buffered adds up to the chunks received.\<close>

definition received :: "nat \<Rightarrow> nat \<Rightarrow> Message list \<Rightarrow> string list \<Rightarrow> ChatState \<Rightarrow> bool" where
  "received c g earlier cs st \<longleftrightarrow>
     chatInv st \<and> listening c st = Some g \<and> requestGeneration st = g \<and> pend_generation (pendingChunks st) = g \<and>
     (\<exists>i \<le> length cs. pend_content (pendingChunks st) = concat (drop i cs) \<and>
        (\<forall>clks. streamingList earlier (runUpdates clks g (st_updates st) (st_messages st)) (concat (take i cs))))"

lemma listening_fields:
  "ctl_calls st' = ctl_calls st \<Longrightarrow> ctl_generation st' = ctl_generation st \<Longrightarrow> ctl_source st' = ctl_source st \<Longrightarrow>
   listening c st' = listening c st"
  by (simp add: listening_def isCurrent_def cong: option.case_cong)

lemma received_chunk:
  assumes "received c g earlier cs st" and "fresh (cs @ (if fst u = ContentChunk then [snd u] else []))"
  shows "received c g earlier (cs @ (if fst u = ContentChunk then [snd u] else [])) (handleStreamUpdate g st u)"
proof -
  obtain i where i: "i \<le> length cs" "pend_content (pendingChunks st) = concat (drop i cs)"
      "\<And>clks. streamingList earlier (runUpdates clks g (st_updates st) (st_messages st)) (concat (take i cs))"
    and st: "chatInv st" "listening c st = Some g" "requestGeneration st = g" "pend_generation (pendingChunks st) = g"
    using assms(1) by (auto simp: received_def)
  have listen: "listening c (handleStreamUpdate g st u) = Some g"
    using st(2) by (subst listening_fields [of _ st]) (simp_all add: handleStreamUpdate_def scheduleStreamFlush_def Let_def)
  have kept: "requestGeneration (handleStreamUpdate g st u) = g" "st_updates (handleStreamUpdate g st u) = st_updates st"
      "st_messages (handleStreamUpdate g st u) = st_messages st"
    using st by (simp_all add: handleStreamUpdate_def scheduleStreamFlush_def Let_def)
  show ?thesis
  proof (cases "fst u")
    case ReasoningChunk
    then have "pend_content (pendingChunks (handleStreamUpdate g st u)) = pend_content (pendingChunks st)"
        "pend_generation (pendingChunks (handleStreamUpdate g st u)) = g"
      using st by (simp_all add: handleStreamUpdate_def scheduleStreamFlush_def Let_def)
    then show ?thesis
      using i st ReasoningChunk listen kept inv_chunk [OF st(1)] by (auto simp: received_def)
  next
    case ContentChunk
    then have fr: "concat (drop i cs) = [] \<or> \<not> prefix (concat (drop i cs)) (snd u)"
      using assms(2) i(1) fresh_chunk by simp
    have "pend_content (pendingChunks (handleStreamUpdate g st u)) = concat (drop i (cs @ [snd u]))"
        "pend_generation (pendingChunks (handleStreamUpdate g st u)) = g"
      using st ContentChunk i(1,2) fr
      by (simp_all add: handleStreamUpdate_def scheduleStreamFlush_def Let_def mergePendingStreamChunk_def)
    moreover have "take i (cs @ [snd u]) = take i cs" using i(1) by simp
    ultimately show ?thesis
      using i st ContentChunk listen kept inv_chunk [OF st(1)] unfolding received_def
      by (intro conjI exI [of _ i]) simp_all
  qed
qed

lemma received_render: "received c g earlier cs st \<Longrightarrow> received c g earlier cs (renderMessages clks st)"
proof -
  assume r: "received c g earlier cs st"
  have "listening c (renderMessages clks st) = listening c st"
    by (rule listening_fields) (simp_all add: renderMessages_def Let_def)
  then show ?thesis using r inv_render by (auto simp: received_def) (auto simp: renderMessages_def Let_def)
qed

lemma received_update:
  assumes "received c g earlier cs st" and "fresh cs"
  shows "received c g earlier cs
    (onMessageUpdate e clk (FlushUpdate g r (pend_content (pendingChunks st)))
      (st\<lparr>flushTimer := None, pendingChunks := \<lparr>pend_generation = g, pend_content = [], pend_reasoning = []\<rparr>\<rparr>))"
    (is "received c g earlier cs ?st'")
proof -
  obtain i where i: "i \<le> length cs" "pend_content (pendingChunks st) = concat (drop i cs)"
      "\<And>clks. streamingList earlier (runUpdates clks g (st_updates st) (st_messages st)) (concat (take i cs))"
    and st: "chatInv st" "listening c st = Some g" "requestGeneration st = g"
    using assms(1) by (auto simp: received_def)
  have listen: "listening c ?st' = Some g" using st(2) by (subst listening_fields [of _ st]) simp_all
  have inv: "chatInv ?st'" using st(1) by (intro inv_update) (auto simp: chatInv_def)
  have app: "concat (take i cs) @
      (if concat (drop i cs) = [] then [] else getAppendableChunk (concat (take i cs)) (concat (drop i cs))) = concat cs"
  proof -
    have "concat (take i cs) @ concat (drop i cs) = concat cs"
      by (metis append_take_drop_id concat_append)
    then show ?thesis using fresh_run [OF assms(2) i(1)] by (auto simp: getAppendableChunk_def simp del: concat_eq_Nil_conv)
  qed
  have "streamingList earlier (runUpdates clks g (st_updates ?st') (st_messages ?st')) (concat cs)" for clks
  proof (cases "e \<and> \<not> st_dirty st")
    case True
    then have "st_updates st = []" using st(1) by (auto simp: chatInv_def)
    then show ?thesis
      using True i(3) flush_list [OF i(3) [of clks], of clk g r "concat (drop i cs)"] app
      by (simp add: onMessageUpdate_def st(3) i(2) del: runUpdate.simps concat_eq_Nil_conv)
  next
    case False
    then show ?thesis
      using flush_list [OF i(3) [of clks], of "clks (length (st_updates st))" g r "concat (drop i cs)"] app
      by (auto simp: onMessageUpdate_def runUpdates_append i(2) simp del: runUpdate.simps concat_eq_Nil_conv)
  qed
  then show ?thesis using listen inv st(3) by (auto simp: received_def intro!: exI [of _ "length cs"])
qed

lemma received_flush:
  assumes "received c g earlier cs st" and "fresh cs"
  shows "received c g earlier cs (flushStreamUpdates e clk g st)"
    and "pend_content (pendingChunks (flushStreamUpdates e clk g st)) = []"
proof -
  have st: "requestGeneration st = g" "pend_generation (pendingChunks st) = g" "chatInv st" using assms(1) by (auto simp: received_def)
  have "received c g earlier cs (st\<lparr>flushTimer := None\<rparr>)"
  proof -
    have "listening c (st\<lparr>flushTimer := None\<rparr>) = listening c st" by (rule listening_fields) simp_all
    then show ?thesis using assms(1) by (auto simp: received_def chatInv_def)
  qed
  then show "received c g earlier cs (flushStreamUpdates e clk g st)"
    using received_update [OF assms, of e clk "pend_reasoning (pendingChunks st)"] st
    by (auto simp: flushStreamUpdates_def Let_def)
  show "pend_content (pendingChunks (flushStreamUpdates e clk g st)) = []"
    using st by (auto simp: flushStreamUpdates_def Let_def)
qed

section \<open>A whole answer\<close>

text \<open>The events of an answer that streams in on a source, and the chunks of text they carry.\<close>

fun streamEvent :: "nat \<Rightarrow> ChatEvent \<Rightarrow> bool" where
  "streamEvent c EvTimer = True"
| "streamEvent c (EvRender clks) = True"
| "streamEvent c (EvMessage c' data) = (c' = c \<and> \<not> isStreamDoneMessage data \<and> parseStreamMessageUpdates data \<noteq> None)"
| "streamEvent c _ = False"

definition updateTexts :: "(StreamChunkType \<times> string) list \<Rightarrow> string list" where
  "updateTexts us = map snd (filter (\<lambda>u. fst u = ContentChunk) us)"

fun eventTexts :: "ChatEvent \<Rightarrow> string list" where
  "eventTexts (EvMessage c data) = (case parseStreamMessageUpdates data of Some us \<Rightarrow> updateTexts us | None \<Rightarrow> [])"
| "eventTexts _ = []"

definition answerTexts :: "(bool \<times> clock \<times> ChatEvent) list \<Rightarrow> string list" where
  "answerTexts evs = concat (map (\<lambda>(e, clk, ev). eventTexts ev) evs)"

lemma received_chunks:
  "received c g earlier cs st \<Longrightarrow> fresh (cs @ updateTexts us) \<Longrightarrow>
   received c g earlier (cs @ updateTexts us) (foldl (handleStreamUpdate g) st us)"
proof (induction us arbitrary: cs st)
  case (Cons u us)
  let ?cs = "cs @ (if fst u = ContentChunk then [snd u] else [])"
  have all: "cs @ updateTexts (u # us) = ?cs @ updateTexts us" by (simp add: updateTexts_def)
  have "fresh ?cs" using Cons.prems(2) unfolding all by (rule fresh_prefix)
  then show ?case
    using Cons.IH [OF received_chunk [OF Cons.prems(1)]] Cons.prems(2) unfolding all by simp
qed (simp add: updateTexts_def)

lemma received_event:
  assumes "received c g earlier cs st" and "streamEvent c ev" and "fresh (cs @ eventTexts ev)"
  shows "received c g earlier (cs @ eventTexts ev) (chatStep t stream (e, clk, ev) st)"
proof (cases ev)
  case EvTimer
  have "flushTimer st = None \<or> flushTimer st = Some g"
    using assms(1) by (cases "flushTimer st") (auto simp: received_def chatInv_def)
  then show ?thesis
    using assms(1,3) received_flush(1) [of c g earlier cs st e clk] EvTimer by (auto simp: flushTimerFired_def)
next
  case (EvRender clks)
  then show ?thesis using assms(1) by (simp add: received_render)
next
  case (EvMessage c' data)
  then obtain us where "c' = c" "\<not> isStreamDoneMessage data" "parseStreamMessageUpdates data = Some us"
    using assms(2) by auto
  then show ?thesis
    using received_chunks [OF assms(1), of us] assms(1,3) EvMessage by (simp add: sourceMessage_def received_def)
qed (use assms(2) in simp_all)

lemma received_run:
  "received c g earlier cs st \<Longrightarrow> \<forall>(e, clk, ev) \<in> set evs. streamEvent c ev \<Longrightarrow> fresh (cs @ answerTexts evs) \<Longrightarrow>
   received c g earlier (cs @ answerTexts evs) (chatRun t stream evs st)"
proof (induction evs arbitrary: cs st)
  case (Cons x evs)
  obtain e clk ev where x: "x = (e, clk, ev)" by (cases x)
  have all: "cs @ answerTexts (x # evs) = (cs @ eventTexts ev) @ answerTexts evs" by (simp add: answerTexts_def x)
  have "fresh (cs @ eventTexts ev)" using Cons.prems(3) unfolding all by (rule fresh_prefix)
  then have "received c g earlier (cs @ eventTexts ev) (chatStep t stream x st)"
    using received_event [OF Cons.prems(1), of ev t stream e clk] Cons.prems(2) by (simp add: x)
  then show ?case
    using Cons.IH [of "cs @ eventTexts ev" "chatStep t stream x st"] Cons.prems(2,3) unfolding all by (simp add: chatRun_def)
qed (simp add: answerTexts_def chatRun_def)

lemma received_done:
  assumes "received c g earlier cs st" and "fresh cs"
  shows "\<exists>m clk'. st_messages (renderMessages clks (sourceMessage t e clk c ''[DONE]'' st)) = earlier @ [completeAssistantMessage clk' m] \<and>
    getMessageContent m = concat cs"
proof -
  define X where "X = closeActiveSource c (set_stage c Completed st)"
  have r: "requestGeneration st = g" "listening c st = Some g" "chatInv st" using assms(1) by (auto simp: received_def)
  define Y where "Y = (flushStreamUpdates e clk g X)\<lparr>st_isRequesting := False\<rparr>"
  have X: "requestGeneration X = g" "pendingChunks X = pendingChunks st" "st_updates X = st_updates st"
      "st_messages X = st_messages st" "st_dirty X = st_dirty st"
    using r(1) by (simp_all add: X_def closeActiveSource_def set_stage_def split: option.split)
  have Y: "requestGeneration Y = g" "st_updates Y = st_updates (flushStreamUpdates e clk g st)"
      "st_messages Y = st_messages (flushStreamUpdates e clk g st)" "st_dirty Y = st_dirty (flushStreamUpdates e clk g st)"
    using r(1) X by (simp_all add: Y_def flushStreamUpdates_def Let_def onMessageUpdate_def)
  have st': "sourceMessage t e clk c ''[DONE]'' st = onMessageUpdate e clk (CompleteUpdate g) Y"
    using r X(1) by (simp add: sourceMessage_def isStreamDoneMessage_def handleStreamComplete_def X_def [symmetric] Y_def)
  note f = received_flush [OF assms, of e clk]
  have "st_updates Y \<noteq> [] \<longrightarrow> st_dirty Y" using f(1) unfolding Y received_def chatInv_def by blast
  then obtain clk' clks' where end': "st_messages (renderMessages clks (onMessageUpdate e clk (CompleteUpdate g) Y)) =
      runUpdate clk' g (CompleteUpdate g) (runUpdates clks' g (st_updates Y) (st_messages Y))"
    using render_update [of Y clks e clk "CompleteUpdate g"] Y(1) by auto
  obtain i where i: "i \<le> length cs" "concat (drop i cs) = []"
      "streamingList earlier (runUpdates clks' g (st_updates Y) (st_messages Y)) (concat (take i cs))"
    using f(1) f(2) [symmetric] unfolding received_def Y by auto
  have "concat (take i cs) = concat cs" using i(2) by (metis append_Nil2 append_take_drop_id concat_append)
  with i(3) have ms: "streamingList earlier (runUpdates clks' g (st_updates Y) (st_messages Y)) (concat cs)" by simp
  then show ?thesis
    unfolding st' end' by (auto simp: streamingList_def inProgress_def updateLast_list)
qed

text \<open>
  C7. The text of an answer does not depend on timing.  However the chunks of an answer, the flushes of
  the buffer and the renders interleave, and whether updates run at once or queued, the finished message
  shows the chunks in order with the think sections taken out, is complete, and the earlier messages are
  untouched - as long as no chunk repeats what came before it.
\<close>

theorem stream_text_independent:
  assumes "reachableChat t st" and "listening c st = Some g" and "pendingChunks st = \<lparr>pend_generation = g, pend_content = [], pend_reasoning = r\<rparr>"
    and "st_updates st = []" and "st_messages st = earlier @ [m]" and "inProgress m" and "getMessageContent m = []"
    and "\<forall>(e, clk, ev) \<in> set evs. streamEvent c ev" and "fresh (answerTexts evs)"
  shows "\<exists>m'. st_messages (chatRun t stream (evs @ [(e, clk, EvMessage c ''[DONE]''), (e', clk', EvRender clks)]) st) = earlier @ [m'] \<and>
    msg_status m' = Some MsgComplete \<and> getMessageContent m' = visibleContent (parseThinkTags (concat (answerTexts evs)))"
proof -
  note inv = reachable_inv [OF assms(1)]
  have "requestGeneration st = g" using inv assms(2) by (auto simp: chatInv_def listening_def isCurrent_def split: option.splits if_splits)
  then have "received c g earlier [] st"
    using inv assms(2-7) by (simp add: received_def streamingList_def)
  then have r: "received c g earlier (answerTexts evs) (chatRun t stream evs st)"
    using received_run [of c g earlier "[]" st evs t stream] assms(8,9) by simp
  obtain m0 clk0 where "st_messages (renderMessages clks (sourceMessage t e clk c ''[DONE]'' (chatRun t stream evs st))) =
      earlier @ [completeAssistantMessage clk0 m0]" "getMessageContent m0 = concat (answerTexts evs)"
    using received_done [OF r assms(9)] by blast
  then show ?thesis by (simp add: chatRun_def completed_fields)
qed

section \<open>A conversation\<close>

definition demoClock :: clock where
  "demoClock n = 0"

definition chunkData :: "string \<Rightarrow> string" where
  "chunkData s = json_stringify (JObj [(''choices'', JArr [JObj [(''delta'', JObj [(''content'', JStr s)])]])])"

definition demoStart :: ChatState where
  "demoStart = chatRun id True
     [(True, demoClock, EvSend (''u'', ''v'') (''a'', ''b'') ''hi''), (True, demoClock, EvRender (\<lambda>_. demoClock)),
      (True, demoClock, EvHeaders 1 False)] (initialChat [])"

definition demoAnswer :: "(bool \<times> clock \<times> ChatEvent) list" where
  "demoAnswer = [(False, demoClock, EvMessage 1 (chunkData ''He'')), (False, demoClock, EvTimer),
     (False, demoClock, EvMessage 1 (chunkData ''llo''))]"

lemma reachable_run: "reachableChat t st \<Longrightarrow> reachableChat t (chatRun t stream evs st)"
  by (induction evs arbitrary: st) (simp_all add: chatRun_def stepped)

lemma demo_reachable_chat: "reachableChat id demoStart"
  unfolding demoStart_def by (intro reachable_run loaded)

lemma chunkData_parsed:
  assumes "s \<noteq> []"
  shows "parseStreamMessageUpdates (chunkData s) = Some [(ContentChunk, s)]" "\<not> isStreamDoneMessage (chunkData s)"
proof -
  have one: "js_object [(k, v)] = JObj [(k, v)]" if "\<not> is_digit (hd k)" for k v
    using js_object_plain [of "[(k, v)]"] that by simp
  have "json_parse (chunkData s) = Some (JObj [(''choices'', JArr [JObj [(''delta'', JObj [(''content'', JStr s)])]])])"
    unfolding chunkData_def by (rule json_parse_stringify) (simp add: one is_digit_def)
  then show "parseStreamMessageUpdates (chunkData s) = Some [(ContentChunk, s)]"
    using assms by (simp add: parseStreamMessageUpdates_def text_or_none_def)
  show "\<not> isStreamDoneMessage (chunkData s)"
    by (simp add: isStreamDoneMessage_def chunkData_def json_stringify_def layout_def)
qed

lemma demo_answer: "\<forall>(e, clk, ev) \<in> set demoAnswer. streamEvent 1 ev" "answerTexts demoAnswer = [''He'', ''llo'']"
  by (simp_all add: demoAnswer_def answerTexts_def updateTexts_def chunkData_parsed)

theorem stream_text_independent_witness:
  "\<exists>m. st_messages (chatRun id True
       (demoAnswer @ [(False, demoClock, EvMessage 1 ''[DONE]''), (False, demoClock, EvRender (\<lambda>_. demoClock))]) demoStart) =
     [createUserMessage ''u'' ''v'' ''hi'' 0] @ [m] \<and> msg_status m = Some MsgComplete \<and> getMessageContent m = ''Hello''"
proof -
  have st: "listening 1 demoStart = Some 1"
      "pendingChunks demoStart = \<lparr>pend_generation = 1, pend_content = [], pend_reasoning = []\<rparr>"
      "st_updates demoStart = []"
      "st_messages demoStart = [createUserMessage ''u'' ''v'' ''hi'' 0] @ [createLoadingAssistantMessage ''a'' ''b'' 0]"
    by (code_simp, code_simp, code_simp, code_simp)
  have m: "inProgress (createLoadingAssistantMessage ''a'' ''b'' 0)"
      "getMessageContent (createLoadingAssistantMessage ''a'' ''b'' 0) = []"
    by code_simp+
  have "fresh (answerTexts demoAnswer)" unfolding demo_answer(2) by code_simp
  moreover have "visibleContent (parseThinkTags (concat (answerTexts demoAnswer))) = ''Hello''"
    unfolding demo_answer(2) by code_simp
  ultimately show ?thesis
    using stream_text_independent [OF demo_reachable_chat st m demo_answer(1), of True False demoClock False demoClock "\<lambda>_. demoClock"]
    by simp
qed

theorem chat_stop_final_witness:
  "st_messages (chatRun id True demoAnswer (renderMessages (\<lambda>_. demoClock) (stopGeneration False demoClock demoStart))) =
     st_messages (renderMessages (\<lambda>_. demoClock) (stopGeneration False demoClock demoStart)) \<and>
   st_messages (renderMessages (\<lambda>_. demoClock) (stopGeneration False demoClock demoStart)) \<noteq> []"
proof -
  have "\<forall>(e, c, ev) \<in> set demoAnswer. systemEvent ev" by (simp add: demoAnswer_def)
  moreover have "st_messages (renderMessages (\<lambda>_. demoClock) (stopGeneration False demoClock demoStart)) \<noteq> []" by code_simp
  ultimately show ?thesis
    using chat_stop_final [OF demo_reachable_chat, of demoAnswer "\<lambda>_. demoClock" False demoClock True] by (simp add: Let_def)
qed

definition demoResent :: ChatState where
  "demoResent = chatStep id True (True, demoClock, EvSend (''w'', ''x'') (''c'', ''d'') ''again'') demoStart"

theorem chat_latest_wins_witness:
  "sameChat demoResent (chatStep id True (True, demoClock, EvMessage 1 (chunkData ''late'')) demoResent) \<and>
   requestGeneration demoResent = 2"
proof -
  have gen: "eventGeneration demoResent (EvMessage 1 (chunkData ''late'')) = Some 1" "requestGeneration demoResent = 2"
    by code_simp+
  have "reachableChat id demoResent" unfolding demoResent_def by (intro stepped demo_reachable_chat)
  then show ?thesis using chat_latest_wins [OF _ gen(1), of id True True demoClock] gen(2) by simp
qed

end
