(* ===== verification/Canvas_Graph.thy ===== *)
theory Canvas_Graph
  imports Js_Coerce
begin

text \<open>
  The canvas graph of \<open>web/infinite-canvas\<close>: the nodes and connections of a project, the registry
  of node types (\<open>lib/canvas/node-registry.ts\<close>), the operations that plugins apply to the graph
  (\<open>lib/canvas/canvas-agent-ops.ts\<close>, \<open>pages/canvas/hooks/use-canvas-ops.ts\<close>) and the search for
  the configuration node that a retry starts from (\<open>lib/canvas/canvas-generation-helpers.ts\<close>).

  Object spread writes the entries of the second object into the first.  The time and the fresh
  identifiers of one call are functions of the index of the operation.  The search is a loop over
  a queue that grows while it is consumed: it is a \<open>partial_function\<close> whose value \<open>None\<close> is a
  run that does not end, so that its termination is a theorem.
\<close>

section \<open>Nodes and connections\<close>

type_synonym CanvasNodeMetadata = "(string, jsval) omap"

definition NodeText :: string where "NodeText = ''text''"
definition NodeConfig :: string where "NodeConfig = ''config''"

definition builtinNodeTypes :: "string list" where
  "builtinNodeTypes = [''image'', NodeText, NodeConfig, ''video'', ''audio'', ''group'']"

record Position =
  pos_x :: rat
  pos_y :: rat

record ViewportTransform =
  vt_x :: rat
  vt_y :: rat
  vt_k :: rat

record CanvasNodeData =
  cn_id :: string
  cn_type :: string
  cn_title :: string
  cn_position :: Position
  cn_width :: rat
  cn_height :: rat
  cn_metadata :: "CanvasNodeMetadata option"

record CanvasConnection =
  cc_id :: string
  cc_fromNodeId :: string
  cc_toNodeId :: string

definition obj_spread :: "(string, jsval) omap \<Rightarrow> (string, jsval) omap option \<Rightarrow> (string, jsval) omap" where
  "obj_spread a b = (case b of None \<Rightarrow> a | Some es \<Rightarrow> fold (\<lambda>(k, v) m. om_set k v m) es a)"

section \<open>The registry of node types\<close>

record CanvasNodeDefinition =
  nd_type :: string
  nd_title :: string
  nd_width :: rat
  nd_height :: rat
  nd_metadata :: "CanvasNodeMetadata option"

record NodeRegistry =
  nr_definitions :: "(string, CanvasNodeDefinition) omap"
  nr_ownerByType :: "(string, string) omap"
  nr_version :: nat

definition emptyRegistry :: NodeRegistry where
  "emptyRegistry = \<lparr>nr_definitions = [], nr_ownerByType = [], nr_version = 0\<rparr>"

definition bump :: "NodeRegistry \<Rightarrow> NodeRegistry" where
  "bump r = r\<lparr>nr_version := nr_version r + 1\<rparr>"

definition registerNodeDefinitions :: "CanvasNodeDefinition list \<Rightarrow> string \<Rightarrow> NodeRegistry \<Rightarrow> NodeRegistry" where
  "registerNodeDefinitions defs pluginId r =
     bump (fold (\<lambda>def r. r\<lparr>nr_definitions := om_set (nd_type def) def (nr_definitions r),
                           nr_ownerByType := om_set (nd_type def) pluginId (nr_ownerByType r)\<rparr>) defs r)"

definition unregisterPluginNodes :: "string \<Rightarrow> NodeRegistry \<Rightarrow> NodeRegistry" where
  "unregisterPluginNodes pluginId r =
     bump (fold (\<lambda>(type, owner) r.
       if owner \<noteq> pluginId then r
       else r\<lparr>nr_definitions := om_delete type (nr_definitions r),
              nr_ownerByType := om_delete type (nr_ownerByType r)\<rparr>) (nr_ownerByType r) r)"

definition getNodeDefinition :: "NodeRegistry \<Rightarrow> string \<Rightarrow> CanvasNodeDefinition option" where
  "getNodeDefinition r type = om_get (nr_definitions r) type"

definition getNodePluginId :: "NodeRegistry \<Rightarrow> string \<Rightarrow> string" where
  "getNodePluginId r type =
     (case om_get (nr_ownerByType r) type of
        None \<Rightarrow> ''builtin''
      | Some owner \<Rightarrow> if owner = [] then ''builtin'' else owner)"

definition listNodeDefinitions :: "NodeRegistry \<Rightarrow> CanvasNodeDefinition list" where
  "listNodeDefinitions r = om_values (nr_definitions r)"

definition isRegisteredNodeType :: "NodeRegistry \<Rightarrow> string \<Rightarrow> bool" where
  "isRegisteredNodeType r type = (om_get (nr_definitions r) type \<noteq> None)"

record CanvasNodeSpec =
  sp_width :: rat
  sp_height :: rat
  sp_title :: string
  sp_metadata :: "CanvasNodeMetadata option"

definition FALLBACK_SPEC :: "(string \<Rightarrow> string) \<Rightarrow> CanvasNodeSpec" where
  "FALLBACK_SPEC t = \<lparr>sp_width = 340, sp_height = 240, sp_title = t ''canvas.node.node'', sp_metadata = Some []\<rparr>"

definition getNodeSpec :: "(string \<Rightarrow> string) \<Rightarrow> NodeRegistry \<Rightarrow> string \<Rightarrow> CanvasNodeSpec" where
  "getNodeSpec t r type =
     (case om_get (nr_definitions r) type of
        None \<Rightarrow> FALLBACK_SPEC t
      | Some def \<Rightarrow> \<lparr>sp_width = nd_width def, sp_height = nd_height def, sp_title = nd_title def, sp_metadata = nd_metadata def\<rparr>)"

definition isBuiltinNodeType :: "string \<Rightarrow> bool" where
  "isBuiltinNodeType type = (type \<in> set builtinNodeTypes)"

section \<open>Operations on the graph\<close>

record NodePatch =
  np_id :: "string option"
  np_type :: "string option"
  np_title :: "string option"
  np_position :: "Position option"
  np_width :: "rat option"
  np_height :: "rat option"
  np_metadata :: "CanvasNodeMetadata option"

record AddNode =
  an_id :: "string option"
  an_nodeType :: "string option"
  an_title :: "string option"
  an_position :: "Position option"
  an_x :: "rat option"
  an_y :: "rat option"
  an_width :: "rat option"
  an_height :: "rat option"
  an_metadata :: "CanvasNodeMetadata option"

text \<open>An operation; the arguments of a constructor are the fields of the object in the order of
  the type declaration.\<close>

datatype CanvasAgentOp =
    AddNodeOp AddNode
  | UpdateNodeOp string "NodePatch option" "CanvasNodeMetadata option"
  | DeleteNodeOp "string option" "string list option" "string option"
  | DeleteConnectionsOp "string option" "string list option" "bool option"
  | ConnectNodesOp "string option" string string
  | SetViewportOp "ViewportTransform option"
  | SelectNodesOp "string list option"
  | RunGenerationOp string "string option" "string option"

record CanvasAgentSnapshot =
  sn_projectId :: string
  sn_title :: string
  sn_nodes :: "CanvasNodeData list"
  sn_connections :: "CanvasConnection list"
  sn_selectedNodeIds :: "string list"
  sn_viewport :: ViewportTransform

text \<open>What a call reads of its surroundings: the translations, the registry, the time and the
  identifier that \<open>nanoid\<close> returns at the operation of each index.\<close>

record OpsEnv =
  oe_t :: "string \<Rightarrow> string"
  oe_registry :: NodeRegistry
  oe_now :: "nat \<Rightarrow> nat"
  oe_nanoid :: "nat \<Rightarrow> string"

definition or_str :: "string option \<Rightarrow> string \<Rightarrow> string" where
  "or_str v d = (case v of None \<Rightarrow> d | Some s \<Rightarrow> if s = [] then d else s)"

definition or_num :: "rat option \<Rightarrow> rat \<Rightarrow> rat" where
  "or_num v d = (case v of None \<Rightarrow> d | Some n \<Rightarrow> if n = 0 then d else n)"

definition nullish :: "'a option \<Rightarrow> 'a \<Rightarrow> 'a" where
  "nullish v d = (case v of None \<Rightarrow> d | Some x \<Rightarrow> x)"

definition filled :: "string option \<Rightarrow> bool" where
  "filled v = (case v of None \<Rightarrow> False | Some s \<Rightarrow> s \<noteq> [])"

definition addedNode :: "OpsEnv \<Rightarrow> nat \<Rightarrow> AddNode \<Rightarrow> CanvasNodeData" where
  "addedNode e index op =
     (let nodeType = (if filled (an_nodeType op) \<and> isRegisteredNodeType (oe_registry e) (the (an_nodeType op))
                      then the (an_nodeType op) else NodeText);
          spec = getNodeSpec (oe_t e) (oe_registry e) nodeType in
      \<lparr>cn_id = or_str (an_id op) (nodeType @ ''-'' @ nat_str (oe_now e index) @ ''-'' @ nat_str index),
       cn_type = nodeType,
       cn_title = or_str (an_title op) (sp_title spec),
       cn_position = (case an_position op of
           Some p \<Rightarrow> p
         | None \<Rightarrow> \<lparr>pos_x = nullish (an_x op) (of_nat index * 36), pos_y = nullish (an_y op) (of_nat index * 36)\<rparr>),
       cn_width = or_num (an_width op) (sp_width spec),
       cn_height = or_num (an_height op) (sp_height spec),
       cn_metadata = Some (obj_spread (obj_spread [] (sp_metadata spec)) (an_metadata op))\<rparr>)"

definition patchNode :: "NodePatch option \<Rightarrow> CanvasNodeMetadata option \<Rightarrow> CanvasNodeData \<Rightarrow> CanvasNodeData" where
  "patchNode patch metadata node =
     (let own = obj_spread [] (cn_metadata node) in
      case patch of
        None \<Rightarrow> node\<lparr>cn_metadata := Some (obj_spread own metadata)\<rparr>
      | Some p \<Rightarrow>
          \<lparr>cn_id = nullish (np_id p) (cn_id node),
           cn_type = nullish (np_type p) (cn_type node),
           cn_title = nullish (np_title p) (cn_title node),
           cn_position = nullish (np_position p) (cn_position node),
           cn_width = nullish (np_width p) (cn_width node),
           cn_height = nullish (np_height p) (cn_height node),
           cn_metadata = Some (obj_spread (obj_spread own (np_metadata p)) metadata)\<rparr>)"

definition deletedIds :: "CanvasNodeData list \<Rightarrow> string option \<Rightarrow> string list option \<Rightarrow> string option \<Rightarrow> string list" where
  "deletedIds nodes nid ids nodeType =
     (case ids of
        Some xs \<Rightarrow> xs
      | None \<Rightarrow>
          if filled nid then [the nid]
          else if filled nodeType then map cn_id (filter (\<lambda>node. cn_type node = the nodeType) nodes)
          else [])"

fun applyOp :: "OpsEnv \<Rightarrow> nat \<Rightarrow> CanvasAgentOp \<Rightarrow> CanvasAgentSnapshot \<Rightarrow> CanvasAgentSnapshot" where
  "applyOp e index (AddNodeOp op) s =
     (let node = addedNode e index op in
      s\<lparr>sn_nodes := sn_nodes s @ [node], sn_selectedNodeIds := [cn_id node]\<rparr>)"
| "applyOp e index (UpdateNodeOp nid patch metadata) s =
     (if nid = [] then s
      else s\<lparr>sn_nodes := map (\<lambda>node. if cn_id node = nid then patchNode patch metadata node else node) (sn_nodes s)\<rparr>)"
| "applyOp e index (DeleteNodeOp nid ids nodeType) s =
     (let gone = set (deletedIds (sn_nodes s) nid ids nodeType) in
      s\<lparr>sn_nodes := filter (\<lambda>node. cn_id node \<notin> gone) (sn_nodes s),
        sn_connections := filter (\<lambda>conn. cc_fromNodeId conn \<notin> gone \<and> cc_toNodeId conn \<notin> gone) (sn_connections s),
        sn_selectedNodeIds := filter (\<lambda>id. id \<notin> gone) (sn_selectedNodeIds s)\<rparr>)"
| "applyOp e index (DeleteConnectionsOp nid ids all) s =
     (let gone = (case ids of Some xs \<Rightarrow> set xs | None \<Rightarrow> if filled nid then {the nid} else {}) in
      s\<lparr>sn_connections := (if all = Some True then [] else filter (\<lambda>conn. cc_id conn \<notin> gone) (sn_connections s))\<rparr>)"
| "applyOp e index (ConnectNodesOp nid from to) s =
     (if from = [] \<or> to = [] then s
      else
        (let exists = list_ex (\<lambda>conn. cc_fromNodeId conn = from \<and> cc_toNodeId conn = to) (sn_connections s);
             hasNodes = (list_ex (\<lambda>node. cn_id node = from) (sn_nodes s) \<and> list_ex (\<lambda>node. cn_id node = to) (sn_nodes s)) in
         if \<not> exists \<and> hasNodes
         then s\<lparr>sn_connections := sn_connections s @
                 [\<lparr>cc_id = or_str nid (oe_nanoid e index), cc_fromNodeId = from, cc_toNodeId = to\<rparr>]\<rparr>
         else s))"
| "applyOp e index (SetViewportOp viewport) s =
     (case viewport of None \<Rightarrow> s | Some v \<Rightarrow> s\<lparr>sn_viewport := v\<rparr>)"
| "applyOp e index (SelectNodesOp ids) s =
     s\<lparr>sn_selectedNodeIds := filter (\<lambda>id. list_ex (\<lambda>node. cn_id node = id) (sn_nodes s)) (nullish ids [])\<rparr>"
| "applyOp e index (RunGenerationOp nodeId mode prompt) s = s"

text \<open>The loop over the operations; an entry without a type is \<open>None\<close>, and an absent or
  malformed list is \<open>None\<close>.\<close>

primrec applyOps :: "OpsEnv \<Rightarrow> nat \<Rightarrow> CanvasAgentOp option list \<Rightarrow> CanvasAgentSnapshot \<Rightarrow> CanvasAgentSnapshot" where
  "applyOps e index [] s = s"
| "applyOps e index (op # ops) s =
     applyOps e (index + 1) ops (case op of None \<Rightarrow> s | Some op \<Rightarrow> applyOp e index op s)"

definition applyCanvasAgentOps :: "OpsEnv \<Rightarrow> CanvasAgentSnapshot \<Rightarrow> CanvasAgentOp option list option \<Rightarrow> CanvasAgentSnapshot" where
  "applyCanvasAgentOps e snapshot ops = applyOps e 0 (nullish ops []) snapshot"

definition isRunGeneration :: "CanvasAgentOp \<Rightarrow> bool" where
  "isRunGeneration op = (case op of RunGenerationOp _ _ _ \<Rightarrow> True | _ \<Rightarrow> False)"

definition requestsGeneration :: "CanvasAgentOp \<Rightarrow> bool" where
  "requestsGeneration op = (case op of RunGenerationOp nodeId _ _ \<Rightarrow> nodeId \<noteq> [] | _ \<Rightarrow> False)"

text \<open>The part of the page that the hook \<open>useCanvasOps\<close> writes: the canvas, whose selection is a
  \<open>Set\<close>, the selected connection, the context menu, and the generations left to microtasks.\<close>

record CanvasPage =
  pg_canvas :: CanvasAgentSnapshot
  pg_selectedConnectionId :: "string option"
  pg_contextMenu :: "jsval option"
  pg_microtasks :: "CanvasAgentOp list list"

text \<open>The operations that request a generation are taken out, the others are applied, and the
  requests are left for a microtask.  The result is the page and the returned snapshot.\<close>

definition applyCanvasOps :: "OpsEnv \<Rightarrow> CanvasAgentOp option list option \<Rightarrow> CanvasPage \<Rightarrow> CanvasPage \<times> CanvasAgentSnapshot" where
  "applyCanvasOps e ops page =
     (let safeOps = concat (map (\<lambda>op. case op of None \<Rightarrow> [] | Some op \<Rightarrow> [op]) (nullish ops []));
          generationOps = filter requestsGeneration safeOps;
          next = applyCanvasAgentOps e (pg_canvas page) (Some (map Some (filter (\<lambda>op. \<not> isRunGeneration op) safeOps))) in
      (page\<lparr>pg_canvas := next\<lparr>sn_selectedNodeIds := os_of (sn_selectedNodeIds next)\<rparr>,
            pg_selectedConnectionId := None,
            pg_contextMenu := None,
            pg_microtasks := pg_microtasks page @ (if length generationOps \<noteq> 0 then [generationOps] else [])\<rparr>,
       next))"

text \<open>What the microtask passes to the generator for one request, given the nodes at that time:
  node, mode and prompt.\<close>

definition js_nullish :: "jsval \<Rightarrow> jsval \<Rightarrow> jsval" where
  "js_nullish a b = (if a = JUndef \<or> a = JNull then b else a)"

definition js_or :: "jsval \<Rightarrow> jsval \<Rightarrow> jsval" where
  "js_or a b = (if truthy a then a else b)"

definition metadataOf :: "CanvasNodeData \<Rightarrow> jsval" where
  "metadataOf node = (case cn_metadata node of None \<Rightarrow> JUndef | Some m \<Rightarrow> JObj m)"

definition generationCall :: "CanvasNodeData list \<Rightarrow> CanvasAgentOp \<Rightarrow> (string \<times> jsval \<times> jsval) option" where
  "generationCall nodes op =
     (case op of
        RunGenerationOp nodeId mode prompt \<Rightarrow>
          (let target = List.find (\<lambda>node. cn_id node = nodeId) nodes;
               md = (case target of None \<Rightarrow> JUndef | Some node \<Rightarrow> metadataOf node);
               p = (if prompt \<noteq> None \<and> js_trim (the prompt) \<noteq> [] then JStr (the prompt)
                    else js_nullish (js_nullish (jprop md ''composerContent'') (jprop md ''prompt'')) (JStr [])) in
           Some (nodeId, js_or (js_or (case mode of None \<Rightarrow> JUndef | Some m \<Rightarrow> JStr m) (jprop md ''generationMode'')) (JStr ''image''), p))
      | _ \<Rightarrow> None)"

section \<open>The source of a retry\<close>

definition sourcesOf :: "CanvasConnection list \<Rightarrow> string \<Rightarrow> string list" where
  "sourcesOf connections nid = map cc_fromNodeId (filter (\<lambda>connection. cc_toNodeId connection = nid) connections)"

partial_function (option) retryLoop ::
  "CanvasNodeData list \<Rightarrow> CanvasConnection list \<Rightarrow> string list \<Rightarrow> string list \<Rightarrow> CanvasNodeData option option" where
  [code]: "retryLoop nodes connections queue visited =
     (case queue of
        [] \<Rightarrow> Some None
      | nid # queue' \<Rightarrow>
          if nid \<in> set visited then retryLoop nodes connections queue' visited
          else
            (let visited' = os_add visited nid; node = List.find (\<lambda>item. cn_id item = nid) nodes in
             if node \<noteq> None \<and> cn_type (the node) = NodeConfig then Some node
             else retryLoop nodes connections (queue' @ sourcesOf connections nid) visited'))"

definition findRetrySourceNode :: "string \<Rightarrow> CanvasNodeData list \<Rightarrow> CanvasConnection list \<Rightarrow> CanvasNodeData option option" where
  "findRetrySourceNode nodeId nodes connections = retryLoop nodes connections (sourcesOf connections nodeId) []"

record ReferenceImage =
  ri_id :: string
  ri_name :: string
  ri_type :: jsval
  ri_dataUrl :: jsval
  ri_storageKey :: jsval

text \<open>The image of a source node as a reference: none for a node of another type or without
  content.\<close>

definition sourceNodeReferenceImages :: "CanvasNodeData option \<Rightarrow> ReferenceImage list" where
  "sourceNodeReferenceImages node =
     (case node of
        None \<Rightarrow> []
      | Some n \<Rightarrow>
          let md = metadataOf n in
          if cn_type n \<noteq> ''image'' \<or> \<not> truthy (jprop md ''content'') then []
          else [\<lparr>ri_id = cn_id n,
                 ri_name = (if cn_title n = [] then cn_id n else cn_title n) @ ''.png'',
                 ri_type = js_or (jprop md ''mimeType'') (JStr ''image/png''),
                 ri_dataUrl = jprop md ''content'',
                 ri_storageKey = jprop md ''storageKey''\<rparr>])"

end
