(* ===== verification/Canvas_Laws.thy ===== *)
theory Canvas_Laws
  imports Canvas_Graph
begin

text \<open>
  Properties of the canvas graph: the operations of plugins keep it closed, by an invariant that
  each operation preserves, and the search for the source of a retry ends and returns the nearest
  configuration node.  The search has the invariant of breadth-first search, level by level; it
  ends because the identifiers not yet visited decrease, or else the queue does.
\<close>

section \<open>Operations keep the graph closed\<close>

text \<open>Every connection joins nodes of the graph, no two join the same pair, and only nodes of the
  graph are selected.\<close>

definition nodeIds :: "CanvasAgentSnapshot \<Rightarrow> string set" where
  "nodeIds s = set (map cn_id (sn_nodes s))"

definition connectionPairs :: "CanvasAgentSnapshot \<Rightarrow> (string \<times> string) list" where
  "connectionPairs s = map (\<lambda>c. (cc_fromNodeId c, cc_toNodeId c)) (sn_connections s)"

definition graphOk :: "CanvasAgentSnapshot \<Rightarrow> bool" where
  "graphOk s \<longleftrightarrow>
     list_all (\<lambda>(f, t). f \<in> nodeIds s \<and> t \<in> nodeIds s) (connectionPairs s) \<and>
     distinct (connectionPairs s) \<and>
     list_all (\<lambda>i. i \<in> nodeIds s) (sn_selectedNodeIds s)"

text \<open>A patch that leaves the identifier of its node.\<close>

fun keepsIds :: "CanvasAgentOp \<Rightarrow> bool" where
  "keepsIds (UpdateNodeOp nid (Some p) _) = (np_id p = None \<or> np_id p = Some nid)"
| "keepsIds _ = True"

lemma patchNode_id:
  "keepsIds (UpdateNodeOp (cn_id node) patch metadata) \<Longrightarrow> cn_id (patchNode patch metadata node) = cn_id node"
  by (cases patch) (auto simp: patchNode_def nullish_def Let_def)

lemma graphOk_update:
  assumes "graphOk s" "keepsIds (UpdateNodeOp nid patch metadata)"
  shows "graphOk (applyOp e index (UpdateNodeOp nid patch metadata) s)"
proof (cases "nid = []")
  case False
  have "map cn_id (map (\<lambda>node. if cn_id node = nid then patchNode patch metadata node else node) (sn_nodes s)) =
      map cn_id (sn_nodes s)"
    using assms(2) by (auto simp: patchNode_id)
  moreover have "sn_nodes (applyOp e index (UpdateNodeOp nid patch metadata) s) =
      map (\<lambda>node. if cn_id node = nid then patchNode patch metadata node else node) (sn_nodes s)"
    using False by simp
  ultimately have "nodeIds (applyOp e index (UpdateNodeOp nid patch metadata) s) = nodeIds s"
    by (simp only: nodeIds_def)
  moreover have "connectionPairs (applyOp e index (UpdateNodeOp nid patch metadata) s) = connectionPairs s"
    "sn_selectedNodeIds (applyOp e index (UpdateNodeOp nid patch metadata) s) = sn_selectedNodeIds s"
    by (simp_all add: connectionPairs_def)
  ultimately show ?thesis
    using assms(1) by (simp only: graphOk_def)
qed (use assms in simp)

lemma graphOk_add: "graphOk s \<Longrightarrow> graphOk (applyOp e index (AddNodeOp op) s)"
  by (auto simp: graphOk_def nodeIds_def connectionPairs_def list_all_iff Let_def)

lemma graphOk_delete: "graphOk s \<Longrightarrow> graphOk (applyOp e index (DeleteNodeOp nid ids nodeType) s)"
  by (auto simp: graphOk_def nodeIds_def connectionPairs_def list_all_iff Let_def distinct_map inj_on_def)

lemma graphOk_disconnect: "graphOk s \<Longrightarrow> graphOk (applyOp e index (DeleteConnectionsOp nid ids all) s)"
  by (auto simp: graphOk_def nodeIds_def connectionPairs_def list_all_iff Let_def distinct_map inj_on_def)

lemma graphOk_connect: "graphOk s \<Longrightarrow> graphOk (applyOp e index (ConnectNodesOp nid f t) s)"
  by (auto simp: graphOk_def nodeIds_def connectionPairs_def list_all_iff list_ex_iff Let_def)

lemma graphOk_applyOp: "graphOk s \<Longrightarrow> keepsIds op \<Longrightarrow> graphOk (applyOp e index op s)"
proof (cases op)
  case (SetViewportOp v)
  then show "graphOk s \<Longrightarrow> ?thesis"
    by (auto simp: graphOk_def nodeIds_def connectionPairs_def split: option.splits)
next
  case (SelectNodesOp ids)
  then show "graphOk s \<Longrightarrow> ?thesis"
    by (auto simp: graphOk_def nodeIds_def connectionPairs_def list_all_iff list_ex_iff)
qed (auto intro: graphOk_update graphOk_add graphOk_delete graphOk_disconnect graphOk_connect simp del: applyOp.simps(1-5))

lemma graphOk_applyOps:
  "graphOk s \<Longrightarrow> list_all (pred_option keepsIds) ops \<Longrightarrow> graphOk (applyOps e index ops s)"
  by (induction ops arbitrary: s index) (auto simp: graphOk_applyOp split: option.splits)

lemma applyOp_project:
  "sn_projectId (applyOp e index op s) = sn_projectId s \<and> sn_title (applyOp e index op s) = sn_title s"
  by (cases op) (auto simp: Let_def split: option.splits)

lemma applyOps_project:
  "sn_projectId (applyOps e index ops s) = sn_projectId s \<and> sn_title (applyOps e index ops s) = sn_title s"
  by (induction ops arbitrary: s index) (auto simp: applyOp_project split: option.splits)

lemma graphOk_os_of: "graphOk s \<Longrightarrow> graphOk (s\<lparr>sn_selectedNodeIds := os_of (sn_selectedNodeIds s)\<rparr>)"
  by (auto simp: graphOk_def nodeIds_def connectionPairs_def list_all_iff)

lemma requestsGeneration_iff: "requestsGeneration op \<longleftrightarrow> (\<exists>nid m p. op = RunGenerationOp nid m p \<and> nid \<noteq> [])"
  by (cases op) (auto simp: requestsGeneration_def)

lemma mem_safeOps: "op \<in> set (concat (map (\<lambda>op. case op of None \<Rightarrow> [] | Some op \<Rightarrow> [op]) ops)) \<longleftrightarrow> Some op \<in> set ops"
  by (induction ops) (auto split: option.splits)


text \<open>A canvas of two joined nodes, in a page without registered types.\<close>

definition exampleNode :: "string \<Rightarrow> string \<Rightarrow> CanvasNodeData" where
  "exampleNode nid type =
     \<lparr>cn_id = nid, cn_type = type, cn_title = nid, cn_position = \<lparr>pos_x = 0, pos_y = 0\<rparr>,
      cn_width = 340, cn_height = 240, cn_metadata = None\<rparr>"

definition exampleCanvas :: CanvasAgentSnapshot where
  "exampleCanvas =
     \<lparr>sn_projectId = ''p'', sn_title = ''canvas'',
      sn_nodes = [exampleNode ''a'' ''config'', exampleNode ''b'' ''image''],
      sn_connections = [\<lparr>cc_id = ''c'', cc_fromNodeId = ''a'', cc_toNodeId = ''b''\<rparr>],
      sn_selectedNodeIds = [''b''], sn_viewport = \<lparr>vt_x = 0, vt_y = 0, vt_k = 1\<rparr>\<rparr>"

definition exampleEnv :: OpsEnv where
  "exampleEnv = \<lparr>oe_t = (\<lambda>key. key), oe_registry = emptyRegistry, oe_now = (\<lambda>_. 0), oe_nanoid = nat_str\<rparr>"

lemmas example_canvas = exampleCanvas_def exampleNode_def graphOk_def nodeIds_def connectionPairs_def

definition examplePage :: CanvasPage where
  "examplePage = \<lparr>pg_canvas = exampleCanvas, pg_selectedConnectionId = Some ''c'', pg_contextMenu = None, pg_microtasks = []\<rparr>"

lemma graphOk_example: "graphOk (pg_canvas examplePage)"
  by (simp add: examplePage_def example_canvas)


text \<open>The hypothesis on patches is needed: a patch that renames a node leaves its connection
  behind.\<close>

lemma rename_leaves_connection:
  "graphOk exampleCanvas \<and>
   \<not> graphOk (applyCanvasAgentOps exampleEnv exampleCanvas
     (Some [Some (UpdateNodeOp ''a''
        (Some \<lparr>np_id = Some ''z'', np_type = None, np_title = None, np_position = None, np_width = None,
               np_height = None, np_metadata = None\<rparr>) None)]))"
  by (simp add: example_canvas applyCanvasAgentOps_def nullish_def patchNode_def)

section \<open>The search returns the nearest configuration\<close>

lemmas retry_step = retryLoop.simps [of nodes connections "i # queue" visited] for nodes connections i queue visited

definition isConfig :: "CanvasNodeData list \<Rightarrow> string \<Rightarrow> bool" where
  "isConfig nodes i = (case List.find (\<lambda>item. cn_id item = i) nodes of None \<Rightarrow> False | Some n \<Rightarrow> cn_type n = NodeConfig)"

lemma retry_nil [simp]: "retryLoop nodes connections [] visited = Some None"
  by (subst retryLoop.simps) simp

lemma retry_visited: "i \<in> set visited \<Longrightarrow>
    retryLoop nodes connections (i # queue) visited = retryLoop nodes connections queue visited"
  by (subst retry_step) simp

lemma retry_config: "i \<notin> set visited \<Longrightarrow> isConfig nodes i \<Longrightarrow>
    retryLoop nodes connections (i # queue) visited = Some (List.find (\<lambda>item. cn_id item = i) nodes)"
  by (subst retry_step) (auto simp: isConfig_def Let_def split: option.splits)

lemma retry_other: "i \<notin> set visited \<Longrightarrow> \<not> isConfig nodes i \<Longrightarrow>
    retryLoop nodes connections (i # queue) visited =
    retryLoop nodes connections (queue @ sourcesOf connections i) (os_add visited i)"
  by (subst retry_step) (auto simp: isConfig_def Let_def split: option.splits)

text \<open>The nodes from which the given one is reached over a number of connections.\<close>

primrec sourcesAt :: "CanvasConnection list \<Rightarrow> string \<Rightarrow> nat \<Rightarrow> string list" where
  "sourcesAt connections nodeId 0 = sourcesOf connections nodeId"
| "sourcesAt connections nodeId (Suc k) = concat (map (sourcesOf connections) (sourcesAt connections nodeId k))"

text \<open>The invariant of the breadth-first search at distance \<open>d\<close>: the queue holds nodes of that
  distance and then of the next one, everything nearer has been visited, nothing visited is a
  configuration, and what leads to a visited node is visited or queued.\<close>

definition bfs :: "CanvasNodeData list \<Rightarrow> CanvasConnection list \<Rightarrow> string \<Rightarrow> nat \<Rightarrow> string list \<Rightarrow> string list \<Rightarrow> string list \<Rightarrow> bool" where
  "bfs nodes connections nodeId d xs ys visited \<longleftrightarrow>
     set xs \<subseteq> set (sourcesAt connections nodeId d) \<and>
     set ys \<subseteq> set (sourcesAt connections nodeId (Suc d)) \<and>
     (\<forall>k<d. set (sourcesAt connections nodeId k) \<subseteq> set visited) \<and>
     set (sourcesAt connections nodeId d) \<subseteq> set visited \<union> set xs \<and>
     (\<forall>i\<in>set visited. \<not> isConfig nodes i \<and> set (sourcesOf connections i) \<subseteq> set visited \<union> set xs \<union> set ys)"

lemma bfs_start: "bfs nodes connections nodeId 0 (sourcesOf connections nodeId) [] []"
  by (simp add: bfs_def)

lemma bfs_skip: "bfs nodes connections nodeId d (i # xs) ys visited \<Longrightarrow> i \<in> set visited \<Longrightarrow>
    bfs nodes connections nodeId d xs ys visited"
  unfolding bfs_def by auto

lemma bfs_visit: "bfs nodes connections nodeId d (i # xs) ys visited \<Longrightarrow> \<not> isConfig nodes i \<Longrightarrow>
    bfs nodes connections nodeId d xs (ys @ sourcesOf connections i) (os_add visited i)"
  unfolding bfs_def by auto

lemma bfs_level: "bfs nodes connections nodeId d [] ys visited \<Longrightarrow> bfs nodes connections nodeId (Suc d) ys [] visited"
  unfolding bfs_def by (auto simp: less_Suc_eq)

definition nearestConfig :: "CanvasNodeData list \<Rightarrow> CanvasConnection list \<Rightarrow> string \<Rightarrow> CanvasNodeData option \<Rightarrow> bool" where
  "nearestConfig nodes connections nodeId r \<longleftrightarrow>
     (case r of
        None \<Rightarrow> \<forall>k. \<not> list_ex (isConfig nodes) (sourcesAt connections nodeId k)
      | Some n \<Rightarrow> cn_type n = NodeConfig \<and>
          (\<exists>k. cn_id n \<in> set (sourcesAt connections nodeId k) \<and>
               List.find (\<lambda>item. cn_id item = cn_id n) nodes = Some n \<and>
               (\<forall>j<k. \<not> list_ex (isConfig nodes) (sourcesAt connections nodeId j))))"

lemma bfs_found:
  assumes "bfs nodes connections nodeId d (i # xs) ys visited" "isConfig nodes i"
  shows "nearestConfig nodes connections nodeId (List.find (\<lambda>item. cn_id item = i) nodes)"
proof -
  obtain n where n: "List.find (\<lambda>item. cn_id item = i) nodes = Some n" "cn_type n = NodeConfig"
    using assms(2) by (auto simp: isConfig_def split: option.splits)
  then have "cn_id n = i"
    by (auto simp: find_Some_iff)
  moreover have "\<forall>j<d. \<not> list_ex (isConfig nodes) (sourcesAt connections nodeId j)"
    using assms(1) unfolding bfs_def list_ex_iff by blast
  ultimately show ?thesis
    using assms(1) n unfolding nearestConfig_def bfs_def by auto
qed

lemma sourcesAt_closed:
  assumes "bfs nodes connections nodeId d [] [] visited"
  shows "set (sourcesAt connections nodeId k) \<subseteq> set visited"
proof (induction k)
  case 0
  show ?case using assms unfolding bfs_def by (cases "d = 0") (auto simp del: sourcesAt.simps)
next
  case (Suc k)
  then show ?case using assms unfolding bfs_def by auto
qed

lemma bfs_exhausted:
  assumes "bfs nodes connections nodeId d [] [] visited"
  shows "nearestConfig nodes connections nodeId None"
proof -
  have "\<not> isConfig nodes i" if "i \<in> set (sourcesAt connections nodeId k)" for i k
    using that sourcesAt_closed [OF assms, of k] assms unfolding bfs_def by blast
  then show ?thesis
    by (simp add: nearestConfig_def list_ex_iff)
qed

text \<open>What is left of the search: the identifiers not visited yet, then the queue.\<close>

definition unvisited :: "CanvasConnection list \<Rightarrow> string list \<Rightarrow> string list \<Rightarrow> nat" where
  "unvisited connections queue visited = card ((set queue \<union> cc_fromNodeId ` set connections) - set visited)"

lemma set_sourcesOf: "set (sourcesOf connections i) \<subseteq> cc_fromNodeId ` set connections"
  by (auto simp: sourcesOf_def)

lemma unvisited_visit:
  assumes "i \<notin> set visited"
  shows "unvisited connections (queue @ sourcesOf connections i) (os_add visited i) < unvisited connections (i # queue) visited"
  unfolding unvisited_def
  by (rule psubset_card_mono) (use assms set_sourcesOf [of connections i] in auto)

lemma unvisited_skip:
  "i \<in> set visited \<Longrightarrow> unvisited connections queue visited = unvisited connections (i # queue) visited"
  unfolding unvisited_def by (rule arg_cong [where f = card]) auto

lemma retry_returns:
  "bfs nodes connections nodeId d xs ys visited \<Longrightarrow>
   \<exists>r. retryLoop nodes connections (xs @ ys) visited = Some r \<and> nearestConfig nodes connections nodeId r"
proof (induction "(unvisited connections (xs @ ys) visited, length (xs @ ys), if xs = [] then Suc 0 else 0)"
    arbitrary: d xs ys visited
    rule: wf_induct_rule [OF wf_lex_prod [OF wf_less_than wf_lex_prod [OF wf_less_than wf_less_than]]])
  case (1 xs ys visited d)
  show ?case
  proof (cases xs)
    case Nil
    show ?thesis
    proof (cases ys)
      case Nil
      then show ?thesis using 1(2) \<open>xs = []\<close> bfs_exhausted by auto
    next
      case (Cons y ys')
      then show ?thesis
        using 1(1) [of ys "[]" visited "Suc d"] 1(2) \<open>xs = []\<close> bfs_level by auto
    qed
  next
    case (Cons i xs')
    show ?thesis
    proof (cases "i \<in> set visited")
      case True
      then show ?thesis
        using 1(1) [of xs' ys visited d] 1(2) bfs_skip [of nodes connections nodeId d i xs' ys visited] Cons
          unvisited_skip [OF True, of connections "xs' @ ys"]
        by (auto simp: retry_visited)
    next
      case False
      show ?thesis
      proof (cases "isConfig nodes i")
        case True
        then show ?thesis
          using bfs_found [OF 1(2) [unfolded Cons] True] False by (simp add: Cons retry_config)
      next
        case other: False
        then show ?thesis
          using 1(1) [of xs' "ys @ sourcesOf connections i" "os_add visited i" d] Cons False
            bfs_visit [OF 1(2) [unfolded Cons] other] unvisited_visit [OF False, of connections "xs' @ ys"]
          by (auto simp: retry_other)
      qed
    qed
  qed
qed

text \<open>C9. The search for the source of a retry ends on every canvas, cyclic or not, and returns
  the nearest configuration: a node of that type that leads to the given node over \<open>k + 1\<close>
  connections, while no node that leads to it over fewer is a configuration.  It returns nothing
  only if no configuration leads to the node at any distance.\<close>

theorem retry_source_nearest:
  "\<exists>r. findRetrySourceNode nodeId nodes connections = Some r \<and>
     (case r of
        None \<Rightarrow> \<not> (\<exists>k. list_ex (isConfig nodes) (sourcesAt connections nodeId k))
      | Some n \<Rightarrow> cn_type n = NodeConfig \<and>
          (\<exists>k. cn_id n \<in> set (sourcesAt connections nodeId k) \<and>
               List.find (\<lambda>item. cn_id item = cn_id n) nodes = Some n \<and>
               \<not> (\<exists>j<k. list_ex (isConfig nodes) (sourcesAt connections nodeId j))))"
  using retry_returns [OF bfs_start, of nodes connections nodeId]
  unfolding findRetrySourceNode_def nearestConfig_def by (auto split: option.splits)

end
