(* ===== verification/Spec2Isabelle.thy ===== *)
theory Spec2Isabelle
  imports Status_Code_Rules Auth_Refresh Flow_Options Channel_Submit Ratio_Apply Playground_Text Canvas_Laws
begin

text \<open>
  A verification development of the web front end of moligate: the TypeScript under \<open>src/web/src\<close>
  and, for the canvas, \<open>src/web/infinite-canvas/src\<close>.  The front end is the administration console
  of an API gateway.  It keeps a session alive across tabs, edits channels and prices, shows how
  usage flows through the gateway, and has a chat playground and a canvas.  The definitions
  translate the modules that hold this logic; every state is a record, every handler a function on
  it, every exception and early return a value.

  \<^bold>\<open>JavaScript.\<close>  \<open>Js_Prelude\<close> has dynamic values, \<open>trim\<close>, \<open>split\<close>, \<open>join\<close>, decimal numerals and
  the stable sort; its locales \<open>comparator\<close> and \<open>signed_comparator\<close> are the contract of a comparison
  callback, interpreted where a source sorts.  \<open>Js_Collections\<close> has \<open>Map\<close> and \<open>Set\<close> in insertion
  order, with the locale \<open>ordered_map\<close> and its lemmas on aggregation loops.  \<open>Js_Json\<close> has
  \<open>JSON.parse\<close> and \<open>JSON.stringify\<close> and proves that a printed value parses back.  \<open>Js_Coerce\<close> has
  \<open>String\<close>, \<open>Number\<close> and comparisons.  The JSON parser takes fuel; twice the length of the text plus
  one is enough, which the round trip relies on and proves.

  \<^bold>\<open>Status codes.\<close>  \<open>Status_Code_Rules\<close> is \<open>lib/http-status-code-rules.ts\<close>: parsing denotes the set
  of codes the text lists, merged ranges are sorted and disjoint, printing parses back, and a bad
  token is rejected.

  \<^bold>\<open>Session.\<close>  \<open>Auth_Store\<close> is \<open>stores/auth-store.ts\<close> with the guards of server answers, and
  \<open>lib/admin-permissions.ts\<close>.  \<open>Auth_Refresh\<close> is \<open>lib/auth-session.ts\<close>, \<open>lib/auth-session-sync.ts\<close>
  and the listener of \<open>routes/__root.tsx\<close>, as steps on one machine.  An answer of a superseded epoch
  changes nothing, retries are bounded, each answer has its outcome, the token, session and user are
  set and cleared together, and a sign-out reaches the tabs of its session only.

  \<^bold>\<open>Usage flow.\<close>  \<open>Flow_Paths\<close>, \<open>Flow_Graph\<close> and \<open>Flow_Options\<close> are \<open>features/dashboard/lib/flow.ts\<close>
  and \<open>flow-selection.ts\<close>.  \<open>Flow_Laws\<close> shows that every column carries the whole metric and that
  nodes balance, \<open>Flow_Top\<close> treats the limit on nodes, shares, masking and highlighting, and
  \<open>Flow_Examples\<close> applies the laws to a small dashboard.

  \<^bold>\<open>Channels.\<close>  \<open>Model_Mapping\<close> and \<open>Status_Redirects\<close> are \<open>model-mapping-validation.ts\<close> and
  \<open>status-code-risk-guard.ts\<close> of \<open>features/channels/lib\<close>, with the parts of the drawer and the dialog
  that call them.  \<open>Advanced_Custom\<close> is \<open>advanced-custom.ts\<close>; its laws relate the validator to a
  declarative reading of valid routes and give the round trip.  \<open>Channel_Form\<close> is \<open>channel-form.ts\<close>,
  with \<open>Channel_Form_Laws\<close> on its round trips and \<open>Channel_Accept\<close> on what an accepted form and an
  update payload hold.  \<open>Channel_Submit\<close> is \<open>onSubmit\<close> of \<open>channel-mutate-drawer.tsx\<close>, which uses all
  of these: nothing is submitted that a check or a dialog refused.

  \<^bold>\<open>Prices.\<close>  \<open>Ratio_Sync\<close>, \<open>Ratio_Bulk\<close> and \<open>Ratio_Apply\<close> are the helpers, the table and the page of
  the upstream ratio sync in \<open>features/system-settings/models\<close>.  A batch of selections equals the
  selections one by one, the written settings hold what was chosen with no competing price, and a
  change of the kind of price is written only after the user agreed.

  \<^bold>\<open>Playground.\<close>  \<open>Playground_Messages\<close> is \<open>types.ts\<close>, the message modules and the payload builder of
  \<open>features/playground\<close>; \<open>Playground_Stream\<close> is the parsing of stream events and the hooks
  \<open>use-stream-request.ts\<close>, \<open>use-chat-handler.ts\<close> and \<open>use-playground-conversation.ts\<close>.  An updater
  given to React runs at once or at the next render: the flag \<open>eager\<close> of a step says which, and a
  queue holds the others.  \<open>reachableChat\<close> is the set of states under any order of user actions,
  network events, timers and renders.  \<open>Playground_Think\<close> characterises the parser of think tags,
  \<open>Playground_Laws\<close> shows by rule induction that superseded requests change nothing and that a stop
  is final, and \<open>Playground_Text\<close> that the text of an answer does not depend on timing, as long as no
  chunk repeats the text before it; without that hypothesis the code loses text.

  \<^bold>\<open>Canvas.\<close>  \<open>Canvas_Graph\<close> is the node registry, the canvas operations, \<open>use-canvas-ops.ts\<close> and the
  search for the source of a retry.  \<open>Canvas_Laws\<close> shows that operations keep the graph closed, unless
  a patch renames a node, and that the search ends on every graph, cycles included, with the nearest
  configuration.  The search has no fuel: not ending would be \<open>None\<close>, and it is proved to be \<open>Some\<close>.

  \<^bold>\<open>Conventions.\<close>  A string is the list of its UTF-8 bytes.  A number is a rational, exact where a
  double rounds, and \<open>jsnum\<close> where \<open>NaN\<close> and the infinities matter.  Parameters stand for what lies
  outside the sources or is chosen at run time: \<open>new URL\<close>, translations, the collation of the locale,
  the chart palette, answers to dialogs, fresh identifiers and the clock.

  \<^bold>\<open>Not modelled.\<close>  The gateway itself, written in Go, and HTTP requests, which are events here; the
  rendering of React and the styling of charts; the checks of single fields by the schema library;
  the transport between tabs; the storage of the playground, which counts UTF-16 units and relies on
  the schema library, and its parameters and options; of the canvas, plugin code, image and video
  processing and the remaining generation helpers; the other features of the console.
\<close>

end
